(* ===== verification/Prelude.thy ===== *)
theory Prelude
  imports Main "HOL-Library.Word" "HOL-Library.AList"
begin

text \<open>
  Shared vocabulary of the development.

  \<^item> \<open>res\<close> is Rust's \<open>Result\<close> together with the third way a Rust function can end, a
    panic (\<open>unwrap\<close> on \<open>None\<close>, \<open>expect\<close>, an explicit \<open>unreachable!\<close>); \<open>res_bind\<close> is the
    question-mark operator.
  \<^item> \<open>hmap\<close> is a hash map (\<open>std::collections::HashMap\<close> and \<open>papaya::HashMap\<close>): an
    association list with distinct keys. The order of the list stands for the iteration
    order, which Rust leaves unspecified; facts about loops over a hash map are stated
    for every list, so for every order.
  \<^item> \<open>json\<close> is \<open>serde_json::Value\<close>.
  \<^item> Machine integers keep their width: \<open>u16\<close>, \<open>u32\<close>, \<open>u64\<close>, \<open>i8\<close>, \<open>usize\<close>.
  \<^item> Rust's \<open>String\<close>, \<open>&str\<close>, \<open>Cow<str>\<close>, \<open>PathBuf\<close> and byte vectors are byte strings (\<open>string\<close>).
\<close>

section \<open>Collections of simplification rules\<close>

named_theorems res_simps \<open>unfolding of the result combinators\<close>
named_theorems std_simps \<open>the standard library's string functions on literals\<close>
named_theorems hmap_simps \<open>lookup after insertion in hash maps\<close>

section \<open>Machine integers\<close>

type_synonym u16 = "16 word"
type_synonym u32 = "32 word"
type_synonym u64 = "64 word"
type_synonym usize = "64 word"
type_synonym i8 = "8 word"

section \<open>Results and panics\<close>

datatype ('e, 'a) res = Ok 'a | Err 'e | Panic string

fun res_bind :: "('e, 'a) res \<Rightarrow> ('a \<Rightarrow> ('e, 'b) res) \<Rightarrow> ('e, 'b) res" where
  "res_bind (Ok x) f = f x"
| "res_bind (Err e) f = Err e"
| "res_bind (Panic m) f = Panic m"

fun map_err :: "('e \<Rightarrow> 'f) \<Rightarrow> ('e, 'a) res \<Rightarrow> ('f, 'a) res" where
  "map_err g (Ok x) = Ok x"
| "map_err g (Err e) = Err (g e)"
| "map_err g (Panic m) = Panic m"

fun res_ok :: "('e, 'a) res \<Rightarrow> 'a option" where
  "res_ok (Ok x) = Some x"
| "res_ok (Err e) = None"
| "res_ok (Panic m) = None"

fun is_ok :: "('e, 'a) res \<Rightarrow> bool" where
  "is_ok (Ok x) = True"
| "is_ok (Err e) = False"
| "is_ok (Panic m) = False"

definition ok_or :: "'e \<Rightarrow> 'a option \<Rightarrow> ('e, 'a) res" where
  "ok_or e v = (case v of Some x \<Rightarrow> Ok x | None \<Rightarrow> Err e)"

definition unwrap_or :: "'a \<Rightarrow> 'a option \<Rightarrow> 'a" where
  "unwrap_or d v = (case v of Some x \<Rightarrow> x | None \<Rightarrow> d)"

definition is_some_and :: "('a \<Rightarrow> bool) \<Rightarrow> 'a option \<Rightarrow> bool" where
  "is_some_and p v = (case v of Some x \<Rightarrow> p x | None \<Rightarrow> False)"

lemma ok_or_simps [simp, res_simps]:
  "ok_or e (Some x) = Ok x"
  "ok_or e None = Err e"
  by (simp_all add: ok_or_def)

lemma unwrap_or_simps [simp, res_simps]:
  "unwrap_or d (Some x) = x"
  "unwrap_or d None = d"
  by (simp_all add: unwrap_or_def)

lemma is_some_and_simps [simp, res_simps]:
  "is_some_and p (Some x) = p x"
  "is_some_and p None = False"
  by (simp_all add: is_some_and_def)

lemma res_bind_Ok_iff:
  "res_bind r f = Ok y \<longleftrightarrow> (\<exists>x. r = Ok x \<and> f x = Ok y)"
  by (cases r) auto

lemma res_bind_Err_iff:
  "res_bind r f = Err e \<longleftrightarrow> r = Err e \<or> (\<exists>x. r = Ok x \<and> f x = Err e)"
  by (cases r) auto

lemma res_bind_Panic_iff:
  "res_bind r f = Panic m \<longleftrightarrow> r = Panic m \<or> (\<exists>x. r = Ok x \<and> f x = Panic m)"
  by (cases r) auto

lemma res_bind_assoc: "res_bind (res_bind r f) g = res_bind r (\<lambda>x. res_bind (f x) g)"
  by (cases r) auto

lemma map_err_Ok_iff [simp]: "map_err g r = Ok x \<longleftrightarrow> r = Ok x"
  by (cases r) auto

lemma map_err_Panic_iff [simp]: "map_err g r = Panic m \<longleftrightarrow> r = Panic m"
  by (cases r) auto

lemma is_ok_iff: "is_ok r \<longleftrightarrow> (\<exists>x. r = Ok x)"
  by (cases r) auto

section \<open>Stateful computations\<close>

text \<open>
  A method with \<open>&mut\<close> arguments maps the state to its result and the state it leaves behind.
  The state is there after an error too: what was written before the error stays written.
\<close>

type_synonym ('s, 'e, 'a) act = "'s \<Rightarrow> ('e, 'a) res \<times> 's"

definition act_res :: "('e, 'a) res \<Rightarrow> ('s, 'e, 'a) act" where
  "act_res r s = (r, s)"

definition act_bind :: "('s, 'e, 'a) act \<Rightarrow> ('a \<Rightarrow> ('s, 'e, 'b) act) \<Rightarrow> ('s, 'e, 'b) act" where
  "act_bind m f s = (case m s of
     (Ok x, s') \<Rightarrow> f x s'
   | (Err e, s') \<Rightarrow> (Err e, s')
   | (Panic p, s') \<Rightarrow> (Panic p, s'))"

definition act_then :: "('s, 'e, 'a) act \<Rightarrow> ('s, 'e, 'b) act \<Rightarrow> ('s, 'e, 'b) act" where
  "act_then m n = act_bind m (\<lambda>_. n)"

definition act_modify :: "('s \<Rightarrow> 's) \<Rightarrow> ('s, 'e, unit) act" where
  "act_modify f s = (Ok (), f s)"

definition act_read :: "('s \<Rightarrow> ('s, 'e, 'a) act) \<Rightarrow> ('s, 'e, 'a) act" where
  "act_read f s = f s s"

lemma act_simps [simp, res_simps]:
  "act_res r s = (r, s)"
  "act_modify f s = (Ok (), f s)"
  "act_then m n s = act_bind m (\<lambda>_. n) s"
  "act_read g s = g s s"
  by (simp_all add: act_res_def act_modify_def act_then_def act_read_def)

lemma act_bind_cases [simp, res_simps]:
  "m s = (Ok x, s') \<Longrightarrow> act_bind m f s = f x s'"
  "m s = (Err e, s') \<Longrightarrow> act_bind m f s = (Err e, s')"
  "m s = (Panic p, s') \<Longrightarrow> act_bind m f s = (Panic p, s')"
  by (simp_all add: act_bind_def)

lemma act_bind_Ok_iff:
  "act_bind m f s = (Ok y, t) \<longleftrightarrow> (\<exists>x s'. m s = (Ok x, s') \<and> f x s' = (Ok y, t))"
  by (auto simp: act_bind_def split: prod.splits res.splits)

text \<open>\<open>act_keeps R m\<close>: whatever \<open>m\<close> returns, the state it leaves is \<open>R\<close>-related to the first.\<close>

definition act_keeps :: "('s \<Rightarrow> 's \<Rightarrow> bool) \<Rightarrow> ('s, 'e, 'a) act \<Rightarrow> bool" where
  "act_keeps R m \<longleftrightarrow> (\<forall>s. R s (snd (m s)))"

lemma act_keeps_res [intro]: "reflp R \<Longrightarrow> act_keeps R (act_res r)"
  by (simp add: act_keeps_def reflp_def)

lemma act_keeps_bind [intro]:
  assumes "transp R" and "act_keeps R m" and "\<And>x. act_keeps R (f x)"
  shows "act_keeps R (act_bind m f)"
  unfolding act_keeps_def
proof
  fix s
  have "R s (snd (m s))" and "\<And>x. R (snd (m s)) (snd (f x (snd (m s))))"
    using assms(2,3) by (auto simp: act_keeps_def)
  then show "R s (snd (act_bind m f s))"
    using assms(1) by (auto simp: act_bind_def transp_def split: prod.splits res.splits)
qed

lemma act_keeps_then [intro]:
  "transp R \<Longrightarrow> act_keeps R m \<Longrightarrow> act_keeps R n \<Longrightarrow> act_keeps R (act_then m n)"
  unfolding act_then_def by (rule act_keeps_bind)

lemma act_keeps_modify [intro]: "(\<And>s. R s (f s)) \<Longrightarrow> act_keeps R (act_modify f)"
  by (simp add: act_keeps_def)

lemma act_keeps_read [intro]: "(\<And>s. act_keeps R (f s)) \<Longrightarrow> act_keeps R (act_read f)"
  by (simp add: act_keeps_def)

lemma act_keepsD: "act_keeps R m \<Longrightarrow> m s = (r, s') \<Longrightarrow> R s s'"
  unfolding act_keeps_def by (metis snd_conv)

section \<open>Hash maps\<close>

type_synonym ('k, 'v) hmap = "('k \<times> 'v) list"

definition hm_get :: "('k, 'v) hmap \<Rightarrow> 'k \<Rightarrow> 'v option" where
  "hm_get m k = map_of m k"

definition hm_insert :: "'k \<Rightarrow> 'v \<Rightarrow> ('k, 'v) hmap \<Rightarrow> ('k, 'v) hmap" where
  "hm_insert k v m = AList.update k v m"

definition hm_contains :: "('k, 'v) hmap \<Rightarrow> 'k \<Rightarrow> bool" where
  "hm_contains m k \<longleftrightarrow> hm_get m k \<noteq> None"

definition hm_wf :: "('k, 'v) hmap \<Rightarrow> bool" where
  "hm_wf m \<longleftrightarrow> distinct (map fst m)"

lemma hm_get_empty [simp, hmap_simps]: "hm_get [] k = None"
  by (simp add: hm_get_def)

lemma hm_get_insert [simp, hmap_simps]:
  "hm_get (hm_insert k v m) k' = (if k' = k then Some v else hm_get m k')"
  by (simp add: hm_get_def hm_insert_def update_conv')

lemma hm_get_insert_same [hmap_simps]: "hm_get (hm_insert k v m) k = Some v"
  by simp

lemma hm_contains_insert [simp, hmap_simps]:
  "hm_contains (hm_insert k v m) k' \<longleftrightarrow> k' = k \<or> hm_contains m k'"
  by (simp add: hm_contains_def)

lemma hm_contains_set: "hm_contains m k \<longleftrightarrow> k \<in> fst ` set m"
  by (simp add: hm_contains_def hm_get_def map_of_eq_None_iff)

lemma hm_wf_empty [simp]: "hm_wf []"
  by (simp add: hm_wf_def)

lemma hm_wf_insert [simp]: "hm_wf m \<Longrightarrow> hm_wf (hm_insert k v m)"
  by (simp add: hm_wf_def hm_insert_def distinct_update)

lemma hm_get_SomeD: "hm_get m k = Some v \<Longrightarrow> (k, v) \<in> set m"
  by (simp add: hm_get_def map_of_SomeD)

lemma hm_get_in: "hm_wf m \<Longrightarrow> (k, v) \<in> set m \<Longrightarrow> hm_get m k = Some v"
  by (simp add: hm_get_def hm_wf_def)

text \<open>Two enumerations of the same hash map agree on every lookup.\<close>

lemma hm_get_same_set:
  "hm_wf m \<Longrightarrow> hm_wf m' \<Longrightarrow> set m = set m' \<Longrightarrow> hm_get m = hm_get m'"
  by (rule ext) (metis hm_get_SomeD hm_get_in not_None_eq)

section \<open>JSON values\<close>

datatype json =
    JNull
  | JBool bool
  | JNumber string
  | JString string
  | JArray "json list"
  | JObject "(string \<times> json) list"

fun as_str :: "json \<Rightarrow> string option" where
  "as_str (JString s) = Some s"
| "as_str _ = None"

fun as_array :: "json \<Rightarrow> json list option" where
  "as_array (JArray vs) = Some vs"
| "as_array _ = None"

fun as_object :: "json \<Rightarrow> (string \<times> json) list option" where
  "as_object (JObject kvs) = Some kvs"
| "as_object _ = None"

section \<open>Lists\<close>

lemma filter_map_member:
  "y \<in> set (List.map_filter f xs) \<longleftrightarrow> (\<exists>x\<in>set xs. f x = Some y)"
  by (induction xs) (auto simp: List.map_filter_simps split: option.splits)

lemma find_Some_props: "find P xs = Some x \<Longrightarrow> x \<in> set xs \<and> P x"
  by (auto simp: find_Some_iff)

end
