(* ===== verification/Rust_Std.thy ===== *)
theory Rust_Std
  imports Prelude
begin

text \<open>
  The parts of Rust's standard library that the proxy's own code computes with: string
  splitting and trimming, decimal printing and parsing, UTF-8 validation, joining and
  inspecting Unix paths. Strings are UTF-8 byte strings.
\<close>

section \<open>Prefixes\<close>

definition starts_with :: "string \<Rightarrow> string \<Rightarrow> bool" where
  "starts_with p s \<longleftrightarrow> take (length p) s = p"

definition strip_prefix :: "string \<Rightarrow> string \<Rightarrow> string option" where
  "strip_prefix p s = (if starts_with p s then Some (drop (length p) s) else None)"

text \<open>\<open>str::trim_start_matches\<close> removes the (non-empty) pattern as often as it occurs.\<close>

function trim_start_matches :: "string \<Rightarrow> string \<Rightarrow> string" where
  "trim_start_matches p s =
     (if p \<noteq> [] \<and> s \<noteq> [] \<and> starts_with p s
      then trim_start_matches p (drop (length p) s) else s)"
  by pat_completeness auto
termination
  by (relation "measure (\<lambda>(p, s). length s)") auto

declare trim_start_matches.simps [simp del]

fun str_contains :: "string \<Rightarrow> string \<Rightarrow> bool" where
  "str_contains p [] = (p = [])"
| "str_contains p (x # xs) = (starts_with p (x # xs) \<or> str_contains p xs)"

lemma starts_with_append [simp, std_simps]: "starts_with p (p @ s)"
  by (simp add: starts_with_def)

lemma starts_with_iff: "starts_with p s \<longleftrightarrow> (\<exists>t. s = p @ t)"
  unfolding starts_with_def by (metis append_eq_conv_conj)

lemma starts_with_Nil [simp, std_simps]: "starts_with [] s"
  by (simp add: starts_with_def)

lemma starts_with_Cons [simp, std_simps]:
  "starts_with (c # p) [] = False"
  "starts_with (c # p) (x # s) = (c = x \<and> starts_with p s)"
  by (auto simp: starts_with_def)

lemma strip_prefix_append [simp]: "strip_prefix p (p @ s) = Some s"
  by (simp add: strip_prefix_def)

lemma strip_prefix_SomeD: "strip_prefix p s = Some t \<Longrightarrow> s = p @ t"
  by (auto simp: strip_prefix_def starts_with_iff split: if_splits)

lemma trim_start_matches_append [simp]:
  "p \<noteq> [] \<Longrightarrow> trim_start_matches p (p @ s) = trim_start_matches p s"
  by (subst trim_start_matches.simps) simp

lemma trim_start_matches_id:
  "\<not> starts_with p s \<Longrightarrow> trim_start_matches p s = s"
  by (subst trim_start_matches.simps) simp

text \<open>Trimming removes whole copies of the pattern, and none is left at the front.\<close>

lemma trim_start_matches_stops:
  "p \<noteq> [] \<Longrightarrow> \<not> starts_with p (trim_start_matches p s)"
proof (induction p s rule: trim_start_matches.induct)
  case (1 p s)
  then show ?case
    by (cases s; subst trim_start_matches.simps) (auto simp: neq_Nil_conv)
qed

lemma trim_start_matches_copies:
  "\<exists>n. s = concat (replicate n p) @ trim_start_matches p s"
proof (induction p s rule: trim_start_matches.induct)
  case (1 p s)
  show ?case
  proof (cases "p \<noteq> [] \<and> s \<noteq> [] \<and> starts_with p s")
    case True
    then obtain t where t: "s = p @ t" by (auto simp: starts_with_iff)
    with "1.IH" [OF True] obtain n where "t = concat (replicate n p) @ trim_start_matches p t"
      by auto
    with t True have "s = concat (replicate (Suc n) p) @ trim_start_matches p s"
      by simp
    then show ?thesis ..
  next
    case False
    then have "s = concat (replicate 0 p) @ trim_start_matches p s"
      by (subst trim_start_matches.simps) auto
    then show ?thesis ..
  qed
qed

lemma str_contains_iff: "str_contains p s \<longleftrightarrow> (\<exists>a b. s = a @ p @ b)"
proof (induction s)
  case (Cons x xs)
  have "(\<exists>a b. x # xs = a @ p @ b) \<longleftrightarrow>
        (\<exists>b. x # xs = p @ b) \<or> (\<exists>a b. xs = a @ p @ b)"
    by (metis Cons_eq_append_conv append_Cons append_Nil)
  with Cons show ?case by (simp add: starts_with_iff)
qed auto

section \<open>Splitting\<close>

text \<open>\<open>str::split(char)\<close>: always at least one piece.\<close>

fun split_on :: "char \<Rightarrow> string \<Rightarrow> string list" where
  "split_on c [] = [[]]"
| "split_on c (x # xs) =
     (if x = c then [] # split_on c xs
      else (case split_on c xs of [] \<Rightarrow> [[x]] | p # ps \<Rightarrow> (x # p) # ps))"

fun join_with :: "char \<Rightarrow> string list \<Rightarrow> string" where
  "join_with c [] = []"
| "join_with c [p] = p"
| "join_with c (p # q # ps) = p @ c # join_with c (q # ps)"

definition split_once :: "char \<Rightarrow> string \<Rightarrow> (string \<times> string) option" where
  "split_once c s =
     (if c \<in> set s then Some (takeWhile (\<lambda>x. x \<noteq> c) s, tl (dropWhile (\<lambda>x. x \<noteq> c) s))
      else None)"

lemma split_on_not_Nil [simp]: "split_on c s \<noteq> []"
  by (cases s) (auto split: list.splits)

lemma join_with_Cons: "ps \<noteq> [] \<Longrightarrow> join_with c (p # ps) = p @ c # join_with c ps"
  by (cases ps) auto

lemma join_split_on [simp]: "join_with c (split_on c s) = s"
proof (induction s)
  case (Cons x xs)
  obtain p ps where ps: "split_on c xs = p # ps" by (cases "split_on c xs") auto
  with Cons show ?case by (cases ps) (auto simp: join_with_Cons)
qed simp

lemma split_on_no_sep: "p \<in> set (split_on c s) \<Longrightarrow> c \<notin> set p"
  by (induction s arbitrary: p) (auto split: if_splits list.splits)

lemma split_on_free [simp]: "c \<notin> set s \<Longrightarrow> split_on c s = [s]"
  by (induction s) auto

lemma split_on_append:
  "c \<notin> set a \<Longrightarrow> split_on c (a @ c # s) = a # split_on c s"
  by (induction a) auto

lemma split_on_append_general:
  "split_on c (a @ c # s) = split_on c a @ split_on c s"
proof (induction a)
  case (Cons x xs)
  then show ?case by (cases "split_on c xs") auto
qed simp

lemma split_on_join_with:
  "ps \<noteq> [] \<Longrightarrow> (\<And>p. p \<in> set ps \<Longrightarrow> c \<notin> set p) \<Longrightarrow> split_on c (join_with c ps) = ps"
  by (induction c ps rule: join_with.induct) (auto simp: split_on_append)

lemma split_on_hd: "hd (split_on c s) = takeWhile (\<lambda>x. x \<noteq> c) s"
proof (induction s)
  case (Cons x xs)
  then show ?case by (cases "split_on c xs") auto
qed simp

lemma split_once_append:
  "c \<notin> set a \<Longrightarrow> split_once c (a @ c # b) = Some (a, b)"
  by (induction a) (auto simp: split_once_def split: if_splits)

lemma split_once_Some_iff:
  "split_once c s = Some (a, b) \<longleftrightarrow> c \<notin> set a \<and> s = a @ c # b"
proof
  assume "split_once c s = Some (a, b)"
  then have c: "c \<in> set s" and a: "a = takeWhile (\<lambda>x. x \<noteq> c) s"
    and b: "b = tl (dropWhile (\<lambda>x. x \<noteq> c) s)"
    by (auto simp: split_once_def split: if_splits)
  from c have "hd (dropWhile (\<lambda>x. x \<noteq> c) s) = c" "dropWhile (\<lambda>x. x \<noteq> c) s \<noteq> []"
    using hd_dropWhile [of "\<lambda>x. x \<noteq> c" s] by (auto simp: dropWhile_eq_Nil_conv)
  with a b show "c \<notin> set a \<and> s = a @ c # b"
    by (metis (mono_tags, lifting) list.collapse set_takeWhileD takeWhile_dropWhile_id)
qed (auto simp: split_once_append)

lemma split_once_None_iff: "split_once c s = None \<longleftrightarrow> c \<notin> set s"
  by (simp add: split_once_def)

text \<open>\<open>str::split_inclusive(&str)\<close>: pieces end with the pattern, an empty last piece is dropped.\<close>

function split_inclusive :: "string \<Rightarrow> string \<Rightarrow> string \<Rightarrow> string list" where
  "split_inclusive pat acc s =
     (if pat \<noteq> [] \<and> s \<noteq> [] \<and> starts_with pat s
      then (acc @ pat) # split_inclusive pat [] (drop (length pat) s)
      else case s of [] \<Rightarrow> (if acc = [] then [] else [acc])
           | x # xs \<Rightarrow> split_inclusive pat (acc @ [x]) xs)"
  by pat_completeness auto
termination
  by (relation "measure (\<lambda>(pat, acc, s). length s)") auto

declare split_inclusive.simps [simp del]

lemma concat_split_inclusive: "concat (split_inclusive pat acc s) = acc @ s"
proof (induction pat acc s rule: split_inclusive.induct)
  case (1 pat acc s)
  show ?case
  proof (cases "pat \<noteq> [] \<and> s \<noteq> [] \<and> starts_with pat s")
    case True
    then obtain t where "s = pat @ t" by (auto simp: starts_with_iff)
    with True "1.IH"(1) [OF True] show ?thesis
      by (subst split_inclusive.simps) auto
  next
    case False
    with "1.IH"(2) [OF False] show ?thesis
      by (subst split_inclusive.simps) (auto split: list.splits)
  qed
qed

section \<open>White space\<close>

text \<open>\<open>str::trim\<close> removes Unicode white space; these are its UTF-8 encodings.\<close>

definition white_space :: "string list" where
  "white_space =
     map (\<lambda>n. [char_of n]) [9, 10, 11, 12, 13, 32 :: nat] @
     map (map char_of)
       [[0xC2, 0x85], [0xC2, 0xA0], [0xE1, 0x9A, 0x80], [0xE2, 0x80, 0xA8], [0xE2, 0x80, 0xA9],
        [0xE2, 0x80, 0xAF], [0xE2, 0x81, 0x9F], [0xE3, 0x80, 0x80 :: nat]] @
     map (\<lambda>n. map char_of [0xE2, 0x80, n]) [0x80 ..< 0x8B]"

fun trim_any :: "nat \<Rightarrow> string list \<Rightarrow> string \<Rightarrow> string" where
  "trim_any 0 ws s = s"
| "trim_any (Suc n) ws s =
     (case find (\<lambda>w. starts_with w s) ws of
        None \<Rightarrow> s
      | Some w \<Rightarrow> trim_any n ws (drop (length w) s))"

text \<open>Each round removes at least one byte, so the length is enough rounds.\<close>

definition trim_start :: "string \<Rightarrow> string" where
  "trim_start s = trim_any (length s) white_space s"

definition trim_end :: "string \<Rightarrow> string" where
  "trim_end s = rev (trim_any (length s) (map rev white_space) (rev s))"

definition trim :: "string \<Rightarrow> string" where
  "trim s = trim_end (trim_start s)"

lemma trim_any_stops:
  "[] \<notin> set ws \<Longrightarrow> length s \<le> n \<Longrightarrow> \<forall>w\<in>set ws. \<not> starts_with w (trim_any n ws s)"
proof (induction n ws s rule: trim_any.induct)
  case (1 ws s)
  then show ?case by (auto simp: starts_with_def)
next
  case (2 n ws s)
  show ?case
  proof (cases "find (\<lambda>w. starts_with w s) ws")
    case None
    then have "\<forall>w\<in>set ws. \<not> starts_with w s" by (auto simp: find_None_iff)
    with None show ?thesis by simp
  next
    case (Some w)
    then have "w \<in> set ws" "starts_with w s" by (auto dest: find_Some_props)
    with "2.prems" have "length (drop (length w) s) \<le> n"
      by (cases w) (auto simp: starts_with_iff)
    with Some "2.prems" "2.IH" show ?thesis by simp
  qed
qed

section \<open>Lower case\<close>

text \<open>
  \<open>str::to_lowercase\<close>. The results are only ever compared with ASCII literals. Beside
  the letters A to Z exactly one character has an ASCII lower case, the Kelvin sign
  (U+212A, bytes E2 84 AA); other bytes are left as they are, which decides those
  comparisons the same way.
\<close>

definition lower_char :: "char \<Rightarrow> char" where
  "lower_char c = (if 65 \<le> (of_char c :: nat) \<and> (of_char c :: nat) \<le> 90
                   then char_of ((of_char c :: nat) + 32) else c)"

fun to_lowercase :: "string \<Rightarrow> string" where
  "to_lowercase (a # b # c # s) =
     (if a = char_of (0xE2 :: nat) \<and> b = char_of (0x84 :: nat) \<and> c = char_of (0xAA :: nat)
      then CHR ''k'' # to_lowercase s
      else lower_char a # to_lowercase (b # c # s))"
| "to_lowercase s = map lower_char s"

lemma to_lowercase_ascii:
  "list_all (\<lambda>c. (of_char c :: nat) < 128) s \<Longrightarrow> to_lowercase s = map lower_char s"
proof (induction s rule: to_lowercase.induct)
  case (1 a b c s)
  then have "a \<noteq> char_of (0xE2 :: nat)" by (auto simp: of_char_of)
  with 1 show ?case by simp
qed simp_all

declare to_lowercase.simps [simp del]

text \<open>Rules that evaluate the functions above on literals.\<close>

lemma eq_char_of_iff: "c = char_of n \<longleftrightarrow> take_bit 8 n = of_char c"
  using char_of_eq_iff [of n c] by auto

lemmas literal_simps = to_lowercase_ascii lower_char_def char_of_eq_iff eq_char_of_iff

section \<open>Decimal numbers\<close>

fun show_nat :: "nat \<Rightarrow> string" where
  "show_nat n = (if n < 10 then [char_of (48 + n)]
                 else show_nat (n div 10) @ [char_of (48 + n mod 10)])"

declare show_nat.simps [simp del]

definition digit_val :: "char \<Rightarrow> nat option" where
  "digit_val c = (let n = of_char c in if 48 \<le> n \<and> n \<le> 57 then Some (n - 48) else None)"

fun parse_digits :: "nat \<Rightarrow> string \<Rightarrow> nat option" where
  "parse_digits acc [] = Some acc"
| "parse_digits acc (c # cs) =
     (case digit_val c of None \<Rightarrow> None | Some d \<Rightarrow> parse_digits (10 * acc + d) cs)"

text \<open>\<open>str::parse::<u64>\<close>: an optional plus sign, at least one digit, no overflow.\<close>

definition parse_u64 :: "string \<Rightarrow> u64 option" where
  "parse_u64 s =
     (let ds = (case s of [] \<Rightarrow> [] | c # r \<Rightarrow> if c = CHR ''+'' then r else s)
      in if ds = [] then None
         else case parse_digits 0 ds of
                None \<Rightarrow> None
              | Some n \<Rightarrow> if n < 2 ^ 64 then Some (word_of_nat n) else None)"

definition show_u64 :: "u64 \<Rightarrow> string" where
  "show_u64 w = show_nat (unat w)"

definition show_u16 :: "u16 \<Rightarrow> string" where
  "show_u16 w = show_nat (unat w)"

lemma show_nat_not_Nil [simp]: "show_nat n \<noteq> []"
  by (subst show_nat.simps) simp

lemma digit_val_char_of: "d < 10 \<Longrightarrow> digit_val (char_of (48 + d)) = Some d"
  by (simp add: digit_val_def Let_def)

lemma parse_digits_append:
  "parse_digits acc (s @ t) =
     (case parse_digits acc s of None \<Rightarrow> None | Some n \<Rightarrow> parse_digits n t)"
  by (induction s arbitrary: acc) (auto split: option.splits)

lemma parse_show_nat: "parse_digits 0 (show_nat n) = Some n"
proof (induction n rule: show_nat.induct)
  case (1 n)
  show ?case
  proof (cases "n < 10")
    case True
    then show ?thesis by (subst show_nat.simps) (simp add: digit_val_char_of)
  next
    case False
    with "1.IH" show ?thesis
      by (subst show_nat.simps) (simp add: parse_digits_append digit_val_char_of)
  qed
qed

lemma show_nat_digits: "c \<in> set (show_nat n) \<Longrightarrow> \<exists>d<10. c = char_of (48 + d :: nat)"
proof (induction n rule: show_nat.induct)
  case (1 n)
  show ?case
  proof (cases "n < 10")
    case True
    with "1.prems" show ?thesis by (subst (asm) show_nat.simps) auto
  next
    case False
    with "1" show ?thesis
      by (subst (asm) (2) show_nat.simps) (auto intro: exI [of _ "n mod 10"])
  qed
qed

lemma show_nat_no_char:
  "\<not> (48 \<le> (of_char c :: nat) \<and> (of_char c :: nat) \<le> 57) \<Longrightarrow> c \<notin> set (show_nat n)"
  using show_nat_digits by fastforce

text \<open>Printing a \<open>u64\<close> and parsing it again gives it back.\<close>

lemma parse_show_u64 [simp]: "parse_u64 (show_u64 w) = Some w"
proof -
  have "CHR ''+'' \<notin> set (show_nat (unat w))" by (rule show_nat_no_char) simp
  then have "(case show_nat (unat w) of [] \<Rightarrow> [] | c # r \<Rightarrow>
      if c = CHR ''+'' then r else show_nat (unat w)) = show_nat (unat w)"
    by (auto split: list.splits)
  moreover have "unat w < 2 ^ LENGTH(64)" by (rule unsigned_less)
  ultimately show ?thesis
    by (simp add: parse_u64_def show_u64_def parse_show_nat Let_def)
qed

section \<open>UTF-8\<close>

definition utf8_cont :: "nat \<Rightarrow> bool" where
  "utf8_cont b \<longleftrightarrow> 0x80 \<le> b \<and> b \<le> 0xBF"

fun utf8_ok :: "nat list \<Rightarrow> bool" where
  "utf8_ok [] = True"
| "utf8_ok (b # bs) =
     (if b \<le> 0x7F then utf8_ok bs
      else if 0xC2 \<le> b \<and> b \<le> 0xDF then
        (case bs of c # r \<Rightarrow> utf8_cont c \<and> utf8_ok r | _ \<Rightarrow> False)
      else if 0xE0 \<le> b \<and> b \<le> 0xEF then
        (case bs of c # d # r \<Rightarrow>
           utf8_cont c \<and> utf8_cont d \<and> (b = 0xE0 \<longrightarrow> 0xA0 \<le> c) \<and> (b = 0xED \<longrightarrow> c \<le> 0x9F) \<and> utf8_ok r
         | _ \<Rightarrow> False)
      else if 0xF0 \<le> b \<and> b \<le> 0xF4 then
        (case bs of c # d # e # r \<Rightarrow>
           utf8_cont c \<and> utf8_cont d \<and> utf8_cont e \<and> (b = 0xF0 \<longrightarrow> 0x90 \<le> c) \<and>
           (b = 0xF4 \<longrightarrow> c \<le> 0x8F) \<and> utf8_ok r
         | _ \<Rightarrow> False)
      else False)"

text \<open>\<open>String::from_utf8\<close>.\<close>

definition from_utf8 :: "string \<Rightarrow> string option" where
  "from_utf8 bs = (if utf8_ok (map of_char bs) then Some bs else None)"

lemma from_utf8_Nil [simp]: "from_utf8 [] = Some []"
  by (simp add: from_utf8_def)

lemma from_utf8_SomeD: "from_utf8 s = Some t \<Longrightarrow> t = s"
  by (simp add: from_utf8_def split: if_splits)

lemma from_utf8_ascii: "\<forall>c\<in>set s. (of_char c :: nat) \<le> 0x7F \<Longrightarrow> from_utf8 s = Some s"
proof -
  assume a: "\<forall>c\<in>set s. (of_char c :: nat) \<le> 0x7F"
  then have "utf8_ok (map of_char s)" by (induction s) auto
  then show ?thesis by (simp add: from_utf8_def)
qed

section \<open>Paths\<close>

text \<open>\<open>PathBuf::join\<close> on Unix: an absolute second part replaces the first.\<close>

definition path_join :: "string \<Rightarrow> string \<Rightarrow> string" where
  "path_join a b =
     (if starts_with ''/'' b then b
      else if a = [] \<or> last a = CHR ''/'' then a @ b
      else a @ ''/'' @ b)"

text \<open>
  \<open>Path::file_name\<close>: the last component, where empty and (after the first) \<open>.\<close> components are
  skipped; none when the path ends in \<open>..\<close>.
\<close>

definition file_name :: "string \<Rightarrow> string option" where
  "file_name p =
     (case filter (\<lambda>c. c \<noteq> [] \<and> c \<noteq> ''.'') (split_on (CHR ''/'') p) of
        [] \<Rightarrow> None
      | cs \<Rightarrow> if last cs = ''..'' then None else Some (last cs))"

text \<open>\<open>Path::extension\<close>: what follows the last dot of the file name, unless that dot is its first byte.\<close>

definition path_extension :: "string \<Rightarrow> string option" where
  "path_extension p =
     (case file_name p of
        None \<Rightarrow> None
      | Some n \<Rightarrow>
          (let ps = split_on (CHR ''.'') n
           in if length ps \<le> 1 \<or> butlast ps = [[]] then None else Some (last ps)))"

lemma path_join_inj:
  "\<not> starts_with ''/'' b \<Longrightarrow> \<not> starts_with ''/'' c \<Longrightarrow>
   path_join a b = path_join a c \<longleftrightarrow> b = c"
  by (auto simp: path_join_def)

lemma file_name_last:
  assumes "split_on (CHR ''/'') p = ps @ [n]" and "n \<noteq> []" and "n \<noteq> ''.''" and "n \<noteq> ''..''"
  shows "file_name p = Some n"
proof -
  let ?fs = "filter (\<lambda>c. c \<noteq> [] \<and> c \<noteq> ''.'') (split_on (CHR ''/'') p)"
  have fs: "?fs = filter (\<lambda>c. c \<noteq> [] \<and> c \<noteq> ''.'') ps @ [n]" using assms(1-3) by simp
  then have "?fs \<noteq> []" and "last ?fs = n" by simp_all
  then show ?thesis using assms(4) by (auto simp: file_name_def split: list.split)
qed

lemma file_name_join:
  assumes "CHR ''/'' \<notin> set n" and "n \<noteq> []" and "n \<noteq> ''.''" and "n \<noteq> ''..''"
  shows "file_name (path_join a n) = Some n"
proof -
  have split: "split_on (CHR ''/'') (b @ CHR ''/'' # n) = split_on (CHR ''/'') b @ [n]" for b
    using assms(1) by (simp add: split_on_append_general)
  have no: "\<not> starts_with ''/'' n" using assms(1,2) by (cases n) auto
  consider "a = []" | b where "a = b @ ''/''" | "a \<noteq> []" "last a \<noteq> CHR ''/''"
    by (metis append_butlast_last_id)
  then show ?thesis
  proof cases
    case 1
    then show ?thesis using assms no by (simp add: path_join_def file_name_def)
  next
    case 2
    then have "path_join a n = b @ CHR ''/'' # n" using no by (simp add: path_join_def)
    with split [of b] show ?thesis using assms(2-) by (intro file_name_last) simp_all
  next
    case 3
    then have "path_join a n = a @ CHR ''/'' # n" using no by (simp add: path_join_def)
    with split [of a] show ?thesis using assms(2-) by (intro file_name_last) simp_all
  qed
qed

section \<open>Pieces and trimming\<close>

text \<open>The text before and including the first occurrence of the pattern is the first piece.\<close>

lemma starts_with_longer:
  "length p \<le> length s \<Longrightarrow> starts_with p (s @ t) \<longleftrightarrow> starts_with p s"
  by (simp add: starts_with_def)

lemma split_inclusive_first:
  assumes "pat \<noteq> []" and "\<forall>i<length b. \<not> starts_with pat (drop i (b @ pat))"
  shows "split_inclusive pat acc (b @ pat @ t) = (acc @ b @ pat) # split_inclusive pat [] t"
  using assms(2)
proof (induction b arbitrary: acc)
  case Nil
  with assms(1) show ?case by (subst split_inclusive.simps) simp
next
  case (Cons x b)
  have "\<not> starts_with pat (x # b @ pat @ t)"
    using Cons.prems starts_with_longer [of pat "x # b @ pat" t] by force
  moreover have "\<forall>i<length b. \<not> starts_with pat (drop i (b @ pat))"
    using Cons.prems by force
  ultimately show ?case
    using Cons.IH [of "acc @ [x]"] by (subst split_inclusive.simps) simp
qed

lemma split_inclusive_Nil [simp]: "split_inclusive pat [] [] = []"
  by (subst split_inclusive.simps) simp

lemma split_inclusive_none:
  "\<forall>i<length s. \<not> starts_with pat (drop i s) \<Longrightarrow> split_inclusive pat acc s = (if acc @ s = [] then [] else [acc @ s])"
proof (induction s arbitrary: acc)
  case (Cons x s)
  have "\<not> starts_with pat (x # s)" "\<forall>i<length s. \<not> starts_with pat (drop i s)"
    using Cons.prems by force+
  with Cons.IH [of "acc @ [x]"] show ?case by (subst split_inclusive.simps) simp
qed (subst split_inclusive.simps, simp)

lemma white_space_heads: "w \<in> set white_space \<Longrightarrow> \<exists>c r. w = c # r \<and> c \<noteq> CHR ''-''"
  by (auto simp: white_space_def char_of_eq_iff)

lemma white_space_lasts: "w \<in> set (map rev white_space) \<Longrightarrow> \<exists>c r. w = c # r \<and> c \<noteq> CHR ''-''"
  by (auto simp: white_space_def char_of_eq_iff)

lemma trim_any_none: "\<forall>w\<in>set ws. \<not> starts_with w s \<Longrightarrow> trim_any n ws s = s"
  by (cases n) (auto simp: find_None_iff2 split: option.splits dest!: find_Some_props)

lemma trim_dashes:
  assumes "s \<noteq> []" and "hd s = CHR ''-''" and "last s = CHR ''-''"
  shows "trim s = s" and "trim (CHR 0x0A # s) = s"
proof -
  obtain r where s: "s = CHR ''-'' # r" using assms(1,2) by (cases s) auto
  obtain q where q: "rev s = CHR ''-'' # q" using assms(1,3) by (metis hd_rev list.collapse rev_is_Nil_conv)
  have 1: "\<forall>w\<in>set white_space. \<not> starts_with w s"
    using white_space_heads by (fastforce simp: s)
  have 2: "\<forall>w\<in>set (map rev white_space). \<not> starts_with w (rev s)"
    using white_space_lasts by (fastforce simp: q)
  show "trim s = s"
    by (simp add: trim_def trim_start_def trim_end_def trim_any_none [OF 1] trim_any_none [OF 2])
  have "find (\<lambda>w. starts_with w (CHR 0x0A # s)) white_space = Some (CHR 0x0A # [])"
    by (simp add: white_space_def eq_char_of_iff char_of_eq_iff)
  then have "trim_start (CHR 0x0A # s) = s"
    by (simp add: trim_start_def trim_any_none [OF 1])
  then show "trim (CHR 0x0A # s) = s"
    by (simp add: trim_def trim_end_def trim_any_none [OF 2])
qed

lemma trim_newline: "trim [CHR 0x0A] = []"
  by (simp add: trim_def trim_start_def trim_end_def white_space_def char_of_eq_iff eq_char_of_iff)

end
