(* ===== verification/Config.thy ===== *)
theory Config
  imports Rust_Std
begin

text \<open>
  The configuration (\<open>config/mod.rs\<close>) and its validation (\<open>config/validate.rs\<close>): every
  struct is a record with the source's fields (prefixed by the struct's initials, since
  record fields share one name space), every enum a datatype, every \<open>Default\<close>
  implementation and serde default a constant, every custom deserializer a function on
  the string serde hands it.
\<close>

section \<open>Data\<close>

datatype StoreType = Memory | Redis

record StoreConfig =
  sc_store_type :: StoreType
  sc_redis_url :: "string option"

datatype DockerServiceMode = Swarm | Container

record Docker =
  dk_interval_secs :: "u64 option"
  dk_endpoint :: "string option"
  dk_enabled :: "bool option"
  dk_mode :: DockerServiceMode

record LetsEncrypt =
  le_email :: string
  le_enabled :: "bool option"
  le_staging :: "bool option"
  le_renew_interval_secs :: "u64 option"

record PathCfg =
  pa_lets_encrypt :: string

record RouteHeaderAdd =
  rha_name :: string
  rha_value :: string

record RouteHeaderRemove =
  rhr_name :: string

record RouteHeader =
  rh_add :: "RouteHeaderAdd list option"
  rh_remove :: "RouteHeaderRemove list option"

record RouteUpstream =
  ru_ip :: string
  ru_port :: u16
  ru_network :: "string option"
  ru_weight :: "i8 option"
  ru_sni :: "string option"
  ru_headers :: "RouteHeader option"

record RouteSslCertificate =
  rsc_self_signed_on_failure :: "bool option"

record RoutePathMatcher =
  rpm_patterns :: "string list"

record RouteMatcher =
  rm_path :: "RoutePathMatcher option"

record RoutePlugin =
  rp_name :: string
  rp_config :: "(string, json) hmap option"

record RouteSslPath =
  rsp_key :: string
  rsp_pem :: string

datatype ProtoVersion = V1_1 | V1_2 | V1_3

record RouteSsl =
  rs_path :: "RouteSslPath option"
  rs_min_proto :: ProtoVersion
  rs_max_proto :: ProtoVersion
  rs_self_signed_fallback :: bool

datatype RouteCacheType = Disk | MemCache

record RouteCache =
  rc_enabled :: "bool option"
  rc_cache_type :: RouteCacheType
  rc_expires_in_secs :: u64
  rc_stale_if_error_secs :: u32
  rc_stale_while_revalidate_secs :: u32
  rc_path :: string

record Route =
  ro_host :: string
  ro_cache :: "RouteCache option"
  ro_plugins :: "RoutePlugin list option"
  ro_ssl_certificate :: "RouteSslCertificate option"
  ro_ssl :: "RouteSsl option"
  ro_headers :: "RouteHeader option"
  ro_upstreams :: "RouteUpstream list"
  ro_match_with :: "RouteMatcher option"

datatype LogLevel = Debug | Info | Warn | Error | Trace

datatype LogRotation = Never | Daily | Hourly | Minutely

datatype LogFormat = Json | Pretty

record Logging =
  lg_enabled :: bool
  lg_level :: LogLevel
  lg_access_logs_enabled :: bool
  lg_error_logs_enabled :: bool
  lg_format :: LogFormat
  lg_path :: "string option"
  lg_rotation :: LogRotation

record AutoReload =
  ar_enabled :: "bool option"
  ar_interval_secs :: "u64 option"
  ar_paths :: "string list"

record ServerCfg =
  sv_https_address :: "string option"
  sv_http_address :: "string option"

record ConfigT =
  cf_service_name :: string
  cf_store :: StoreConfig
  cf_server :: ServerCfg
  cf_daemon :: bool
  cf_upgrade :: bool
  cf_worker_threads :: "usize option"
  cf_config_path :: "string option"
  cf_logging :: Logging
  cf_auto_reload :: AutoReload
  cf_docker :: Docker
  cf_lets_encrypt :: LetsEncrypt
  cf_paths :: PathCfg
  cf_routes :: "Route list"

section \<open>Defaults\<close>

definition default_StoreConfig :: StoreConfig where
  "default_StoreConfig = \<lparr>sc_store_type = Memory, sc_redis_url = None\<rparr>"

definition bool_true :: bool where
  "bool_true = True"

definition default_proto_version :: ProtoVersion where
  "default_proto_version = V1_3"

definition default_proto_version_min :: ProtoVersion where
  "default_proto_version_min = V1_2"

definition default_stale_secs :: u32 where
  "default_stale_secs = 60"

definition default_cache_expire_secs :: u64 where
  "default_cache_expire_secs = 3600"

definition default_cache_type :: RouteCacheType where
  "default_cache_type = MemCache"

definition default_cache_path :: string where
  "default_cache_path = ''/tmp''"

definition default_Docker :: Docker where
  "default_Docker = \<lparr>dk_interval_secs = Some 15,
     dk_endpoint = Some ''unix:///var/run/docker.sock'', dk_enabled = Some False, dk_mode = Container\<rparr>"

definition default_LetsEncrypt :: LetsEncrypt where
  "default_LetsEncrypt = \<lparr>le_email = ''contact@example.com'', le_enabled = Some False,
     le_staging = Some True, le_renew_interval_secs = Some 84600\<rparr>"

definition default_Path :: PathCfg where
  "default_Path = \<lparr>pa_lets_encrypt = ''/etc/proksi/letsencrypt''\<rparr>"

definition default_RouteUpstream :: RouteUpstream where
  "default_RouteUpstream = \<lparr>ru_ip = ''127.0.0.1'', ru_port = 80, ru_network = None,
     ru_weight = None, ru_sni = None, ru_headers = None\<rparr>"

definition default_AutoReload :: AutoReload where
  "default_AutoReload = \<lparr>ar_enabled = Some False, ar_interval_secs = Some 30, ar_paths = []\<rparr>"

definition default_Config :: ConfigT where
  "default_Config = \<lparr>
     cf_service_name = ''proksi'',
     cf_store = default_StoreConfig,
     cf_server = \<lparr>sv_https_address = Some ''0.0.0.0:443'', sv_http_address = Some ''0.0.0.0:80''\<rparr>,
     cf_daemon = False,
     cf_upgrade = False,
     cf_worker_threads = Some 2,
     cf_config_path = Some ''/etc/proksi/config'',
     cf_logging = \<lparr>lg_enabled = True, lg_level = Info, lg_access_logs_enabled = True,
       lg_error_logs_enabled = True, lg_format = Json, lg_path = None, lg_rotation = Never\<rparr>,
     cf_auto_reload = default_AutoReload,
     cf_docker = default_Docker,
     cf_lets_encrypt = default_LetsEncrypt,
     cf_paths = default_Path,
     cf_routes = []\<rparr>"

definition create_minimal_default_config :: ConfigT where
  "create_minimal_default_config =
     default_Config\<lparr>cf_lets_encrypt := (cf_lets_encrypt default_Config)\<lparr>le_enabled := Some False\<rparr>\<rparr>"

lemmas config_defaults =
  default_StoreConfig_def default_Docker_def default_LetsEncrypt_def default_Path_def
  default_RouteUpstream_def default_AutoReload_def default_Config_def
  create_minimal_default_config_def

section \<open>Deserializers\<close>

definition log_level_deser :: "string \<Rightarrow> (string, LogLevel) res" where
  "log_level_deser s0 =
     (let s = to_lowercase s0 in
      if s = ''debug'' then Ok Debug
      else if s = ''info'' then Ok Info
      else if s = ''warn'' then Ok Warn
      else if s = ''error'' then Ok Error
      else if s = ''trace'' then Ok Trace
      else Err ''expected one of DEBUG, INFO, WARN, ERROR, TRACE'')"

definition docker_mode_deser :: "string \<Rightarrow> (string, DockerServiceMode) res" where
  "docker_mode_deser s0 =
     (let s = to_lowercase s0 in
      if s = ''swarm'' then Ok Swarm
      else if s = ''container'' then Ok Container
      else Err ''expected one of: Swarm, Container'')"

definition log_format_deser :: "string \<Rightarrow> (string, LogFormat) res" where
  "log_format_deser s0 =
     (let s = to_lowercase s0 in
      if s = ''json'' then Ok Json
      else if s = ''pretty'' then Ok Pretty
      else Err ''expected one of: json, pretty'')"

definition log_rotation_deser :: "string \<Rightarrow> (string, LogRotation) res" where
  "log_rotation_deser s0 =
     (let s = to_lowercase s0 in
      if s = ''daily'' then Ok Daily
      else if s = ''hourly'' then Ok Hourly
      else if s = ''minutely'' then Ok Minutely
      else if s = ''never'' then Ok Never
      else Err ''expected one of: daily, hourly, minutely, never'')"

definition proto_version_deser :: "string \<Rightarrow> (string, ProtoVersion) res" where
  "proto_version_deser s0 =
     (let s = to_lowercase s0 in
      if s = ''v1.1'' then Ok V1_1
      else if s = ''v1.2'' then Ok V1_2
      else if s = ''v1.3'' then Ok V1_3
      else Err ''expected one of: v1.1, v1.2, v1.3'')"

definition deserialize_cache_type :: "string \<Rightarrow> (string, RouteCacheType) res" where
  "deserialize_cache_type s0 =
     (let s = to_lowercase s0 in
      if s = ''disk'' then Ok Disk
      else if s = ''memcache'' then Ok MemCache
      else Err ''expected one of: disk, memcache'')"

definition store_type_deser :: "string \<Rightarrow> (string, StoreType) res" where
  "store_type_deser s0 =
     (let s = to_lowercase s0 in
      if s = ''memory'' then Ok Memory
      else if s = ''redis'' then Ok Redis
      else Err ''expected one of: memory, redis'')"

section \<open>Validation\<close>

definition upstream_ip_error :: "nat \<Rightarrow> nat \<Rightarrow> string" where
  "upstream_ip_error i j =
     ''routes'' @ show_nat i @ ''.upstreams'' @ show_nat j @ ''.id cannot be empty''"

definition upstream_port_error :: "nat \<Rightarrow> nat \<Rightarrow> string" where
  "upstream_port_error i j =
     ''routes'' @ show_nat i @ ''.upstreams'' @ show_nat j @ ''.port must be greater than 0''"

fun check_upstreams :: "nat \<Rightarrow> nat \<Rightarrow> RouteUpstream list \<Rightarrow> (string, unit) res" where
  "check_upstreams i j [] = Ok ()"
| "check_upstreams i j (u # us) =
     (if ru_ip u = [] then Err (upstream_ip_error i j)
      else if ru_port u = 0 then Err (upstream_port_error i j)
      else check_upstreams i (Suc j) us)"

fun check_routes :: "nat \<Rightarrow> Route list \<Rightarrow> (string, unit) res" where
  "check_routes i [] = Ok ()"
| "check_routes i (r # rs) =
     res_bind (check_upstreams i 0 (ro_upstreams r)) (\<lambda>_. check_routes (Suc i) rs)"

definition check_config :: "ConfigT \<Rightarrow> (string, unit) res" where
  "check_config c =
     (if is_some_and (\<lambda>v. v = 0) (cf_worker_threads c)
      then Err ''Worker threads must be greater than 0''
      else case dk_interval_secs (cf_docker c) of
        None \<Rightarrow> Panic ''called `Option::unwrap()` on a `None` value''
      | Some n \<Rightarrow>
         if n = 0 then Err ''docker.interval_secs must be greater than 0''
         else if unwrap_or False (le_enabled (cf_lets_encrypt c)) \<and>
             (str_contains ''@example'' (le_email (cf_lets_encrypt c)) \<or>
              le_email (cf_lets_encrypt c) = [])
         then Err ''lets_encrypt.email cannot be empty or an email from @example.com (the default value)''
         else if pa_lets_encrypt (cf_paths c) = []
         then Err ''paths.lets_encrypt cannot be empty''
         else check_routes 0 (cf_routes c))"

text \<open>What an accepted configuration promises, stated without the order of the checks.\<close>

definition upstream_ok :: "RouteUpstream \<Rightarrow> bool" where
  "upstream_ok u \<longleftrightarrow> ru_ip u \<noteq> [] \<and> ru_port u \<noteq> 0"

definition email_ok :: "LetsEncrypt \<Rightarrow> bool" where
  "email_ok le \<longleftrightarrow> (le_enabled le = Some True \<longrightarrow>
     le_email le \<noteq> [] \<and> (\<forall>a b. le_email le \<noteq> a @ ''@example'' @ b))"

definition config_ok :: "ConfigT \<Rightarrow> bool" where
  "config_ok c \<longleftrightarrow>
     cf_worker_threads c \<noteq> Some 0 \<and>
     (\<exists>n. dk_interval_secs (cf_docker c) = Some n \<and> n \<noteq> 0) \<and>
     email_ok (cf_lets_encrypt c) \<and>
     pa_lets_encrypt (cf_paths c) \<noteq> [] \<and>
     (\<forall>r\<in>set (cf_routes c). \<forall>u\<in>set (ro_upstreams r). upstream_ok u)"

subsection \<open>Lemmas\<close>

lemma check_upstreams_Ok:
  "check_upstreams i j us = Ok () \<longleftrightarrow> (\<forall>u\<in>set us. upstream_ok u)"
  by (induction us arbitrary: j) (auto simp: upstream_ok_def)

lemma check_upstreams_no_panic: "check_upstreams i j us \<noteq> Panic m"
  by (induction us arbitrary: j) auto

lemma check_routes_Ok:
  "check_routes i rs = Ok () \<longleftrightarrow> (\<forall>r\<in>set rs. \<forall>u\<in>set (ro_upstreams r). upstream_ok u)"
  by (induction rs arbitrary: i) (auto simp: res_bind_Ok_iff check_upstreams_Ok)

lemma check_routes_no_panic: "check_routes i rs \<noteq> Panic m"
  by (induction rs arbitrary: i) (auto simp: res_bind_Panic_iff check_upstreams_no_panic)

lemma email_check:
  "(unwrap_or False (le_enabled le) \<and> (str_contains ''@example'' (le_email le) \<or> le_email le = []))
   \<longleftrightarrow> \<not> email_ok le"
  by (cases "le_enabled le") (auto simp: email_ok_def str_contains_iff)

text \<open>The first offending upstream is the one that is reported.\<close>

lemma check_upstreams_Err:
  "check_upstreams i j us = Err e \<longleftrightarrow>
   (\<exists>k<length us. (\<forall>k'<k. upstream_ok (us ! k')) \<and> \<not> upstream_ok (us ! k) \<and>
      e = (if ru_ip (us ! k) = [] then upstream_ip_error i (j + k) else upstream_port_error i (j + k)))"
proof (induction us arbitrary: j)
  case (Cons u us)
  show ?case
  proof (cases "upstream_ok u")
    case True
    then have "check_upstreams i j (u # us) = check_upstreams i (Suc j) us"
      by (simp add: upstream_ok_def)
    with True show ?thesis
      by (simp add: Cons.IH Ex_less_Suc2 All_less_Suc2)
  next
    case False
    then show ?thesis
      by (auto simp: upstream_ok_def Ex_less_Suc2 All_less_Suc2)
  qed
qed simp

lemma check_routes_Err:
  "check_routes i rs = Err e \<longleftrightarrow>
   (\<exists>k<length rs. check_routes i (take k rs) = Ok () \<and>
      check_upstreams (i + k) 0 (ro_upstreams (rs ! k)) = Err e)"
proof (induction rs arbitrary: i)
  case (Cons r rs)
  then show ?case
    by (cases "check_upstreams i 0 (ro_upstreams r)")
      (auto simp: Ex_less_Suc2 check_upstreams_no_panic)
qed simp

lemma check_config_Ok: "check_config c = Ok () \<longleftrightarrow> config_ok c"
  unfolding check_config_def config_ok_def
  by (auto simp: email_check check_routes_Ok is_some_and_def split: option.splits)

section \<open>Properties\<close>

text \<open>
  C23. \<open>check_config\<close> accepts exactly the configurations whose worker count and Docker
  interval are not zero, whose ACME e-mail is usable when ACME is on, whose certificate
  directory is named and whose routes only have upstreams with an address and a port.
\<close>

theorem check_config_accepts: "check_config c = Ok () \<longleftrightarrow> config_ok c"
  by (rule check_config_Ok)

text \<open>
  When everything but the routes is in order, \<open>check_config\<close> fails exactly when some
  upstream is unusable, and the error names the route and upstream indices of the first
  one (in the order of the configuration file) and which of its two fields is wrong.
\<close>

theorem check_config_first_bad_upstream:
  assumes "config_ok (c\<lparr>cf_routes := []\<rparr>)"
  shows "check_config c = Err e \<longleftrightarrow>
    (\<exists>i<length (cf_routes c). \<exists>j<length (ro_upstreams (cf_routes c ! i)).
       let u = ro_upstreams (cf_routes c ! i) ! j in
       (\<forall>r\<in>set (take i (cf_routes c)). \<forall>v\<in>set (ro_upstreams r). upstream_ok v) \<and>
       (\<forall>j'<j. upstream_ok (ro_upstreams (cf_routes c ! i) ! j')) \<and>
       \<not> upstream_ok u \<and>
       e = (if ru_ip u = [] then upstream_ip_error i j else upstream_port_error i j))"
proof -
  have "check_config c = check_routes 0 (cf_routes c)"
    using assms unfolding check_config_def config_ok_def
    by (auto simp: email_check is_some_and_def split: option.splits)
  then show ?thesis
    by (simp add: check_routes_Err check_routes_Ok check_upstreams_Err Let_def) blast
qed

definition example_bad_config :: ConfigT where
  "example_bad_config = default_Config\<lparr>cf_routes := [
     \<lparr>ro_host = ''a.com'', ro_cache = None, ro_plugins = None, ro_ssl_certificate = None,
      ro_ssl = None, ro_headers = None,
      ro_upstreams = [default_RouteUpstream, default_RouteUpstream\<lparr>ru_port := 0\<rparr>],
      ro_match_with = None\<rparr>]\<rparr>"

lemma example_bad_config_rest_ok: "config_ok (example_bad_config\<lparr>cf_routes := []\<rparr>)"
  by (simp add: example_bad_config_def config_ok_def email_ok_def config_defaults)

theorem check_config_first_bad_upstream_witness:
  "config_ok (example_bad_config\<lparr>cf_routes := []\<rparr>) \<and>
   check_config example_bad_config = Err (upstream_port_error 0 1)"
  using check_config_first_bad_upstream
      [OF example_bad_config_rest_ok, of "upstream_port_error 0 1"] example_bad_config_rest_ok
  by (simp add: example_bad_config_def upstream_ok_def config_defaults Let_def Ex_less_Suc2
      All_less_Suc2)

end
