(* ===== verification/Config_Load.thy ===== *)
theory Config_Load
  imports Config
begin

text \<open>
  Loading the configuration (\<open>load\<close>, \<open>load_from_path\<close> of \<open>config/mod.rs\<close>). The figment
  library merges providers and extracts a \<open>Config\<close>; it is the parameter \<open>extract\<close>, a
  function of the list of providers in merge order. Which files exist is the file
  system's business: the parameters \<open>is_file\<close> and \<open>exists\<close>.
\<close>

section \<open>Providers\<close>

datatype provider =
    ConfigDefaults
  | Serialized ConfigT
  | YamlFile string
  | HclFile string
  | EnvPrefixed string string

type_synonym figment = "provider list \<Rightarrow> (string, ConfigT) res"

definition directory_files :: "string \<Rightarrow> string list" where
  "directory_files p = [p @ ''/proksi.yml'', p @ ''/proksi.yaml'', p @ ''/proksi.hcl'']"

definition directory_providers :: "string \<Rightarrow> provider list" where
  "directory_providers p =
     [YamlFile (p @ ''/proksi.yml''), YamlFile (p @ ''/proksi.yaml''), HclFile (p @ ''/proksi.hcl'')]"

definition file_providers :: "string \<Rightarrow> provider list" where
  "file_providers p =
     (case path_extension p of
        Some e \<Rightarrow>
          if e = ''yml'' \<or> e = ''yaml'' then [YamlFile p]
          else if e = ''hcl'' then [HclFile p]
          else [YamlFile p, HclFile p]
      | None \<Rightarrow> [YamlFile p, HclFile p])"

definition source_providers ::
  "(string \<Rightarrow> bool) \<Rightarrow> (string \<Rightarrow> bool) \<Rightarrow> string \<Rightarrow> bool \<Rightarrow> provider list" where
  "source_providers is_file exists config_path use_minimal_default =
     (if is_file config_path then file_providers config_path
      else if \<exists>f\<in>set (directory_files config_path). exists f
      then directory_providers config_path
      else if use_minimal_default then [Serialized create_minimal_default_config]
      else directory_providers config_path)"

definition load_from_path ::
  "(string \<Rightarrow> bool) \<Rightarrow> (string \<Rightarrow> bool) \<Rightarrow> figment \<Rightarrow> string \<Rightarrow> ConfigT \<Rightarrow> bool
   \<Rightarrow> (string, ConfigT) res" where
  "load_from_path is_file exists extract config_path parsed_commands use_minimal_default =
     res_bind
       (extract ([ConfigDefaults, Serialized parsed_commands] @
                 source_providers is_file exists config_path use_minimal_default @
                 [EnvPrefixed ''PROKSI_'' ''__'']))
       (\<lambda>config. res_bind (check_config config) (\<lambda>_. Ok config))"

definition load ::
  "(string \<Rightarrow> bool) \<Rightarrow> (string \<Rightarrow> bool) \<Rightarrow> figment \<Rightarrow> ConfigT \<Rightarrow> string \<Rightarrow> (string, ConfigT) res" where
  "load is_file exists extract parsed_commands fallback =
     load_from_path is_file exists extract
       (case cf_config_path parsed_commands of Some p \<Rightarrow> p | None \<Rightarrow> fallback)
       parsed_commands (cf_config_path parsed_commands = None)"

section \<open>Properties\<close>

text \<open>
  C24. Whatever the files, the command line and the environment say, a configuration that
  \<open>load\<close> returns has passed the validation, so every promise of \<open>config_ok\<close> holds for the
  running server.
\<close>

theorem load_validates:
  "load is_file exists extract parsed fallback = Ok c \<Longrightarrow> config_ok c"
  unfolding load_def load_from_path_def
  by (auto simp: res_bind_Ok_iff simp flip: check_config_Ok)

text \<open>
  What figment documents of \<open>merge\<close>: with no matching environment variable, a provider
  that sets every key (a serialized \<open>Config\<close>) merged last decides the whole result.
\<close>

definition figment_last_wins :: "figment \<Rightarrow> bool" where
  "figment_last_wins extract \<longleftrightarrow>
     (\<forall>ps c. extract (ps @ [Serialized c, EnvPrefixed ''PROKSI_'' ''__'']) = Ok c)"

lemma minimal_default_ok: "config_ok create_minimal_default_config"
  by (simp add: config_ok_def email_ok_def config_defaults)

text \<open>
  Started with no \<open>-c\<close> option, no \<open>PROKSI_\<close> variable and no configuration file in the
  fallback directory, the server comes up: loading succeeds with the minimal
  configuration, in which ACME is disabled and there are no routes. (figment's merge
  order is the hypothesis.)
\<close>

theorem load_without_configuration:
  assumes "cf_config_path parsed = None"
    and "\<not> is_file fallback"
    and "\<forall>f\<in>set (directory_files fallback). \<not> exists f"
    and "figment_last_wins extract"
  shows "load is_file exists extract parsed fallback = Ok create_minimal_default_config \<and>
         le_enabled (cf_lets_encrypt create_minimal_default_config) = Some False \<and>
         cf_routes create_minimal_default_config = []"
proof -
  have "source_providers is_file exists fallback True = [Serialized create_minimal_default_config]"
    using assms(2,3) by (simp add: source_providers_def)
  moreover have "extract ([ConfigDefaults, Serialized parsed] @
      [Serialized create_minimal_default_config, EnvPrefixed ''PROKSI_'' ''__'']) =
      Ok create_minimal_default_config"
    using assms(4) unfolding figment_last_wins_def by blast
  moreover have "check_config create_minimal_default_config = Ok ()"
    using minimal_default_ok by (simp add: check_config_Ok)
  ultimately show ?thesis
    using assms(1) by (simp add: load_def load_from_path_def config_defaults)
qed

definition example_extract :: figment where
  "example_extract ps =
     (case rev ps of EnvPrefixed _ _ # Serialized c # _ \<Rightarrow> Ok c | _ \<Rightarrow> Ok default_Config)"

lemma example_extract_last_wins: "figment_last_wins example_extract"
  by (simp add: figment_last_wins_def example_extract_def)

theorem load_without_configuration_witness:
  "load (\<lambda>_. False) (\<lambda>_. False) example_extract (default_Config\<lparr>cf_config_path := None\<rparr>)
     ''/etc/proksi/configs'' = Ok create_minimal_default_config"
  using load_without_configuration [of "default_Config\<lparr>cf_config_path := None\<rparr>"
      "\<lambda>_. False" "''/etc/proksi/configs''" "\<lambda>_. False" example_extract]
    example_extract_last_wins
  by simp

theorem load_validates_witness:
  "load (\<lambda>_. False) (\<lambda>_. False) example_extract (default_Config\<lparr>cf_config_path := None\<rparr>)
     ''/etc/proksi/configs'' = Ok create_minimal_default_config \<and>
   config_ok create_minimal_default_config"
proof -
  have l: "load (\<lambda>_. False) (\<lambda>_. False) example_extract (default_Config\<lparr>cf_config_path := None\<rparr>)
     ''/etc/proksi/configs'' = Ok create_minimal_default_config"
    using minimal_default_ok [folded check_config_Ok]
    by (simp add: load_def load_from_path_def source_providers_def example_extract_def
        directory_files_def)
  show ?thesis using load_validates [OF l] l by simp
qed

end
