(* ===== verification/Route_Store.thy ===== *)
theory Route_Store
  imports Config
begin

text \<open>
  The route table and the cache-path table (\<open>stores/routes.rs\<close>, \<open>stores/mod.rs\<close>,
  \<open>stores/cache.rs\<close>). A load balancer is a pingora value behind an \<open>Arc\<close>: the type
  variable \<open>'lb\<close>. A \<open>PathTree\<close> is represented by the insertions that built it; searching it
  is a parameter of the router. The global tables are values passed along.
\<close>

type_synonym path_tree = "(string \<times> nat) list"

record 'lb RouteStoreContainer =
  co_load_balancer :: 'lb
  co_path_matcher :: "path_tree option"
  co_host_header_remove :: "string list"
  co_host_header_add :: "(string \<times> string) list"
  co_upstreams :: "RouteUpstream list"
  co_self_signed_certificate :: bool
  co_plugins :: "(string, RoutePlugin) hmap"
  co_cache :: "RouteCache option"

type_synonym 'lb RouteStore = "(string, 'lb RouteStoreContainer) hmap"

definition with_pattern :: "string list \<Rightarrow> path_tree option \<Rightarrow> path_tree option" where
  "with_pattern pattern m =
     (if pattern = [] then m else Some (zip pattern [0 ..< length pattern]))"

text \<open>\<open>RouteStoreContainer::new\<close>; the \<open>Default\<close> is the same around a balancer for 127.0.0.1:80.\<close>

definition container_new :: "'lb \<Rightarrow> 'lb RouteStoreContainer" where
  "container_new lb = \<lparr>co_load_balancer = lb, co_path_matcher = None, co_host_header_remove = [],
     co_host_header_add = [], co_upstreams = [], co_self_signed_certificate = False,
     co_plugins = [], co_cache = None\<rparr>"

section \<open>The route table\<close>

definition get_route_by_key :: "'lb RouteStore \<Rightarrow> string \<Rightarrow> 'lb RouteStoreContainer option" where
  "get_route_by_key st key = hm_get st key"

definition insert_route ::
  "string \<Rightarrow> 'lb RouteStoreContainer \<Rightarrow> 'lb RouteStore \<Rightarrow> 'lb RouteStore" where
  "insert_route key value st = hm_insert key value st"

definition get_routes :: "'lb RouteStore \<Rightarrow> (string \<times> 'lb RouteStoreContainer) list" where
  "get_routes st = st"

lemma get_insert_route [simp, hmap_simps]:
  "get_route_by_key (insert_route k v st) k' = (if k' = k then Some v else get_route_by_key st k')"
  by (simp add: get_route_by_key_def insert_route_def)

section \<open>The cache-path table\<close>

type_synonym cache_routing = "(string, string) hmap"

definition get_cache_routing_by_key :: "cache_routing \<Rightarrow> string \<Rightarrow> string option" where
  "get_cache_routing_by_key st key = hm_get st key"

definition insert_cache_routing :: "string \<Rightarrow> string \<Rightarrow> bool \<Rightarrow> cache_routing \<Rightarrow> cache_routing" where
  "insert_cache_routing key new_value should_override st =
     (if hm_get st key \<noteq> None
      then (if should_override then hm_insert key new_value st else st)
      else hm_insert key new_value st)"

lemma insert_cache_routing_keeps:
  "get_cache_routing_by_key st k = Some v \<Longrightarrow>
   get_cache_routing_by_key (insert_cache_routing k' v' False st) k = Some v"
  by (auto simp: get_cache_routing_by_key_def insert_cache_routing_def)

lemma insert_cache_routing_present:
  "get_cache_routing_by_key (insert_cache_routing k v b st) k \<noteq> None"
  by (auto simp: get_cache_routing_by_key_def insert_cache_routing_def)

end
