(* ===== verification/Certificates.thy ===== *)
theory Certificates
  imports Rust_Std
begin

text \<open>
  Certificates and their serialized form (\<open>stores/certificates.rs\<close>). Keys and X.509
  certificates are openssl values: the type variables \<open>'k\<close> and \<open>'x\<close>. What the code calls
  on them (PEM conversion, base64, serde) is the parameter record \<open>pki\<close>, and \<open>pki_laws\<close>
  states what those libraries document: decoding inverts encoding.
\<close>

record ('k, 'x) Certificate =
  ce_key :: 'k
  ce_leaf :: 'x
  ce_chain :: "'x option"

record SerializableCertificate =
  sr_key :: string
  sr_leaf :: string
  sr_chain :: "string option"

record ('k, 'x) pki =
  pk_b64_encode :: "string \<Rightarrow> string"
  pk_b64_decode :: "string \<Rightarrow> string option"
  pk_key_to_pem :: "'k \<Rightarrow> string option"
  pk_key_from_pem :: "string \<Rightarrow> 'k option"
  pk_x509_to_pem :: "'x \<Rightarrow> string option"
  pk_x509_from_pem :: "string \<Rightarrow> 'x option"
  pk_cert_to_json :: "SerializableCertificate \<Rightarrow> string option"
  pk_cert_from_json :: "string \<Rightarrow> SerializableCertificate option"
  pk_pair_to_json :: "string \<times> string \<Rightarrow> string option"
  pk_pair_from_json :: "string \<Rightarrow> (string \<times> string) option"

definition pki_laws :: "('k, 'x) pki \<Rightarrow> bool" where
  "pki_laws P \<longleftrightarrow>
     (\<forall>s. pk_b64_decode P (pk_b64_encode P s) = Some s) \<and>
     (\<forall>k s. pk_key_to_pem P k = Some s \<longrightarrow> pk_key_from_pem P s = Some k) \<and>
     (\<forall>x s. pk_x509_to_pem P x = Some s \<longrightarrow> pk_x509_from_pem P s = Some x) \<and>
     (\<forall>c s. pk_cert_to_json P c = Some s \<longrightarrow> pk_cert_from_json P s = Some c) \<and>
     (\<forall>c s. pk_pair_to_json P c = Some s \<longrightarrow> pk_pair_from_json P s = Some c)"

definition to_serializable ::
  "('k, 'x) pki \<Rightarrow> ('k, 'x) Certificate \<Rightarrow> (string, SerializableCertificate) res" where
  "to_serializable P c =
     res_bind (ok_or ''private_key_to_pem_pkcs8'' (pk_key_to_pem P (ce_key c))) (\<lambda>key.
     res_bind (ok_or ''to_pem'' (pk_x509_to_pem P (ce_leaf c))) (\<lambda>leaf.
     Ok \<lparr>sr_key = pk_b64_encode P key,
         sr_leaf = pk_b64_encode P leaf,
         sr_chain = map_option (\<lambda>x. pk_b64_encode P (unwrap_or [] (pk_x509_to_pem P x))) (ce_chain c)\<rparr>))"

definition from_serializable ::
  "('k, 'x) pki \<Rightarrow> SerializableCertificate \<Rightarrow> (string, ('k, 'x) Certificate) res" where
  "from_serializable P cert =
     res_bind (ok_or ''decode_block'' (pk_b64_decode P (sr_key cert))) (\<lambda>key_data.
     res_bind (ok_or ''decode_block'' (pk_b64_decode P (sr_leaf cert))) (\<lambda>leaf_data.
     res_bind (ok_or ''private_key_from_pem'' (pk_key_from_pem P key_data)) (\<lambda>key.
     res_bind (ok_or ''from_pem'' (pk_x509_from_pem P leaf_data)) (\<lambda>leaf.
     res_bind
       (case sr_chain cert of
          Some chain_b64 \<Rightarrow>
            res_bind (ok_or ''decode_block'' (pk_b64_decode P chain_b64)) (\<lambda>chain_data.
            res_bind (ok_or ''from_pem'' (pk_x509_from_pem P chain_data)) (\<lambda>x. Ok (Some x)))
        | None \<Rightarrow> Ok None) (\<lambda>chain.
     Ok \<lparr>ce_key = key, ce_leaf = leaf, ce_chain = chain\<rparr>)))))"

text \<open>The chain's PEM conversion must succeed: its failure is replaced by an empty string.\<close>

definition chain_encodable :: "('k, 'x) pki \<Rightarrow> ('k, 'x) Certificate \<Rightarrow> bool" where
  "chain_encodable P c \<longleftrightarrow> (\<forall>x. ce_chain c = Some x \<longrightarrow> pk_x509_to_pem P x \<noteq> None)"

lemma serializable_roundtrip:
  assumes "pki_laws P" and "chain_encodable P c" and "to_serializable P c = Ok s"
  shows "from_serializable P s = Ok c"
  using assms
  by (cases "pk_key_to_pem P (ce_key c)"; cases "pk_x509_to_pem P (ce_leaf c)"; cases "ce_chain c")
    (auto simp: pki_laws_def chain_encodable_def to_serializable_def from_serializable_def)

text \<open>A concrete library, in which every encoding is the identity up to a tag.\<close>

definition example_pki :: "(string, string) pki" where
  "example_pki = \<lparr>
     pk_b64_encode = (\<lambda>s. CHR ''b'' # s),
     pk_b64_decode = (\<lambda>s. case s of [] \<Rightarrow> None | c # r \<Rightarrow> if c = CHR ''b'' then Some r else None),
     pk_key_to_pem = Some, pk_key_from_pem = Some,
     pk_x509_to_pem = Some, pk_x509_from_pem = Some,
     pk_cert_to_json = (\<lambda>c. Some (show_nat (length (sr_key c)) @ '';'' @ show_nat (length (sr_leaf c)) @
        '';'' @ sr_key c @ sr_leaf c @ (case sr_chain c of None \<Rightarrow> [] | Some x \<Rightarrow> CHR ''S'' # x))),
     pk_cert_from_json = (\<lambda>s. case split_once (CHR '';'') s of None \<Rightarrow> None | Some (a, r) \<Rightarrow>
        (case split_once (CHR '';'') r of None \<Rightarrow> None | Some (b, t) \<Rightarrow>
        (case (parse_digits 0 a, parse_digits 0 b) of (Some m, Some n) \<Rightarrow>
           Some \<lparr>sr_key = take m t, sr_leaf = take n (drop m t),
             sr_chain = (case drop n (drop m t) of [] \<Rightarrow> None | _ # x \<Rightarrow> Some x)\<rparr>
         | _ \<Rightarrow> None))),
     pk_pair_to_json = (\<lambda>(a, b). Some (show_nat (length a) @ '';'' @ a @ b)),
     pk_pair_from_json = (\<lambda>s. case split_once (CHR '';'') s of None \<Rightarrow> None | Some (a, r) \<Rightarrow>
        (case parse_digits 0 a of Some m \<Rightarrow> Some (take m r, drop m r) | None \<Rightarrow> None))\<rparr>"

lemma semicolon_not_digit: "CHR '';'' \<notin> set (show_nat n)"
  by (rule show_nat_no_char) simp

lemma example_pki_laws: "pki_laws example_pki"
  unfolding pki_laws_def
  by (auto simp: example_pki_def split_once_append semicolon_not_digit parse_show_nat
      split: option.splits)

end
