(* ===== verification/Cert_Store.thy ===== *)
theory Cert_Store
  imports Certificates
begin

text \<open>
  The certificate and challenge stores (\<open>stores/store_trait.rs\<close>, \<open>memory_store.rs\<close>,
  \<open>redis_store.rs\<close>, \<open>global.rs\<close>). The trait is the locale \<open>cert_store\<close>; the memory store
  and the Redis store are its two interpretations. The Redis server is a service: the
  parameter record \<open>redis_api\<close> over an opaque server state \<open>'db\<close>, with its documented
  behaviour as \<open>redis_laws\<close>. A panic (\<open>pool.get().unwrap()\<close>) is a \<open>Panic\<close> result.
\<close>

section \<open>The trait\<close>

locale cert_store =
  fixes get_certificate :: "'s \<Rightarrow> string \<Rightarrow> 's \<times> (string, 'c option) res"
    and set_certificate :: "'s \<Rightarrow> string \<Rightarrow> 'c \<Rightarrow> 's \<times> (string, unit) res"
    and get_certificates :: "'s \<Rightarrow> 's \<times> (string, (string, 'c) hmap) res"
    and get_challenge :: "'s \<Rightarrow> string \<Rightarrow> 's \<times> (string, (string \<times> string) option) res"
    and set_challenge :: "'s \<Rightarrow> string \<Rightarrow> string \<Rightarrow> string \<Rightarrow> 's \<times> (string, unit) res"
    and certs_of :: "'s \<Rightarrow> string \<Rightarrow> 'c option"
    and challenges_of :: "'s \<Rightarrow> string \<Rightarrow> (string \<times> string) option"
    and inv :: "'s \<Rightarrow> bool"
  assumes get_certificate_spec: "inv s \<Longrightarrow> \<exists>s'. get_certificate s d = (s', Ok (certs_of s d)) \<and>
      inv s' \<and> certs_of s' = certs_of s \<and> challenges_of s' = challenges_of s"
    and set_certificate_spec: "inv s \<Longrightarrow> set_certificate s d c = (s', Ok ()) \<Longrightarrow>
      inv s' \<and> certs_of s' = (certs_of s)(d \<mapsto> c) \<and> challenges_of s' = challenges_of s"
    and get_certificates_spec: "inv s \<Longrightarrow> \<exists>s' m. get_certificates s = (s', Ok m) \<and>
      hm_get m = certs_of s \<and> inv s' \<and> certs_of s' = certs_of s \<and> challenges_of s' = challenges_of s"
    and get_challenge_spec: "inv s \<Longrightarrow> \<exists>s'. get_challenge s d = (s', Ok (challenges_of s d)) \<and>
      inv s' \<and> certs_of s' = certs_of s \<and> challenges_of s' = challenges_of s"
    and set_challenge_spec: "inv s \<Longrightarrow> set_challenge s d t p = (s', Ok ()) \<Longrightarrow>
      inv s' \<and> challenges_of s' = (challenges_of s)(d \<mapsto> (t, p)) \<and> certs_of s' = certs_of s"
begin

lemma get_after_set:
  assumes "inv s" and "set_certificate s d c = (s', Ok ())"
  shows "snd (get_certificate s' d) = Ok (Some c)"
    and "d' \<noteq> d \<Longrightarrow> snd (get_certificate s' d') = snd (get_certificate s d')"
    and "snd (get_challenge s' d') = snd (get_challenge s d')"
proof -
  from set_certificate_spec [OF assms]
  have s': "inv s'" "certs_of s' = (certs_of s)(d \<mapsto> c)" "challenges_of s' = challenges_of s"
    by auto
  show "snd (get_certificate s' d) = Ok (Some c)"
    using get_certificate_spec [OF s'(1), of d] s'(2) by auto
  show "d' \<noteq> d \<Longrightarrow> snd (get_certificate s' d') = snd (get_certificate s d')"
    using get_certificate_spec [OF s'(1), of d'] get_certificate_spec [OF assms(1), of d'] s'(2)
    by auto
  show "snd (get_challenge s' d') = snd (get_challenge s d')"
    using get_challenge_spec [OF s'(1), of d'] get_challenge_spec [OF assms(1), of d'] s'(3)
    by auto
qed

lemma challenge_after_set:
  assumes "inv s" and "set_challenge s d t p = (s', Ok ())"
  shows "snd (get_challenge s' d) = Ok (Some (t, p))"
    and "d' \<noteq> d \<Longrightarrow> snd (get_challenge s' d') = snd (get_challenge s d')"
    and "snd (get_certificate s' d') = snd (get_certificate s d')"
proof -
  from set_challenge_spec [OF assms]
  have s': "inv s'" "challenges_of s' = (challenges_of s)(d \<mapsto> (t, p))" "certs_of s' = certs_of s"
    by auto
  show "snd (get_challenge s' d) = Ok (Some (t, p))"
    using get_challenge_spec [OF s'(1), of d] s'(2) by auto
  show "d' \<noteq> d \<Longrightarrow> snd (get_challenge s' d') = snd (get_challenge s d')"
    using get_challenge_spec [OF s'(1), of d'] get_challenge_spec [OF assms(1), of d'] s'(2)
    by auto
  show "snd (get_certificate s' d') = snd (get_certificate s d')"
    using get_certificate_spec [OF s'(1), of d'] get_certificate_spec [OF assms(1), of d'] s'(3)
    by auto
qed

text \<open>The bulk read lists exactly the domains a single read would find.\<close>

lemma listed_iff_found:
  assumes "inv s" and "get_certificates s = (s', Ok m)"
  shows "hm_contains m d \<longleftrightarrow> (\<exists>c. snd (get_certificate s d) = Ok (Some c))"
  using get_certificates_spec [OF assms(1)] get_certificate_spec [OF assms(1), of d] assms(2)
  by (auto simp: hm_contains_def)

end

section \<open>The memory store\<close>

record 'c MemoryStore =
  ms_certs :: "(string, 'c) hmap"
  ms_challenges :: "(string, string \<times> string) hmap"

definition memory_new :: "'c MemoryStore" where
  "memory_new = \<lparr>ms_certs = [], ms_challenges = []\<rparr>"

definition memory_get_certificate ::
  "'c MemoryStore \<Rightarrow> string \<Rightarrow> 'c MemoryStore \<times> (string, 'c option) res" where
  "memory_get_certificate s host = (s, Ok (hm_get (ms_certs s) host))"

definition memory_set_certificate ::
  "'c MemoryStore \<Rightarrow> string \<Rightarrow> 'c \<Rightarrow> 'c MemoryStore \<times> (string, unit) res" where
  "memory_set_certificate s host cert = (s\<lparr>ms_certs := hm_insert host cert (ms_certs s)\<rparr>, Ok ())"

definition memory_get_certificates ::
  "'c MemoryStore \<Rightarrow> 'c MemoryStore \<times> (string, (string, 'c) hmap) res" where
  "memory_get_certificates s = (s, Ok (ms_certs s))"

definition memory_get_challenge ::
  "'c MemoryStore \<Rightarrow> string \<Rightarrow> 'c MemoryStore \<times> (string, (string \<times> string) option) res" where
  "memory_get_challenge s domain = (s, Ok (hm_get (ms_challenges s) domain))"

definition memory_set_challenge ::
  "'c MemoryStore \<Rightarrow> string \<Rightarrow> string \<Rightarrow> string \<Rightarrow> 'c MemoryStore \<times> (string, unit) res" where
  "memory_set_challenge s domain token proof1 =
     (s\<lparr>ms_challenges := hm_insert domain (token, proof1) (ms_challenges s)\<rparr>, Ok ())"

lemmas memory_store_defs =
  memory_get_certificate_def memory_set_certificate_def memory_get_certificates_def
  memory_get_challenge_def memory_set_challenge_def

interpretation memory: cert_store
  memory_get_certificate memory_set_certificate memory_get_certificates
  memory_get_challenge memory_set_challenge
  "\<lambda>s. hm_get (ms_certs s)" "\<lambda>s. hm_get (ms_challenges s)" "\<lambda>_. True"
  by unfold_locales (auto simp: memory_store_defs fun_eq_iff)

section \<open>The Redis store\<close>

definition CHALLENGE_TTL_SECONDS :: u64 where
  "CHALLENGE_TTL_SECONDS = 300"

record 'db redis_api =
  ra_pool_get :: "'db \<Rightarrow> bool"
  ra_get :: "'db \<Rightarrow> string \<Rightarrow> (string, string option) res"
  ra_set :: "'db \<Rightarrow> string \<Rightarrow> string \<Rightarrow> (string, 'db) res"
  ra_set_ex :: "'db \<Rightarrow> string \<Rightarrow> string \<Rightarrow> u64 \<Rightarrow> (string, 'db) res"
  ra_keys :: "'db \<Rightarrow> string \<Rightarrow> (string, string list) res"

text \<open>
  The store as one replica sees it: the connection pool (the API it gives access to and the
  server's contents at this moment), and the two in-process caches.
\<close>

record ('k, 'x, 'db) RedisStore =
  re_pool :: "'db redis_api"
  re_db :: 'db
  re_cache :: "(string, ('k, 'x) Certificate) hmap"
  re_challenge_cache :: "(string, string \<times> string) hmap"

definition certificate_key :: "string \<Rightarrow> string" where
  "certificate_key domain = ''proksi:cert:'' @ domain"

definition challenge_key :: "string \<Rightarrow> string" where
  "challenge_key domain = ''proksi:challenge:'' @ domain"

definition unwrap_none_panic :: string where
  "unwrap_none_panic = ''called `Result::unwrap()` on an `Err` value''"

definition parse_certificate :: "('k, 'x) pki \<Rightarrow> string \<Rightarrow> ('k, 'x) Certificate option" where
  "parse_certificate P data =
     (case pk_cert_from_json P data of
        Some s \<Rightarrow> res_ok (from_serializable P s)
      | None \<Rightarrow> None)"

definition load_from_redis ::
  "('k, 'x) pki \<Rightarrow> ('k, 'x, 'db) RedisStore \<Rightarrow> string \<Rightarrow> (string, ('k, 'x) Certificate option) res" where
  "load_from_redis P s domain =
     (if \<not> ra_pool_get (re_pool s) (re_db s) then Panic unwrap_none_panic
      else case ra_get (re_pool s) (re_db s) (certificate_key domain) of
             Ok (Some data) \<Rightarrow> Ok (parse_certificate P data)
           | Ok None \<Rightarrow> Ok None
           | Err _ \<Rightarrow> Ok None
           | Panic m \<Rightarrow> Panic m)"

definition load_challenge_from_redis ::
  "('k, 'x) pki \<Rightarrow> ('k, 'x, 'db) RedisStore \<Rightarrow> string \<Rightarrow> (string, (string \<times> string) option) res" where
  "load_challenge_from_redis P s domain =
     (if \<not> ra_pool_get (re_pool s) (re_db s) then Panic unwrap_none_panic
      else case ra_get (re_pool s) (re_db s) (challenge_key domain) of
             Ok (Some data) \<Rightarrow> Ok (pk_pair_from_json P data)
           | Ok None \<Rightarrow> Ok None
           | Err _ \<Rightarrow> Ok None
           | Panic m \<Rightarrow> Panic m)"

definition redis_get_certificate ::
  "('k, 'x) pki \<Rightarrow> ('k, 'x, 'db) RedisStore \<Rightarrow> string
   \<Rightarrow> ('k, 'x, 'db) RedisStore \<times> (string, ('k, 'x) Certificate option) res" where
  "redis_get_certificate P s domain =
     (case hm_get (re_cache s) domain of
        Some cert \<Rightarrow> (s, Ok (Some cert))
      | None \<Rightarrow>
         (case load_from_redis P s domain of
            Ok (Some cert) \<Rightarrow> (s\<lparr>re_cache := hm_insert domain cert (re_cache s)\<rparr>, Ok (Some cert))
          | r \<Rightarrow> (s, r)))"

definition redis_set_certificate ::
  "('k, 'x) pki \<Rightarrow> ('k, 'x, 'db) RedisStore \<Rightarrow> string \<Rightarrow> ('k, 'x) Certificate
   \<Rightarrow> ('k, 'x, 'db) RedisStore \<times> (string, unit) res" where
  "redis_set_certificate P s domain cert =
     (if \<not> ra_pool_get (re_pool s) (re_db s) then (s, Err ''pool'')
      else case to_serializable P cert of
        Err e \<Rightarrow> (s, Err e)
      | Panic m \<Rightarrow> (s, Panic m)
      | Ok ser \<Rightarrow>
         (case pk_cert_to_json P ser of
            None \<Rightarrow> (s, Err ''to_string'')
          | Some cert_json \<Rightarrow>
             (case ra_set (re_pool s) (re_db s) (certificate_key domain) cert_json of
                Err e \<Rightarrow> (s, Err e)
              | Panic m \<Rightarrow> (s, Panic m)
              | Ok db \<Rightarrow>
                 (s\<lparr>re_db := db, re_cache := hm_insert domain cert (re_cache s)\<rparr>, Ok ()))))"

text \<open>The loop of \<open>get_certificates\<close> over the keys the server lists; \<open>temp\<close> is \<open>TEMP_MAP\<close>.\<close>

fun collect_certificates ::
  "('k, 'x) pki \<Rightarrow> ('k, 'x, 'db) RedisStore \<Rightarrow> (string, ('k, 'x) Certificate) hmap \<Rightarrow> string list
   \<Rightarrow> ('k, 'x, 'db) RedisStore \<times> (string, ('k, 'x) Certificate) hmap" where
  "collect_certificates P s temp [] = (s, temp)"
| "collect_certificates P s temp (key # keys) =
     (case strip_prefix ''proksi:cert:'' key of
        None \<Rightarrow> collect_certificates P s temp keys
      | Some domain \<Rightarrow>
         if hm_contains temp domain then collect_certificates P s temp keys
         else case ra_get (re_pool s) (re_db s) key of
                Ok (Some data) \<Rightarrow>
                  (case parse_certificate P data of
                     Some cert \<Rightarrow>
                       collect_certificates P (s\<lparr>re_cache := hm_insert domain cert (re_cache s)\<rparr>)
                         (hm_insert domain cert temp) keys
                   | None \<Rightarrow> collect_certificates P s temp keys)
              | _ \<Rightarrow> collect_certificates P s temp keys)"

definition redis_get_certificates ::
  "('k, 'x) pki \<Rightarrow> ('k, 'x, 'db) RedisStore
   \<Rightarrow> ('k, 'x, 'db) RedisStore \<times> (string, (string, ('k, 'x) Certificate) hmap) res" where
  "redis_get_certificates P s =
     (if \<not> ra_pool_get (re_pool s) (re_db s) then (s, Panic unwrap_none_panic)
      else case ra_keys (re_pool s) (re_db s) ''proksi:cert:*'' of
             Ok keys \<Rightarrow>
               (let (s', temp) = collect_certificates P s (re_cache s) keys in (s', Ok temp))
           | _ \<Rightarrow> (s, Ok (re_cache s)))"

definition redis_get_challenge ::
  "('k, 'x) pki \<Rightarrow> ('k, 'x, 'db) RedisStore \<Rightarrow> string
   \<Rightarrow> ('k, 'x, 'db) RedisStore \<times> (string, (string \<times> string) option) res" where
  "redis_get_challenge P s domain =
     (case hm_get (re_challenge_cache s) domain of
        Some challenge \<Rightarrow> (s, Ok (Some challenge))
      | None \<Rightarrow>
         (case load_challenge_from_redis P s domain of
            Ok (Some challenge) \<Rightarrow>
              (s\<lparr>re_challenge_cache := hm_insert domain challenge (re_challenge_cache s)\<rparr>,
               Ok (Some challenge))
          | r \<Rightarrow> (s, r)))"

definition redis_set_challenge ::
  "('k, 'x) pki \<Rightarrow> ('k, 'x, 'db) RedisStore \<Rightarrow> string \<Rightarrow> string \<Rightarrow> string
   \<Rightarrow> ('k, 'x, 'db) RedisStore \<times> (string, unit) res" where
  "redis_set_challenge P s domain token proof1 =
     (if \<not> ra_pool_get (re_pool s) (re_db s) then (s, Err ''pool'')
      else case pk_pair_to_json P (token, proof1) of
             None \<Rightarrow> (s, Err ''to_string'')
           | Some challenge_json \<Rightarrow>
              (case ra_set_ex (re_pool s) (re_db s) (challenge_key domain) challenge_json
                      CHALLENGE_TTL_SECONDS of
                 Err e \<Rightarrow> (s, Err e)
               | Panic m \<Rightarrow> (s, Panic m)
               | Ok db \<Rightarrow>
                  (s\<lparr>re_db := db,
                     re_challenge_cache := hm_insert domain (token, proof1) (re_challenge_cache s)\<rparr>,
                   Ok ())))"

subsection \<open>The server's documented behaviour\<close>

text \<open>
  The server as it behaves between two failures and within the lifetime of a key: reads work while a
  connection can be had, a write that succeeds is read back, a write that fails has no effect, and the
  expiry of a challenge after \<open>CHALLENGE_TTL_SECONDS\<close> is not reached.
\<close>

definition redis_reads :: "'db redis_api \<Rightarrow> 'db \<Rightarrow> string \<Rightarrow> string option" where
  "redis_reads R db k = (case ra_get R db k of Ok v \<Rightarrow> v | _ \<Rightarrow> None)"

definition redis_laws :: "'db redis_api \<Rightarrow> bool" where
  "redis_laws R \<longleftrightarrow> (\<forall>db. ra_pool_get R db \<longrightarrow>
     (\<forall>k. \<exists>v. ra_get R db k = Ok v) \<and>
     (\<forall>k v db'. ra_set R db k v = Ok db' \<longrightarrow>
        ra_pool_get R db' \<and> redis_reads R db' = (redis_reads R db)(k \<mapsto> v)) \<and>
     (\<forall>k v t db'. ra_set_ex R db k v t = Ok db' \<longrightarrow>
        ra_pool_get R db' \<and> redis_reads R db' = (redis_reads R db)(k \<mapsto> v)) \<and>
     (\<exists>ks. ra_keys R db ''proksi:cert:*'' = Ok ks \<and>
        set ks = {k. starts_with ''proksi:cert:'' k \<and> redis_reads R db k \<noteq> None}))"

definition redis_inv :: "('k, 'x) pki \<Rightarrow> ('k, 'x, 'db) RedisStore \<Rightarrow> bool" where
  "redis_inv P s \<longleftrightarrow> pki_laws P \<and> redis_laws (re_pool s) \<and> ra_pool_get (re_pool s) (re_db s)"

definition redis_certs_of ::
  "('k, 'x) pki \<Rightarrow> ('k, 'x, 'db) RedisStore \<Rightarrow> string \<Rightarrow> ('k, 'x) Certificate option" where
  "redis_certs_of P s d =
     (case hm_get (re_cache s) d of
        Some c \<Rightarrow> Some c
      | None \<Rightarrow> Option.bind (redis_reads (re_pool s) (re_db s) (certificate_key d)) (parse_certificate P))"

definition redis_challenges_of ::
  "('k, 'x) pki \<Rightarrow> ('k, 'x, 'db) RedisStore \<Rightarrow> string \<Rightarrow> (string \<times> string) option" where
  "redis_challenges_of P s d =
     (case hm_get (re_challenge_cache s) d of
        Some c \<Rightarrow> Some c
      | None \<Rightarrow> Option.bind (redis_reads (re_pool s) (re_db s) (challenge_key d)) (pk_pair_from_json P))"

subsection \<open>Key spaces\<close>

lemma certificate_key_inj [simp]: "certificate_key d = certificate_key d' \<longleftrightarrow> d = d'"
  by (simp add: certificate_key_def)

lemma challenge_key_inj [simp]: "challenge_key d = challenge_key d' \<longleftrightarrow> d = d'"
  by (simp add: challenge_key_def)

lemma keys_disjoint [simp]:
  "certificate_key d \<noteq> challenge_key d'"
  "challenge_key d' \<noteq> certificate_key d"
  by (simp_all add: certificate_key_def challenge_key_def)

lemma redis_readsD:
  assumes "redis_inv P s"
  shows "ra_get (re_pool s) (re_db s) k = Ok (redis_reads (re_pool s) (re_db s) k)"
proof -
  from assms obtain v where "ra_get (re_pool s) (re_db s) k = Ok v"
    unfolding redis_inv_def redis_laws_def by blast
  then show ?thesis by (simp add: redis_reads_def)
qed

lemma load_from_redis_eq:
  "redis_inv P s \<Longrightarrow> load_from_redis P s d =
     Ok (Option.bind (redis_reads (re_pool s) (re_db s) (certificate_key d)) (parse_certificate P))"
  by (auto simp: load_from_redis_def redis_readsD redis_inv_def split: option.splits)

lemma load_challenge_from_redis_eq:
  "redis_inv P s \<Longrightarrow> load_challenge_from_redis P s d =
     Ok (Option.bind (redis_reads (re_pool s) (re_db s) (challenge_key d)) (pk_pair_from_json P))"
  by (auto simp: load_challenge_from_redis_def redis_readsD redis_inv_def split: option.splits)

lemma redis_inv_update [simp]:
  "redis_inv P (s\<lparr>re_cache := c\<rparr>) = redis_inv P s"
  "redis_inv P (s\<lparr>re_challenge_cache := h\<rparr>) = redis_inv P s"
  by (simp_all add: redis_inv_def)

lemma redis_laws_setD:
  "redis_laws R \<Longrightarrow> ra_pool_get R db \<Longrightarrow> ra_set R db k v = Ok db' \<Longrightarrow>
   ra_pool_get R db' \<and> redis_reads R db' = (redis_reads R db)(k \<mapsto> v)"
  unfolding redis_laws_def by blast

lemma redis_laws_set_exD:
  "redis_laws R \<Longrightarrow> ra_pool_get R db \<Longrightarrow> ra_set_ex R db k v t = Ok db' \<Longrightarrow>
   ra_pool_get R db' \<and> redis_reads R db' = (redis_reads R db)(k \<mapsto> v)"
  unfolding redis_laws_def by blast

lemma redis_inv_set:
  "redis_inv P s \<Longrightarrow> ra_set (re_pool s) (re_db s) k v = Ok db \<Longrightarrow>
   redis_inv P (s\<lparr>re_db := db\<rparr>) \<and>
   redis_reads (re_pool s) db = (redis_reads (re_pool s) (re_db s))(k \<mapsto> v)"
  "redis_inv P s \<Longrightarrow> ra_set_ex (re_pool s) (re_db s) k v t = Ok db \<Longrightarrow>
   redis_inv P (s\<lparr>re_db := db\<rparr>) \<and>
   redis_reads (re_pool s) db = (redis_reads (re_pool s) (re_db s))(k \<mapsto> v)"
  unfolding redis_inv_def by (auto dest: redis_laws_setD redis_laws_set_exD)

lemma strip_certificate_key:
  "strip_prefix ''proksi:cert:'' key = Some d \<longleftrightarrow> key = certificate_key d"
  unfolding certificate_key_def using strip_prefix_append strip_prefix_SomeD by blast

lemma strip_certificate_key_self [simp]:
  "strip_prefix ''proksi:cert:'' (certificate_key d) = Some d"
  by (simp add: strip_certificate_key)

subsection \<open>Every operation against the abstract contents\<close>

lemma redis_get_certificate_spec:
  assumes "redis_inv P s"
  shows "\<exists>s'. redis_get_certificate P s d = (s', Ok (redis_certs_of P s d)) \<and> redis_inv P s' \<and>
    redis_certs_of P s' = redis_certs_of P s \<and> redis_challenges_of P s' = redis_challenges_of P s"
proof (cases "redis_certs_of P s d")
  case None
  then show ?thesis
    using assms by (auto simp: redis_get_certificate_def load_from_redis_eq redis_certs_of_def
        split: option.splits)
next
  case (Some c)
  then show ?thesis
    using assms
    by (cases "hm_get (re_cache s) d")
      (auto simp: redis_get_certificate_def load_from_redis_eq redis_certs_of_def
        redis_challenges_of_def fun_eq_iff split: option.splits)
qed

lemma redis_get_challenge_spec:
  assumes "redis_inv P s"
  shows "\<exists>s'. redis_get_challenge P s d = (s', Ok (redis_challenges_of P s d)) \<and> redis_inv P s' \<and>
    redis_certs_of P s' = redis_certs_of P s \<and> redis_challenges_of P s' = redis_challenges_of P s"
proof (cases "redis_challenges_of P s d")
  case None
  then show ?thesis
    using assms by (auto simp: redis_get_challenge_def load_challenge_from_redis_eq
        redis_challenges_of_def split: option.splits)
next
  case (Some c)
  then show ?thesis
    using assms
    by (cases "hm_get (re_challenge_cache s) d")
      (auto simp: redis_get_challenge_def load_challenge_from_redis_eq redis_certs_of_def
        redis_challenges_of_def fun_eq_iff split: option.splits)
qed

lemma redis_set_certificate_spec:
  assumes "redis_inv P s" and "redis_set_certificate P s d c = (s', Ok ())"
  shows "redis_inv P s' \<and> redis_certs_of P s' = (redis_certs_of P s)(d \<mapsto> c) \<and>
    redis_challenges_of P s' = redis_challenges_of P s"
proof -
  from assms(2) obtain j db where
    set: "ra_set (re_pool s) (re_db s) (certificate_key d) j = Ok db" and
    s': "s' = s\<lparr>re_db := db, re_cache := hm_insert d c (re_cache s)\<rparr>"
    by (auto simp: redis_set_certificate_def split: if_splits res.splits option.splits)
  note upd = redis_inv_set(1) [OF assms(1) set]
  have "redis_inv P s'" using upd by (simp add: s' redis_inv_def)
  moreover have "redis_certs_of P s' = (redis_certs_of P s)(d \<mapsto> c)"
    using upd by (auto simp: s' redis_certs_of_def fun_eq_iff split: option.splits)
  moreover have "redis_challenges_of P s' = redis_challenges_of P s"
    using upd by (auto simp: s' redis_challenges_of_def fun_eq_iff split: option.splits)
  ultimately show ?thesis by simp
qed

lemma redis_set_challenge_spec:
  assumes "redis_inv P s" and "redis_set_challenge P s d t p = (s', Ok ())"
  shows "redis_inv P s' \<and> redis_challenges_of P s' = (redis_challenges_of P s)(d \<mapsto> (t, p)) \<and>
    redis_certs_of P s' = redis_certs_of P s"
proof -
  from assms(2) obtain j db where
    set: "ra_set_ex (re_pool s) (re_db s) (challenge_key d) j CHALLENGE_TTL_SECONDS = Ok db" and
    s': "s' = s\<lparr>re_db := db, re_challenge_cache := hm_insert d (t, p) (re_challenge_cache s)\<rparr>"
    by (auto simp: redis_set_challenge_def split: if_splits res.splits option.splits)
  note upd = redis_inv_set(2) [OF assms(1) set]
  have "redis_inv P s'" using upd by (simp add: s' redis_inv_def)
  moreover have "redis_challenges_of P s' = (redis_challenges_of P s)(d \<mapsto> (t, p))"
    using upd by (auto simp: s' redis_challenges_of_def fun_eq_iff split: option.splits)
  moreover have "redis_certs_of P s' = redis_certs_of P s"
    using upd by (auto simp: s' redis_certs_of_def fun_eq_iff split: option.splits)
  ultimately show ?thesis by simp
qed

text \<open>The key loop adds the server's readable certificates that the cache lacks, to both maps.\<close>

definition collected ::
  "('k, 'x) pki \<Rightarrow> ('k, 'x, 'db) RedisStore \<Rightarrow> (string, ('k, 'x) Certificate) hmap \<Rightarrow> string list
   \<Rightarrow> string \<Rightarrow> ('k, 'x) Certificate option" where
  "collected P s temp keys d =
     (case hm_get temp d of Some c \<Rightarrow> Some c | None \<Rightarrow>
        if certificate_key d \<in> set keys
        then Option.bind (redis_reads (re_pool s) (re_db s) (certificate_key d)) (parse_certificate P)
        else None)"

lemma collect_certificates_spec:
  assumes "redis_inv P s" and "re_cache s = temp"
  shows "\<exists>t'. collect_certificates P s temp keys = (s\<lparr>re_cache := t'\<rparr>, t') \<and>
    hm_get t' = collected P s temp keys"
  using assms
proof (induction keys arbitrary: s temp)
  case Nil
  then show ?case by (auto simp: collected_def fun_eq_iff split: option.splits)
next
  case (Cons key keys)
  note key = strip_certificate_key [of key]
  note get = redis_readsD [OF Cons.prems(1), of key]
  note IH = Cons.IH [OF Cons.prems]
  let ?found = "Option.bind (redis_reads (re_pool s) (re_db s) key) (parse_certificate P)"
  consider (other) "\<forall>d. key \<noteq> certificate_key d"
    | (cached) d where "key = certificate_key d" "hm_contains temp d"
    | (unreadable) d where "key = certificate_key d" "\<not> hm_contains temp d" "?found = None"
    | (new) d cert where "key = certificate_key d" "\<not> hm_contains temp d" "?found = Some cert"
    by fastforce
  then show ?case
  proof cases
    case other
    then have "collected P s temp (key # keys) = collected P s temp keys"
      by (auto simp: collected_def fun_eq_iff split: option.splits)
    moreover have "strip_prefix ''proksi:cert:'' key = None" using other key by auto
    ultimately show ?thesis using IH by simp
  next
    case cached
    then have "collected P s temp (key # keys) = collected P s temp keys"
      by (auto simp: collected_def hm_contains_def fun_eq_iff split: option.splits)
    with IH cached show ?thesis by simp
  next
    case unreadable
    then have "collected P s temp (key # keys) = collected P s temp keys"
      by (auto simp: collected_def fun_eq_iff split: option.splits)
    with IH unreadable get show ?thesis
      by (auto simp: bind_eq_None_conv split: option.splits)
  next
    case new
    let ?s = "s\<lparr>re_cache := hm_insert d cert (re_cache s)\<rparr>"
    have "redis_inv P ?s" "re_cache ?s = hm_insert d cert temp"
      using Cons.prems by simp_all
    note IH' = Cons.IH [OF this]
    have "collected P s temp (key # keys) = collected P ?s (hm_insert d cert temp) keys"
      using new by (auto simp: collected_def hm_contains_def fun_eq_iff split: option.splits)
    moreover have "collect_certificates P s temp (key # keys) =
        collect_certificates P ?s (hm_insert d cert temp) keys"
      using new get by (auto simp: bind_eq_Some_conv)
    ultimately show ?thesis using IH' by simp
  qed
qed

lemma redis_get_certificates_spec:
  assumes "redis_inv P s"
  shows "\<exists>s' m. redis_get_certificates P s = (s', Ok m) \<and> hm_get m = redis_certs_of P s \<and>
    redis_inv P s' \<and> redis_certs_of P s' = redis_certs_of P s \<and>
    redis_challenges_of P s' = redis_challenges_of P s"
proof -
  from assms obtain ks where
    ks: "ra_keys (re_pool s) (re_db s) ''proksi:cert:*'' = Ok ks" and
    set: "set ks = {k. starts_with ''proksi:cert:'' k \<and> redis_reads (re_pool s) (re_db s) k \<noteq> None}"
    unfolding redis_inv_def redis_laws_def by blast
  from collect_certificates_spec [OF assms refl, of ks] obtain t where
    t: "collect_certificates P s (re_cache s) ks = (s\<lparr>re_cache := t\<rparr>, t)" and
    get: "hm_get t = collected P s (re_cache s) ks"
    by blast
  have same: "hm_get t = redis_certs_of P s"
    unfolding get
    by (auto simp: collected_def set redis_certs_of_def fun_eq_iff certificate_key_def
        split: option.splits)
  have "redis_get_certificates P s = (s\<lparr>re_cache := t\<rparr>, Ok t)"
    using assms ks t by (simp add: redis_get_certificates_def redis_inv_def)
  moreover have "redis_certs_of P (s\<lparr>re_cache := t\<rparr>) = redis_certs_of P s"
    using same by (auto simp: redis_certs_of_def fun_eq_iff split: option.splits)
  ultimately show ?thesis
    using same assms by (auto simp: redis_challenges_of_def fun_eq_iff split: option.splits)
qed

interpretation redis: cert_store
  "redis_get_certificate P" "redis_set_certificate P" "redis_get_certificates P"
  "redis_get_challenge P" "redis_set_challenge P"
  "redis_certs_of P" "redis_challenges_of P" "redis_inv P" for P
  by unfold_locales
    (fact redis_get_certificate_spec redis_set_certificate_spec redis_get_certificates_spec
      redis_get_challenge_spec redis_set_challenge_spec)+

section \<open>The global store cell\<close>

text \<open>\<open>OnceCell\<close>: the first \<open>init_store\<close> wins, \<open>get_store\<close> before it panics.\<close>

definition init_store :: "'st option \<Rightarrow> 'st \<Rightarrow> 'st option" where
  "init_store cell st = (case cell of None \<Rightarrow> Some st | Some old \<Rightarrow> Some old)"

definition get_store :: "'st option \<Rightarrow> (string, 'st) res" where
  "get_store cell = (case cell of Some st \<Rightarrow> Ok st | None \<Rightarrow> Panic ''Global store not initialized'')"

section \<open>A concrete server\<close>

definition example_redis :: "(string \<times> string) list redis_api" where
  "example_redis = \<lparr>
     ra_pool_get = (\<lambda>_. True),
     ra_get = (\<lambda>db k. Ok (map_of db k)),
     ra_set = (\<lambda>db k v. Ok (AList.update k v db)),
     ra_set_ex = (\<lambda>db k v t. Ok (AList.update k v db)),
     ra_keys = (\<lambda>db p. Ok (filter (starts_with ''proksi:cert:'') (map fst db)))\<rparr>"

definition example_replica :: "(string, string, (string \<times> string) list) RedisStore" where
  "example_replica =
     \<lparr>re_pool = example_redis, re_db = [], re_cache = [], re_challenge_cache = []\<rparr>"

definition example_cert :: "(string, string) Certificate" where
  "example_cert = \<lparr>ce_key = ''k'', ce_leaf = ''l'', ce_chain = Some ''c''\<rparr>"

lemma example_redis_reads [simp]: "redis_reads example_redis db = map_of db"
  by (rule ext) (simp add: redis_reads_def example_redis_def)

lemma example_redis_laws: "redis_laws example_redis"
proof -
  have reads: "redis_reads example_redis db = map_of db" for db
    by (rule ext) (simp add: redis_reads_def example_redis_def)
  show ?thesis
    unfolding redis_laws_def reads
    by (auto simp: example_redis_def update_conv' map_of_eq_None_iff)
qed

lemma example_replica_inv: "redis_inv example_pki example_replica"
  by (simp add: redis_inv_def example_pki_laws example_replica_def example_redis_laws)
    (simp add: example_redis_def)

lemma example_set_certificate:
  "\<exists>s'. redis_set_certificate example_pki example_replica ''a.com'' example_cert = (s', Ok ())"
  by (simp add: redis_set_certificate_def example_replica_def example_redis_def example_pki_def
      to_serializable_def example_cert_def)

section \<open>Properties\<close>

text \<open>
  A successful \<open>set_certificate\<close> on a Redis-backed replica is read back by the same
  replica: the domain's certificate is the one just stored, other domains and all ACME
  challenges read as before, and the bulk listing now contains the domain.
\<close>

theorem redis_set_then_get:
  assumes "redis_inv P s" and "redis_set_certificate P s d c = (s', Ok ())"
  shows "snd (redis_get_certificate P s' d) = Ok (Some c) \<and>
    (\<forall>d'. d' \<noteq> d \<longrightarrow> snd (redis_get_certificate P s' d') = snd (redis_get_certificate P s d')) \<and>
    (\<forall>d'. snd (redis_get_challenge P s' d') = snd (redis_get_challenge P s d')) \<and>
    (\<exists>s'' m. redis_get_certificates P s' = (s'', Ok m) \<and> hm_contains m d)"
proof -
  have inv': "redis_inv P s'" using redis.set_certificate_spec [OF assms] by simp
  then obtain s'' m where m: "redis_get_certificates P s' = (s'', Ok m)"
    using redis.get_certificates_spec by blast
  show ?thesis
    using redis.get_after_set [OF assms] redis.listed_iff_found [OF inv' m, of d] m by blast
qed

theorem redis_set_then_get_witness:
  "\<exists>s'. redis_set_certificate example_pki example_replica ''a.com'' example_cert = (s', Ok ()) \<and>
     snd (redis_get_certificate example_pki s' ''a.com'') = Ok (Some example_cert)"
  using example_set_certificate redis_set_then_get [OF example_replica_inv] by blast

text \<open>
  C22. What replica A stored, a replica B that talks to the same server reads back unchanged, through
  base64, PEM and JSON, if it has nothing cached for the domain. A replica that has read or stored an
  earlier certificate for the domain keeps answering with that one: a renewal by another replica does
  not reach it. The chain's PEM conversion has to succeed, since its failure is silently stored as an
  empty string.
\<close>

theorem replica_reads_certificate:
  assumes "redis_inv P a" and "chain_encodable P c"
    and "redis_set_certificate P a d c = (a', Ok ())"
    and "re_pool b = re_pool a'" and "re_db b = re_db a'"
  shows "snd (redis_get_certificate P b d) =
    Ok (Some (case hm_get (re_cache b) d of None \<Rightarrow> c | Some old \<Rightarrow> old))"
proof -
  from assms(3) obtain ser j db where
    ser: "to_serializable P c = Ok ser" and j: "pk_cert_to_json P ser = Some j" and
    set: "ra_set (re_pool a) (re_db a) (certificate_key d) j = Ok db" and
    a': "a' = a\<lparr>re_db := db, re_cache := hm_insert d c (re_cache a)\<rparr>"
    by (auto simp: redis_set_certificate_def split: if_splits res.splits option.splits)
  have laws: "pki_laws P" using assms(1) by (simp add: redis_inv_def)
  have "parse_certificate P j = Some c"
    using laws j serializable_roundtrip [OF laws assms(2) ser]
    by (simp add: parse_certificate_def pki_laws_def)
  moreover have "redis_inv P b" "redis_reads (re_pool b) (re_db b) (certificate_key d) = Some j"
    using redis_inv_set(1) [OF assms(1) set] assms(4,5) a' by (auto simp: redis_inv_def)
  ultimately show ?thesis
    using redis.get_certificate_spec [of P b d]
    by (auto simp: redis_certs_of_def split: option.splits)
qed

theorem replica_reads_certificate_witness:
  "\<exists>a'. redis_set_certificate example_pki example_replica ''a.com'' example_cert = (a', Ok ()) \<and>
     snd (redis_get_certificate example_pki (example_replica\<lparr>re_db := re_db a'\<rparr>) ''a.com'')
       = Ok (Some example_cert) \<and>
     snd (redis_get_certificate example_pki
         (example_replica\<lparr>re_db := re_db a', re_cache := [(''a.com'', example_cert\<lparr>ce_chain := None\<rparr>)]\<rparr>) ''a.com'')
       = Ok (Some (example_cert\<lparr>ce_chain := None\<rparr>))"
proof -
  obtain a' where a': "redis_set_certificate example_pki example_replica ''a.com'' example_cert = (a', Ok ())"
    using example_set_certificate by blast
  have enc: "chain_encodable example_pki example_cert"
    by (simp add: chain_encodable_def example_pki_def)
  have "re_pool a' = re_pool example_replica"
    using a' by (auto simp: redis_set_certificate_def split: if_splits res.splits option.splits)
  then show ?thesis
    using a' replica_reads_certificate [OF example_replica_inv enc a', of "example_replica\<lparr>re_db := re_db a'\<rparr>"]
      replica_reads_certificate [OF example_replica_inv enc a',
        of "example_replica\<lparr>re_db := re_db a', re_cache := [(''a.com'', example_cert\<lparr>ce_chain := None\<rparr>)]\<rparr>"]
    by (auto simp: example_replica_def hm_get_def)
qed

text \<open>
  Challenges are not shared reliably: a replica that has answered a challenge for a
  domain before keeps answering with the cached token, whatever challenge another replica
  stores for that domain later (and although the server forgets the old one after
  \<open>CHALLENGE_TTL_SECONDS\<close>).
\<close>

theorem replica_keeps_stale_challenge:
  assumes "redis_set_challenge P a d t p = (a', Ok ())"
    and "hm_get (re_challenge_cache b) d = Some (t0, p0)"
  shows "snd (redis_get_challenge P (b\<lparr>re_db := re_db a'\<rparr>) d) = Ok (Some (t0, p0)) \<and>
         snd (redis_get_challenge P a' d) = Ok (Some (t, p))"
  using assms
  by (auto simp: redis_get_challenge_def redis_set_challenge_def
      split: if_splits res.splits option.splits)

theorem replica_keeps_stale_challenge_witness:
  "\<exists>a'. redis_set_challenge example_pki example_replica ''a.com'' ''new'' ''p1'' = (a', Ok ()) \<and>
     snd (redis_get_challenge example_pki
       (example_replica\<lparr>re_challenge_cache := [(''a.com'', ''old'', ''p0'')], re_db := re_db a'\<rparr>) ''a.com'')
     = Ok (Some (''old'', ''p0''))"
proof -
  have "\<exists>a'. redis_set_challenge example_pki example_replica ''a.com'' ''new'' ''p1'' = (a', Ok ())"
    by (simp add: redis_set_challenge_def example_replica_def example_redis_def example_pki_def)
  then obtain a' where
    a': "redis_set_challenge example_pki example_replica ''a.com'' ''new'' ''p1'' = (a', Ok ())" ..
  have c: "hm_get (re_challenge_cache
      (example_replica\<lparr>re_challenge_cache := [(''a.com'', ''old'', ''p0'')]\<rparr>)) ''a.com'' = Some (''old'', ''p0'')"
    by (simp add: hm_get_def)
  show ?thesis using replica_keeps_stale_challenge [OF a' c] a' by auto
qed

end
