(* ===== verification/Discovery.thy ===== *)
theory Discovery
  imports Route_Store Cert_Store
begin

text \<open>
  The routing service (\<open>services/discovery/mod.rs\<close>, the messages of \<open>main.rs\<close>) and the health
  check service (\<open>services/health_check/mod.rs\<close>), the two writers of the route table.
  pingora's load balancers, name resolution and the header types are the parameters \<open>disc_ext\<close>;
  the backends of a balancer are an ordered set, given as a list.
\<close>

section \<open>Data\<close>

record ('lb, 'b) disc_ext =
  dx_try_from :: "string list \<Rightarrow> 'lb option"
  dx_backends :: "'lb \<Rightarrow> 'b list"
  dx_health_checked :: "'lb \<Rightarrow> nat \<Rightarrow> 'lb"
  dx_resolve :: "string \<Rightarrow> (string \<times> u16) list option"
  dx_header_name :: "string \<Rightarrow> string option"
  dx_header_value :: "string \<Rightarrow> string option"

record MsgRoute =
  mr_host :: string
  mr_upstreams :: "string list"
  mr_path_matchers :: "string list"
  mr_host_headers_add :: "RouteHeaderAdd list"
  mr_host_headers_remove :: "RouteHeaderRemove list"
  mr_plugins :: "RoutePlugin list"
  mr_self_signed_certs :: bool

record MsgCert =
  mc_cert :: string
  mc_key :: string

datatype MsgProxy = NewRoute MsgRoute | NewCertificate MsgCert | ConfigUpdate

text \<open>The results of \<open>Receiver::recv\<close> on a broadcast channel.\<close>

datatype recv_result = Received MsgProxy | Lagged nat | Closed

section \<open>Adding a route\<close>

definition has_new_backend :: "('lb, 'b) disc_ext \<Rightarrow> 'lb RouteStore \<Rightarrow> string \<Rightarrow> 'lb \<Rightarrow> bool" where
  "has_new_backend X routes host upstream_input =
     (case get_route_by_key routes host of
        Some route_container \<Rightarrow>
          (let backends = dx_backends X (co_load_balancer route_container);
               new_backends = dx_backends X upstream_input
           in length backends \<noteq> length new_backends \<or> \<not> list_all (\<lambda>be. be \<in> set new_backends) backends)
      | None \<Rightarrow> False)"

definition upstream_addr :: "RouteUpstream \<Rightarrow> string" where
  "upstream_addr u = ru_ip u @ '':'' @ show_u16 (ru_port u)"

definition unwrap_header :: "'a option \<Rightarrow> (string, 'a) res" where
  "unwrap_header v = (case v of Some x \<Rightarrow> Ok x | None \<Rightarrow> Panic ''called `Result::unwrap()` on an `Err` value'')"

fun parse_headers :: "('lb, 'b) disc_ext \<Rightarrow> RouteHeaderAdd list \<Rightarrow> (string, (string \<times> string) list) res" where
  "parse_headers X [] = Ok []"
| "parse_headers X (v # vs) =
     res_bind (unwrap_header (dx_header_name X (rha_name v))) (\<lambda>name.
     res_bind (unwrap_header (dx_header_value X (rha_value v))) (\<lambda>value.
     res_bind (parse_headers X vs) (\<lambda>rest. Ok ((name, value) # rest))))"

definition KNOWN_PLUGINS :: "string list" where
  "KNOWN_PLUGINS = [''oauth2'', ''request_id'', ''basic_auth'']"

fun insert_plugins :: "RoutePlugin list \<Rightarrow> (string, RoutePlugin) hmap \<Rightarrow> (string, RoutePlugin) hmap" where
  "insert_plugins [] m = m"
| "insert_plugins (plugin # plugins) m = insert_plugins plugins
     (if rp_name plugin \<in> set KNOWN_PLUGINS then hm_insert (rp_name plugin) plugin m else m)"

definition HEALTH_CHECK_FREQUENCY :: nat where
  "HEALTH_CHECK_FREQUENCY = 15"

definition match_patterns :: "RouteMatcher option \<Rightarrow> path_tree option" where
  "match_patterns match_with =
     (case Option.bind match_with rm_path of
        Some path_matcher \<Rightarrow>
          (if rpm_patterns path_matcher \<noteq> [] then with_pattern (rpm_patterns path_matcher) None else None)
      | None \<Rightarrow> None)"

definition build_container ::
  "('lb, 'b) disc_ext \<Rightarrow> 'lb \<Rightarrow> RouteUpstream list \<Rightarrow> RouteMatcher option \<Rightarrow> RouteHeader option \<Rightarrow>
   RoutePlugin list option \<Rightarrow> RouteCache option \<Rightarrow> bool \<Rightarrow> (string, 'lb RouteStoreContainer) res" where
  "build_container X upstreams upstream_input match_with headers plugins cache self_sign =
     res_bind (case Option.bind headers rh_add of Some add \<Rightarrow> parse_headers X add | None \<Rightarrow> Ok []) (\<lambda>host_header_add.
     Ok ((container_new (dx_health_checked X upstreams HEALTH_CHECK_FREQUENCY))\<lparr>
       co_self_signed_certificate := self_sign,
       co_upstreams := upstream_input,
       co_cache := cache,
       co_host_header_add := host_header_add,
       co_host_header_remove :=
         (case Option.bind headers rh_remove of Some to_remove \<Rightarrow> map rhr_name to_remove | None \<Rightarrow> []),
       co_plugins := (case plugins of Some ps \<Rightarrow> insert_plugins ps [] | None \<Rightarrow> []),
       co_path_matcher := match_patterns match_with\<rparr>))"

definition add_route_to_router ::
  "('lb, 'b) disc_ext \<Rightarrow> string \<Rightarrow> RouteUpstream list \<Rightarrow> RouteMatcher option \<Rightarrow> RouteHeader option \<Rightarrow>
   RoutePlugin list option \<Rightarrow> RouteCache option \<Rightarrow> bool \<Rightarrow> 'lb RouteStore \<Rightarrow> (string, 'lb RouteStore) res" where
  "add_route_to_router X host upstream_input match_with headers plugins cache self_sign routes =
     (case dx_try_from X (map upstream_addr upstream_input) of
        None \<Rightarrow> Ok routes
      | Some upstreams \<Rightarrow>
        if get_route_by_key routes host \<noteq> None \<and> \<not> has_new_backend X routes host upstreams
        then Ok routes
        else res_bind (build_container X upstreams upstream_input match_with headers plugins cache self_sign)
          (\<lambda>route_store_container. Ok (insert_route host route_store_container routes)))"

section \<open>Routes from messages and from the configuration\<close>

definition message_upstreams :: "('lb, 'b) disc_ext \<Rightarrow> string list \<Rightarrow> RouteUpstream list" where
  "message_upstreams X us = concat (map (\<lambda>u.
     (case dx_resolve X u of
        Some scr \<Rightarrow> map (\<lambda>(ip, port). \<lparr>ru_ip = ip, ru_port = port, ru_network = None, ru_weight = Some 1,
             ru_sni = None, ru_headers = None\<rparr>) scr
      | None \<Rightarrow> [])) us)"

definition watch_for_route_changes ::
  "('lb, 'b) disc_ext \<Rightarrow> MsgRoute \<Rightarrow> 'lb RouteStore \<Rightarrow> (string, 'lb RouteStore) res" where
  "watch_for_route_changes X route routes =
     (let matcher = (if mr_path_matchers route \<noteq> []
            then Some \<lparr>rm_path = Some \<lparr>rpm_patterns = mr_path_matchers route\<rparr>\<rparr> else None);
          route_header = \<lparr>rh_add = Some (mr_host_headers_add route), rh_remove = Some (mr_host_headers_remove route)\<rparr>
      in add_route_to_router X (mr_host route) (message_upstreams X (mr_upstreams route)) matcher
           (Some route_header) (Some (mr_plugins route)) None (mr_self_signed_certs route) routes)"

text \<open>
  Reading a route's own certificate: \<open>read_file\<close> is the file system, \<open>set_certificate\<close> the
  store's operation. Every failure is logged and the route is added all the same.
\<close>

definition add_route_ssl_to_store ::
  "('k, 'x) pki \<Rightarrow> (string \<Rightarrow> string option) \<Rightarrow>
   ('s \<Rightarrow> string \<Rightarrow> ('k, 'x) Certificate \<Rightarrow> 's \<times> (string, unit) res) \<Rightarrow> Route \<Rightarrow> 's \<Rightarrow> 's \<times> (string, unit) res" where
  "add_route_ssl_to_store P read_file set_certificate route store =
     (case Option.bind (ro_ssl route) rs_path of
        None \<Rightarrow> (store, Ok ())
      | Some ssl_path \<Rightarrow>
        (case read_file (rsp_key ssl_path) of
           None \<Rightarrow> (store, Err ''Failed to load private key from file'')
         | Some key_from_file \<Rightarrow>
        (case read_file (rsp_pem ssl_path) of
           None \<Rightarrow> (store, Err ''Failed to load certificate from file'')
         | Some pem_from_file \<Rightarrow>
        (case pk_key_from_pem P key_from_file of
           None \<Rightarrow> (store, Err ''Failed to load private key from file'')
         | Some key \<Rightarrow>
        (case pk_x509_from_pem P pem_from_file of
           None \<Rightarrow> (store, Err ''Failed to load certificate from file'')
         | Some pem \<Rightarrow>
           (case set_certificate store (ro_host route) \<lparr>ce_key = key, ce_leaf = pem, ce_chain = None\<rparr> of
              (store', Ok u) \<Rightarrow> (store', Ok u)
            | (store', Err e) \<Rightarrow> (store', Err ''Failed to insert certificate from config for route'')
            | (store', Panic m) \<Rightarrow> (store', Panic m)))))))"

definition self_signed_of :: "Route \<Rightarrow> bool" where
  "self_signed_of route = unwrap_or False (Option.bind (ro_ssl_certificate route) rsc_self_signed_on_failure)"

fun add_routes_from_config ::
  "('lb, 'b) disc_ext \<Rightarrow> (Route \<Rightarrow> 's \<Rightarrow> 's \<times> (string, unit) res) \<Rightarrow> Route list \<Rightarrow>
   's \<Rightarrow> 'lb RouteStore \<Rightarrow> 's \<times> (string, 'lb RouteStore) res" where
  "add_routes_from_config X add_ssl [] store routes = (store, Ok routes)"
| "add_routes_from_config X add_ssl (route # rest) store routes =
     (case add_ssl route store of
        (store', Panic m) \<Rightarrow> (store', Panic m)
      | (store', _) \<Rightarrow>
        (case add_route_to_router X (ro_host route) (ro_upstreams route) (ro_match_with route) (ro_headers route)
              (ro_plugins route) (ro_cache route) (self_signed_of route) routes of
           Ok routes' \<Rightarrow> add_routes_from_config X add_ssl rest store' routes'
         | Err e \<Rightarrow> (store', Err e)
         | Panic m \<Rightarrow> (store', Panic m)))"

text \<open>The service's loop over what \<open>recv\<close> returns: it ends at the first result that is not a route.\<close>

fun route_loop :: "('lb, 'b) disc_ext \<Rightarrow> recv_result list \<Rightarrow> 'lb RouteStore \<Rightarrow> (string, 'lb RouteStore) res" where
  "route_loop X (Received (NewRoute route) # rs) routes =
     res_bind (watch_for_route_changes X route routes) (route_loop X rs)"
| "route_loop X _ routes = Ok routes"

definition routing_service ::
  "('lb, 'b) disc_ext \<Rightarrow> (Route \<Rightarrow> 's \<Rightarrow> 's \<times> (string, unit) res) \<Rightarrow> Route list \<Rightarrow> recv_result list \<Rightarrow>
   's \<Rightarrow> 'lb RouteStore \<Rightarrow> 's \<times> (string, 'lb RouteStore) res" where
  "routing_service X add_ssl config_routes received store routes =
     (case add_routes_from_config X add_ssl config_routes store routes of
        (store', r) \<Rightarrow> (store', res_bind r (route_loop X received)))"

section \<open>The health check\<close>

text \<open>
  One round of \<open>run_health_check_loop\<close> when nothing else writes: each container is read and put
  back. The checks themselves change the state inside the balancer, which the containers share.
\<close>

definition health_check_round :: "'lb RouteStore \<Rightarrow> 'lb RouteStore" where
  "health_check_round routes = fold (\<lambda>(host, route_container). insert_route host route_container) (get_routes routes) routes"

section \<open>The two writers together\<close>

text \<open>
  The table, and the container the health check holds between reading it and putting it back,
  when it waits for the checks.
\<close>

record 'lb table_state =
  ts_routes :: "'lb RouteStore"
  ts_checking :: "(string \<times> 'lb RouteStoreContainer) option"

definition table_init :: "'lb table_state" where
  "table_init = \<lparr>ts_routes = [], ts_checking = None\<rparr>"

inductive table_step :: "('lb, 'b) disc_ext \<Rightarrow> 'lb table_state \<Rightarrow> 'lb table_state \<Rightarrow> bool" for X where
  configured: "add_route_to_router X host us m h p c b (ts_routes s) = Ok routes' \<Longrightarrow>
    table_step X s (s\<lparr>ts_routes := routes'\<rparr>)"
| message: "watch_for_route_changes X msg (ts_routes s) = Ok routes' \<Longrightarrow>
    table_step X s (s\<lparr>ts_routes := routes'\<rparr>)"
| check_start: "(host, rc) \<in> set (get_routes (ts_routes s)) \<Longrightarrow>
    table_step X s (s\<lparr>ts_checking := Some (host, rc)\<rparr>)"
| check_done: "ts_checking s = Some (host, rc) \<Longrightarrow>
    table_step X s (s\<lparr>ts_routes := insert_route host rc (ts_routes s), ts_checking := None\<rparr>)"

inductive_cases table_stepE: "table_step X s s'"

abbreviation table_reachable :: "('lb, 'b) disc_ext \<Rightarrow> 'lb table_state \<Rightarrow> bool" where
  "table_reachable X s \<equiv> (table_step X)\<^sup>*\<^sup>* table_init s"

text \<open>What every container in the table satisfies.\<close>

definition plugins_ok :: "(string, RoutePlugin) hmap \<Rightarrow> bool" where
  "plugins_ok m \<longleftrightarrow> hm_wf m \<and> (\<forall>n p. hm_get m n = Some p \<longrightarrow> n \<in> set KNOWN_PLUGINS \<and> rp_name p = n)"

definition route_ok :: "('lb, 'b) disc_ext \<Rightarrow> 'lb RouteStoreContainer \<Rightarrow> bool" where
  "route_ok X rc \<longleftrightarrow>
     plugins_ok (co_plugins rc) \<and>
     (\<exists>lb. dx_try_from X (map upstream_addr (co_upstreams rc)) = Some lb \<and>
        co_load_balancer rc = dx_health_checked X lb HEALTH_CHECK_FREQUENCY)"

definition table_ok :: "('lb, 'b) disc_ext \<Rightarrow> 'lb RouteStore \<Rightarrow> bool" where
  "table_ok X routes \<longleftrightarrow> hm_wf routes \<and> (\<forall>h rc. get_route_by_key routes h = Some rc \<longrightarrow> route_ok X rc)"

definition state_ok :: "('lb, 'b) disc_ext \<Rightarrow> 'lb table_state \<Rightarrow> bool" where
  "state_ok X s \<longleftrightarrow> table_ok X (ts_routes s) \<and>
     (\<forall>h rc. ts_checking s = Some (h, rc) \<longrightarrow> route_ok X rc \<and> get_route_by_key (ts_routes s) h \<noteq> None)"

section \<open>Lemmas\<close>

lemma insert_plugins_ok: "plugins_ok m \<Longrightarrow> plugins_ok (insert_plugins ps m)"
proof (induction ps arbitrary: m)
  case (Cons q ps)
  from Cons.prems have "plugins_ok (if rp_name q \<in> set KNOWN_PLUGINS then hm_insert (rp_name q) q m else m)"
    by (cases "rp_name q \<in> set KNOWN_PLUGINS") (auto simp: plugins_ok_def)
  then show ?case by (simp only: insert_plugins.simps Cons.IH)
qed simp

lemma insert_plugins_get:
  "hm_get (insert_plugins ps m) n =
   (case find (\<lambda>p. rp_name p = n) (rev ps) of
      Some p \<Rightarrow> if n \<in> set KNOWN_PLUGINS then Some p else hm_get m n
    | None \<Rightarrow> hm_get m n)"
proof (induction ps arbitrary: m)
  case (Cons q ps)
  have "find P (xs @ [q]) = (case find P xs of Some x \<Rightarrow> Some x | None \<Rightarrow> if P q then Some q else None)" for P xs
    by (induction xs) auto
  with Cons show ?case by (auto split: option.splits)
qed simp

lemma build_container_fields:
  assumes "build_container X lb us m h p c b = Ok rc"
  shows "co_load_balancer rc = dx_health_checked X lb HEALTH_CHECK_FREQUENCY" "co_upstreams rc = us"
    "co_cache rc = c" "co_self_signed_certificate rc = b" "co_path_matcher rc = match_patterns m"
    "co_plugins rc = insert_plugins (unwrap_or [] p) []"
    "co_host_header_remove rc = map rhr_name (unwrap_or [] (Option.bind h rh_remove))"
  using assms
  by (auto simp: build_container_def res_bind_Ok_iff container_new_def unwrap_or_def split: option.splits)

lemma build_container_ok:
  assumes "dx_try_from X (map upstream_addr us) = Some lb"
    and "build_container X lb us m h p c b = Ok rc"
  shows "route_ok X rc"
  using assms(1) insert_plugins_ok [of "[]"]
  by (simp add: build_container_fields [OF assms(2)] route_ok_def plugins_ok_def)

lemma add_route_cases:
  assumes "add_route_to_router X host us m h p c b routes = Ok routes'"
  obtains (same) "routes' = routes"
  | (inserted) lb rc where "dx_try_from X (map upstream_addr us) = Some lb"
      "build_container X lb us m h p c b = Ok rc" "routes' = insert_route host rc routes"
  using assms by (auto simp: add_route_to_router_def res_bind_Ok_iff split: option.splits if_splits)

lemma add_route_preserves:
  assumes "add_route_to_router X host us m h p c b routes = Ok routes'" and "table_ok X routes"
  shows "table_ok X routes'"
  using assms(1)
proof (cases rule: add_route_cases)
  case (inserted lb rc)
  with build_container_ok assms(2) show ?thesis
    by (auto simp: table_ok_def insert_route_def get_route_by_key_def split: if_splits)
qed (use assms(2) in simp)

lemma add_route_keeps_hosts:
  assumes "add_route_to_router X host us m h p c b routes = Ok routes'" and "get_route_by_key routes k \<noteq> None"
  shows "get_route_by_key routes' k \<noteq> None"
  using assms(1) by (cases rule: add_route_cases) (use assms(2) in auto)

lemma add_route_other_host:
  assumes "add_route_to_router X host us m h p c b routes = Ok routes'" and "k \<noteq> host"
  shows "get_route_by_key routes' k = get_route_by_key routes k"
  using assms(1) by (cases rule: add_route_cases) (use assms(2) in auto)

lemma watch_is_add:
  "watch_for_route_changes X msg routes = add_route_to_router X (mr_host msg) (message_upstreams X (mr_upstreams msg))
     (if mr_path_matchers msg \<noteq> [] then Some \<lparr>rm_path = Some \<lparr>rpm_patterns = mr_path_matchers msg\<rparr>\<rparr> else None)
     (Some \<lparr>rh_add = Some (mr_host_headers_add msg), rh_remove = Some (mr_host_headers_remove msg)\<rparr>)
     (Some (mr_plugins msg)) None (mr_self_signed_certs msg) routes"
  by (simp add: watch_for_route_changes_def Let_def)

text \<open>Every step keeps every host that has a route, and the invariant.\<close>

lemma step_keeps_hosts:
  "table_step X s s' \<Longrightarrow> get_route_by_key (ts_routes s) k \<noteq> None \<Longrightarrow> get_route_by_key (ts_routes s') k \<noteq> None"
  by (cases rule: table_step.cases) (auto simp: watch_is_add dest: add_route_keeps_hosts)

lemma insert_route_ok: "table_ok X routes \<Longrightarrow> route_ok X rc \<Longrightarrow> table_ok X (insert_route h rc routes)"
  by (auto simp: table_ok_def insert_route_def get_route_by_key_def split: if_splits)

lemma step_preserves: "table_step X s s' \<Longrightarrow> state_ok X s \<Longrightarrow> state_ok X s'"
proof (induction rule: table_step.induct)
  case (configured host us m h p c b s routes')
  with add_route_preserves [OF configured(1)] add_route_keeps_hosts [OF configured(1)] show ?case
    by (auto simp: state_ok_def)
next
  case (message msg s routes')
  note m = message(1) [unfolded watch_is_add]
  with message add_route_preserves [OF m] add_route_keeps_hosts [OF m] show ?case
    by (auto simp: state_ok_def)
next
  case (check_start host rc s)
  then have "get_route_by_key (ts_routes s) host = Some rc"
    by (auto simp: state_ok_def table_ok_def get_routes_def get_route_by_key_def intro: hm_get_in)
  with check_start show ?case by (auto simp: state_ok_def table_ok_def)
next
  case (check_done s host rc)
  then show ?case by (auto simp: state_ok_def intro: insert_route_ok)
qed

lemma reachable_ok: "table_reachable X s \<Longrightarrow> state_ok X s"
proof (induction rule: rtranclp_induct)
  case base
  show ?case by (simp add: table_init_def state_ok_def table_ok_def get_route_by_key_def)
qed (rule step_preserves)

lemma add_route_unchanged:
  assumes "table_ok X routes" and "get_route_by_key routes host = Some rc"
    and "\<And>lb n. dx_backends X (dx_health_checked X lb n) = dx_backends X lb"
  shows "add_route_to_router X host (co_upstreams rc) m h p c b routes = Ok routes"
proof -
  obtain lb where lb: "dx_try_from X (map upstream_addr (co_upstreams rc)) = Some lb"
    "co_load_balancer rc = dx_health_checked X lb HEALTH_CHECK_FREQUENCY"
    using assms(1,2) by (auto simp: table_ok_def route_ok_def)
  then have "\<not> has_new_backend X routes host lb"
    using assms(2,3) by (simp add: has_new_backend_def list_all_iff)
  with lb(1) assms(2) show ?thesis by (simp add: add_route_to_router_def)
qed

lemma fold_insert_get:
  "get_route_by_key (fold (\<lambda>(h, rc). insert_route h rc) kvs routes) k =
   (case map_of (rev kvs) k of Some rc \<Rightarrow> Some rc | None \<Rightarrow> get_route_by_key routes k)"
  by (induction kvs arbitrary: routes) (auto simp: map_add_def split: option.splits)

definition headers_valid :: "('lb, 'b) disc_ext \<Rightarrow> RouteHeaderAdd list \<Rightarrow> bool" where
  "headers_valid X add \<longleftrightarrow>
     (\<forall>a\<in>set add. dx_header_name X (rha_name a) \<noteq> None \<and> dx_header_value X (rha_value a) \<noteq> None)"

lemma parse_headers_total: "headers_valid X add \<Longrightarrow> \<exists>hs. parse_headers X add = Ok hs"
  by (induction add) (auto simp: headers_valid_def unwrap_header_def)

lemma parse_headers_panics:
  assumes "a \<in> set add" and "dx_header_name X (rha_name a) = None \<or> dx_header_value X (rha_value a) = None"
  shows "\<exists>m. parse_headers X add = Panic m"
  using assms
proof (induction add)
  case (Cons b add)
  have "\<exists>m. unwrap_header v = Panic m" if "v = None" for v :: "string option"
    using that by (simp add: unwrap_header_def)
  with Cons show ?case
    by (cases "dx_header_name X (rha_name b)"; cases "dx_header_value X (rha_value b)")
      (auto simp: unwrap_header_def res_bind_Panic_iff)
qed simp

lemma watch_total:
  assumes "headers_valid X (mr_host_headers_add msg)"
  shows "\<exists>r. watch_for_route_changes X msg routes = Ok r"
  using parse_headers_total [OF assms]
  by (auto simp: watch_is_add add_route_to_router_def build_container_def split: option.splits)

lemma route_loop_other: "(\<And>m. x \<noteq> Received (NewRoute m)) \<Longrightarrow> route_loop X (x # rest) routes = Ok routes"
  by (cases x rule: recv_result.exhaust) (auto, metis MsgProxy.exhaust route_loop.simps(3,4))

lemma route_loop_total:
  assumes "\<forall>msg\<in>set ms. headers_valid X (mr_host_headers_add msg)"
  shows "\<exists>r. route_loop X (map (\<lambda>m. Received (NewRoute m)) ms) routes = Ok r"
  using assms
proof (induction ms arbitrary: routes)
  case (Cons m ms)
  obtain t where "watch_for_route_changes X m routes = Ok t"
    using watch_total [of X m routes] Cons.prems by auto
  with Cons show ?case by simp
qed simp

text \<open>The routes of a configuration: each host's first route is installed, later ones for it are compared with it.\<close>

definition route_valid :: "('lb, 'b) disc_ext \<Rightarrow> Route \<Rightarrow> bool" where
  "route_valid X route \<longleftrightarrow> dx_try_from X (map upstream_addr (ro_upstreams route)) \<noteq> None \<and>
     headers_valid X (unwrap_or [] (Option.bind (ro_headers route) rh_add))"

definition route_installed :: "('lb, 'b) disc_ext \<Rightarrow> Route \<Rightarrow> 'lb RouteStoreContainer \<Rightarrow> bool" where
  "route_installed X route rc \<longleftrightarrow> route_ok X rc \<and> co_upstreams rc = ro_upstreams route \<and> co_cache rc = ro_cache route \<and>
     co_path_matcher rc = match_patterns (ro_match_with route) \<and>
     co_plugins rc = insert_plugins (unwrap_or [] (ro_plugins route)) [] \<and>
     co_self_signed_certificate rc = self_signed_of route"

lemma build_container_total:
  assumes "headers_valid X (unwrap_or [] (Option.bind h rh_add))"
  shows "\<exists>rc. build_container X lb us m h p c b = Ok rc"
  using parse_headers_total [OF assms] by (auto simp: build_container_def split: option.splits)

lemma add_configured_route:
  assumes "route_valid X route" and "get_route_by_key routes (ro_host route) = None"
  shows "\<exists>rc. add_route_to_router X (ro_host route) (ro_upstreams route) (ro_match_with route) (ro_headers route)
      (ro_plugins route) (ro_cache route) (self_signed_of route) routes = Ok (insert_route (ro_host route) rc routes) \<and>
    route_installed X route rc"
proof -
  obtain lb where lb: "dx_try_from X (map upstream_addr (ro_upstreams route)) = Some lb"
    using assms(1) by (auto simp: route_valid_def)
  obtain rc where rc: "build_container X lb (ro_upstreams route) (ro_match_with route) (ro_headers route)
      (ro_plugins route) (ro_cache route) (self_signed_of route) = Ok rc"
    using build_container_total [of X "ro_headers route"] assms(1) by (metis route_valid_def)
  show ?thesis
    using lb rc assms(2) build_container_ok [OF lb rc]
    by (auto simp: add_route_to_router_def route_installed_def build_container_fields [OF rc])
qed

lemma configured_routes:
  assumes "\<forall>route\<in>set rs. route_valid X route" and "distinct (map ro_host rs)"
    and "\<forall>route\<in>set rs. get_route_by_key routes (ro_host route) = None"
    and "\<And>route st m. snd (add_ssl route st) \<noteq> Panic m"
  shows "\<exists>store' routes'. add_routes_from_config X add_ssl rs store routes = (store', Ok routes') \<and>
    (\<forall>route\<in>set rs. \<exists>rc. get_route_by_key routes' (ro_host route) = Some rc \<and> route_installed X route rc) \<and>
    (\<forall>h. h \<notin> ro_host ` set rs \<longrightarrow> get_route_by_key routes' h = get_route_by_key routes h)"
  using assms(1-3)
proof (induction rs arbitrary: store routes)
  case (Cons route rs)
  obtain store1 r1 where ssl: "add_ssl route store = (store1, r1)" "\<And>m. r1 \<noteq> Panic m"
    using assms(4) [of route store] by (metis prod.collapse)
  obtain rc where rc: "add_route_to_router X (ro_host route) (ro_upstreams route) (ro_match_with route) (ro_headers route)
      (ro_plugins route) (ro_cache route) (self_signed_of route) routes = Ok (insert_route (ro_host route) rc routes)"
    "route_installed X route rc"
    using add_configured_route [of X route routes] Cons.prems by auto
  have fresh: "\<forall>r\<in>set rs. get_route_by_key (insert_route (ro_host route) rc routes) (ro_host r) = None"
  proof
    fix r assume r: "r \<in> set rs"
    then have "ro_host r \<noteq> ro_host route" using Cons.prems(2) by (metis distinct.simps(2) image_eqI list.set_map list.simps(9))
    with r Cons.prems(3) show "get_route_by_key (insert_route (ro_host route) rc routes) (ro_host r) = None" by simp
  qed
  have tail: "\<forall>r\<in>set rs. route_valid X r" "distinct (map ro_host rs)" using Cons.prems(1,2) by simp_all
  obtain store' routes' where rest: "add_routes_from_config X add_ssl rs store1 (insert_route (ro_host route) rc routes) = (store', Ok routes')"
    "\<forall>r\<in>set rs. \<exists>rc. get_route_by_key routes' (ro_host r) = Some rc \<and> route_installed X r rc"
    "\<forall>h. h \<notin> ro_host ` set rs \<longrightarrow> get_route_by_key routes' h = get_route_by_key (insert_route (ro_host route) rc routes) h"
    using Cons.IH [OF tail fresh, of store1] by (elim exE conjE) (rule that)
  have "add_routes_from_config X add_ssl (route # rs) store routes = (store', Ok routes')"
    using ssl(1) ssl(2) [of "case r1 of Panic m \<Rightarrow> m | _ \<Rightarrow> []"] rc(1) rest(1) by (cases r1) simp_all
  moreover have "get_route_by_key routes' (ro_host route) = Some rc"
    using rest(3) Cons.prems(2) by simp
  moreover have "get_route_by_key routes' h = get_route_by_key routes h" if "h \<notin> ro_host ` set (route # rs)" for h
    using rest(3) that by simp
  ultimately show ?case using rest(2) rc(2) by (intro exI [of _ store'] exI [of _ routes']) simp
qed simp

section \<open>A concrete balancer\<close>

definition example_disc :: "(string list, string) disc_ext" where
  "example_disc = \<lparr>dx_try_from = Some, dx_backends = remdups, dx_health_checked = (\<lambda>lb _. lb),
     dx_resolve = (\<lambda>u. Some [(u, 80)]), dx_header_name = Some, dx_header_value = Some\<rparr>"

definition example_upstream :: "string \<Rightarrow> RouteUpstream" where
  "example_upstream ip = default_RouteUpstream\<lparr>ru_ip := ip, ru_port := 80\<rparr>"

definition example_table :: "string list RouteStore" where
  "example_table = (case add_route_to_router example_disc ''a.io'' [example_upstream ''10.0.0.1''] None None None None False [] of
     Ok t \<Rightarrow> t | _ \<Rightarrow> [])"

lemma example_table_added:
  "add_route_to_router example_disc ''a.io'' [example_upstream ''10.0.0.1''] None None None None False [] = Ok example_table"
  by (simp add: example_table_def add_route_to_router_def example_disc_def get_route_by_key_def build_container_def)

lemma example_adds: "\<exists>r. add_route_to_router example_disc host us None None None None b routes = Ok r"
  by (auto simp: add_route_to_router_def build_container_def split: option.splits)

lemma example_table_reachable: "table_reachable example_disc \<lparr>ts_routes = example_table, ts_checking = None\<rparr>"
proof -
  have "table_step example_disc table_init (table_init\<lparr>ts_routes := example_table\<rparr>)"
    using example_table_added by (intro table_step.configured) (simp add: table_init_def)
  then show ?thesis by (auto simp: table_init_def)
qed

definition example_route :: Route where
  "example_route = \<lparr>ro_host = ''a.io'', ro_cache = None, ro_plugins = None, ro_ssl_certificate = None, ro_ssl = None,
     ro_headers = None, ro_upstreams = [example_upstream ''10.0.0.1''], ro_match_with = None\<rparr>"

lemma example_table_get:
  "\<exists>rc. get_route_by_key example_table ''a.io'' = Some rc \<and> co_upstreams rc = [example_upstream ''10.0.0.1'']"
  by (simp add: example_table_def add_route_to_router_def example_disc_def get_route_by_key_def build_container_def
      insert_route_def)

section \<open>Properties\<close>

text \<open>
  Announcing a new host installs its route: the balancer over the announced upstreams, the last
  configuration of each known plugin, the patterns and the cache section; no other host changes.
\<close>

theorem new_route_is_installed:
  assumes "dx_try_from X (map upstream_addr us) = Some lb" and "get_route_by_key routes host = None"
    and "add_route_to_router X host us m h p c b routes = Ok routes'"
  shows "\<exists>rc. get_route_by_key routes' host = Some rc \<and> co_upstreams rc = us \<and>
    co_load_balancer rc = dx_health_checked X lb HEALTH_CHECK_FREQUENCY \<and>
    co_cache rc = c \<and> co_path_matcher rc = match_patterns m \<and> co_self_signed_certificate rc = b \<and>
    (\<lambda>n. hm_get (co_plugins rc) n) =
      (\<lambda>n. if n \<in> set KNOWN_PLUGINS then find (\<lambda>q. rp_name q = n) (rev (unwrap_or [] p)) else None) \<and>
    (get_route_by_key routes')(host := None) = (get_route_by_key routes)(host := None)"
proof -
  obtain rc where rc: "build_container X lb us m h p c b = Ok rc" and r: "routes' = insert_route host rc routes"
    using assms by (auto simp: add_route_to_router_def res_bind_Ok_iff)
  show ?thesis
    using r by (auto simp: build_container_fields [OF rc] insert_plugins_get fun_eq_iff split: option.splits)
qed

theorem new_route_is_installed_witness:
  "\<exists>rc. get_route_by_key example_table ''a.io'' = Some rc \<and> co_upstreams rc = [example_upstream ''10.0.0.1'']"
proof -
  have "dx_try_from example_disc (map upstream_addr [example_upstream ''10.0.0.1'']) =
      Some (map upstream_addr [example_upstream ''10.0.0.1''])"
    by (simp add: example_disc_def)
  from new_route_is_installed [OF this _ example_table_added] show ?thesis
    by (auto simp: get_route_by_key_def)
qed

text \<open>
  C19. Starting with an empty table, the routing service installs every route of a configuration with
  distinct hosts, buildable upstreams and valid headers, whatever happens to the routes' own
  certificates, and no other host.
\<close>

theorem configured_routes_are_installed:
  assumes "\<forall>route\<in>set rs. route_valid X route" and "distinct (map ro_host rs)"
    and "\<And>route st m. snd (add_ssl route st) \<noteq> Panic m"
  shows "\<exists>store' routes'. routing_service X add_ssl rs [] store [] = (store', Ok routes') \<and>
    (\<forall>route\<in>set rs. \<exists>rc. get_route_by_key routes' (ro_host route) = Some rc \<and> route_installed X route rc) \<and>
    (\<forall>h. h \<notin> ro_host ` set rs \<longrightarrow> get_route_by_key routes' h = None)"
  using configured_routes [OF assms(1,2), where routes = "[]" and store = store and add_ssl = add_ssl] assms(3)
  by (fastforce simp: routing_service_def get_route_by_key_def)

theorem configured_routes_are_installed_witness:
  "\<exists>store' routes' rc. routing_service example_disc (\<lambda>_ store. (store, Err ''no certificate''))
     [example_route] [] () [] = (store', Ok routes') \<and>
     get_route_by_key routes' ''a.io'' = Some rc \<and> co_upstreams rc = [example_upstream ''10.0.0.1'']"
proof -
  have "\<forall>route\<in>set [example_route]. route_valid example_disc route"
    by (simp add: route_valid_def example_disc_def headers_valid_def example_route_def)
  from configured_routes_are_installed [OF this, where add_ssl = "\<lambda>_ store. (store, Err ''no certificate'')" and store = "()"]
  show ?thesis by (auto simp: route_installed_def example_route_def)
qed

text \<open>
  C11. In every reachable state of the two writers, every route's balancer is built from exactly its
  upstreams, its plugins are known ones under their own names, and no host is listed twice.
\<close>

theorem reachable_table_is_consistent:
  assumes "table_reachable X s"
  shows "hm_wf (ts_routes s) \<and>
    (\<forall>h rc. get_route_by_key (ts_routes s) h = Some rc \<longrightarrow> plugins_ok (co_plugins rc) \<and>
      (\<exists>lb. dx_try_from X (map upstream_addr (co_upstreams rc)) = Some lb \<and>
         co_load_balancer rc = dx_health_checked X lb HEALTH_CHECK_FREQUENCY))"
  using reachable_ok [OF assms] by (auto simp: state_ok_def table_ok_def route_ok_def)

theorem reachable_table_is_consistent_witness:
  "\<exists>rc. get_route_by_key example_table ''a.io'' = Some rc \<and> plugins_ok (co_plugins rc)"
  using reachable_table_is_consistent [OF example_table_reachable] example_table_get by auto

text \<open>Once a host has a route it has one in every later state, however the writers interleave.\<close>

theorem routes_are_never_forgotten:
  assumes "(table_step X)\<^sup>*\<^sup>* s s'" and "get_route_by_key (ts_routes s) host \<noteq> None"
  shows "get_route_by_key (ts_routes s') host \<noteq> None"
  using assms by (induction rule: rtranclp_induct) (auto dest: step_keeps_hosts)

theorem routes_are_never_forgotten_witness:
  "get_route_by_key (insert_route ''b.io'' (container_new []) example_table) ''a.io'' \<noteq> None"
proof -
  let ?s = "\<lparr>ts_routes = example_table, ts_checking = Some (''b.io'', container_new [])\<rparr>"
  have "table_step example_disc ?s (?s\<lparr>ts_routes := insert_route ''b.io'' (container_new []) (ts_routes ?s), ts_checking := None\<rparr>)"
    by (rule table_step.check_done) simp
  then have "(table_step example_disc)\<^sup>*\<^sup>* ?s
      (?s\<lparr>ts_routes := insert_route ''b.io'' (container_new []) (ts_routes ?s), ts_checking := None\<rparr>)" by auto
  from routes_are_never_forgotten [OF this, of "''a.io''"] example_table_get show ?thesis by auto
qed

text \<open>
  A route that changes while the health check waits is lost: the container read before the
  change is put back after it.
\<close>

theorem health_check_restores_old_route:
  assumes "get_route_by_key (ts_routes s) host = Some old"
    and "add_route_to_router X host us m h p c b (ts_routes s) = Ok routes'"
  shows "\<exists>s'. (table_step X)\<^sup>*\<^sup>* s s' \<and> table_step X (s\<lparr>ts_checking := Some (host, old)\<rparr>)
      (s\<lparr>ts_checking := Some (host, old), ts_routes := routes'\<rparr>) \<and>
    ts_routes s' = insert_route host old routes' \<and> get_route_by_key (ts_routes s') host = Some old"
proof -
  let ?s1 = "s\<lparr>ts_checking := Some (host, old)\<rparr>"
  let ?s2 = "s\<lparr>ts_checking := Some (host, old), ts_routes := routes'\<rparr>"
  let ?s3 = "?s2\<lparr>ts_routes := insert_route host old (ts_routes ?s2), ts_checking := None\<rparr>"
  have 1: "table_step X s ?s1"
    using assms(1) by (intro table_step.check_start) (auto simp: get_routes_def get_route_by_key_def dest: hm_get_SomeD)
  have 2: "table_step X ?s1 ?s2"
    using table_step.configured [of X host us m h p c b ?s1 routes'] assms(2) by simp
  have 3: "table_step X ?s2 ?s3"
    by (rule table_step.check_done) simp
  have "(table_step X)\<^sup>*\<^sup>* s ?s3"
    using 1 2 3 by (meson r_into_rtranclp rtranclp_trans)
  with 2 show ?thesis by (intro exI [of _ ?s3]) simp
qed

theorem health_check_restores_old_route_witness:
  "\<exists>old s'. (table_step example_disc)\<^sup>*\<^sup>* \<lparr>ts_routes = example_table, ts_checking = None\<rparr> s' \<and>
     get_route_by_key (ts_routes s') ''a.io'' = Some old \<and> co_upstreams old = [example_upstream ''10.0.0.1'']"
proof -
  obtain old where old: "get_route_by_key example_table ''a.io'' = Some old"
    "co_upstreams old = [example_upstream ''10.0.0.1'']"
    using example_table_get by blast
  obtain routes' where r: "add_route_to_router example_disc ''a.io'' [example_upstream ''10.0.0.2''] None None None None False example_table = Ok routes'"
    using example_adds by blast
  from health_check_restores_old_route [of "\<lparr>ts_routes = example_table, ts_checking = None\<rparr>" "''a.io''" old] old r
  show ?thesis by fastforce
qed

text \<open>A round of the health check that nothing interleaves with leaves every route as it was.\<close>

theorem health_check_round_alone_changes_nothing:
  assumes "hm_wf routes"
  shows "get_route_by_key (health_check_round routes) = get_route_by_key routes"
proof -
  have "map_of (rev routes) = map_of routes"
    using assms hm_get_same_set [of "rev routes" routes]
    by (auto simp: hm_wf_def rev_map [symmetric] hm_get_def fun_eq_iff)
  then have *: "map_of (rev routes) k = get_route_by_key routes k" for k
    by (simp add: get_route_by_key_def hm_get_def)
  show ?thesis
    by (rule ext) (simp add: health_check_round_def get_routes_def fold_insert_get * split: option.splits)
qed

theorem health_check_round_alone_changes_nothing_witness:
  "get_route_by_key (health_check_round example_table) ''a.io'' \<noteq> None"
  using health_check_round_alone_changes_nothing [of example_table] example_table_get
    reachable_ok [OF example_table_reachable]
  by (auto simp: state_ok_def table_ok_def)

text \<open>
  C39. Announcing a known host again with its upstreams changes nothing, whatever plugins, headers,
  patterns, cache section or certificate flag come with the announcement.
\<close>

theorem same_upstreams_ignore_other_changes:
  assumes "table_ok X routes" and "get_route_by_key routes host = Some rc"
    and "\<And>lb n. dx_backends X (dx_health_checked X lb n) = dx_backends X lb"
  shows "add_route_to_router X host (co_upstreams rc) m h p c b routes = Ok routes"
  by (rule add_route_unchanged [OF assms])

theorem same_upstreams_ignore_other_changes_witness:
  "add_route_to_router example_disc ''a.io'' [example_upstream ''10.0.0.1''] None None
     (Some [\<lparr>rp_name = ''basic_auth'', rp_config = None\<rparr>]) None False example_table = Ok example_table"
proof -
  obtain rc where rc: "get_route_by_key example_table ''a.io'' = Some rc" "co_upstreams rc = [example_upstream ''10.0.0.1'']"
    using example_table_get by blast
  have "table_ok example_disc example_table"
    using reachable_ok [OF example_table_reachable] by (simp add: state_ok_def)
  from same_upstreams_ignore_other_changes [OF this rc(1)] show ?thesis
    by (simp add: rc(2) example_disc_def)
qed

text \<open>
  The routing service stops listening at the first receive that is not a route: a lagged
  channel, any other message or a closed channel ends it, and routes announced later are not added.
\<close>

theorem discovery_stops_at_first_other_message:
  "route_loop X (rs @ Lagged n # later) routes = route_loop X rs routes \<and>
   route_loop X (rs @ Received ConfigUpdate # later) routes = route_loop X rs routes \<and>
   route_loop X (rs @ Received (NewCertificate cert) # later) routes = route_loop X rs routes \<and>
   route_loop X (rs @ Closed # later) routes = route_loop X rs routes"
proof -
  have "route_loop X (rs @ x # later) routes = route_loop X rs routes"
    if "\<And>m. x \<noteq> Received (NewRoute m)" for x
  proof (induction rs arbitrary: routes)
    case Nil
    show ?case using route_loop_other [OF that, of X] by simp
  next
    case (Cons r rs)
    show ?case
    proof (cases "\<exists>m. r = Received (NewRoute m)")
      case True
      then obtain m where r: "r = Received (NewRoute m)" by blast
      show ?thesis using Cons.IH by (cases "watch_for_route_changes X m routes") (simp_all add: r)
    next
      case False
      then show ?thesis using route_loop_other [of r X] by simp
    qed
  qed
  then show ?thesis by simp
qed

text \<open>
  A new host announced with a header that is no valid HTTP header panics the routing service,
  whatever is announced after it.
\<close>

theorem invalid_header_stops_discovery:
  assumes "dx_try_from X (map upstream_addr (message_upstreams X (mr_upstreams msg))) = Some lb"
    and "get_route_by_key routes (mr_host msg) = None" and "a \<in> set (mr_host_headers_add msg)"
    and "dx_header_name X (rha_name a) = None \<or> dx_header_value X (rha_value a) = None"
  shows "\<exists>m. route_loop X (Received (NewRoute msg) # later) routes = Panic m"
  using parse_headers_panics [OF assms(3,4)] assms(1,2)
  by (auto simp: watch_is_add add_route_to_router_def build_container_def)

theorem invalid_header_stops_discovery_witness:
  "\<exists>m. route_loop (example_disc\<lparr>dx_header_name := (\<lambda>s. if CHR '' '' \<in> set s then None else Some s)\<rparr>)
     [Received (NewRoute \<lparr>mr_host = ''a.io'', mr_upstreams = [''10.0.0.1:80''], mr_path_matchers = [],
        mr_host_headers_add = [\<lparr>rha_name = ''x y'', rha_value = ''1''\<rparr>], mr_host_headers_remove = [],
        mr_plugins = [], mr_self_signed_certs = False\<rparr>)] [] = Panic m"
  by (rule invalid_header_stops_discovery [where a = "\<lparr>rha_name = ''x y'', rha_value = ''1''\<rparr>"])
    (simp_all add: example_disc_def get_route_by_key_def)

end
