(* ===== verification/Net_Addr.thy ===== *)
theory Net_Addr
  imports Rust_Std
begin

text \<open>
  \<open>std::net::SocketAddr::from_str\<close>, which the Docker service uses to drop addresses it cannot
  reach: the standard library's recursive descent parser of \<open>a.b.c.d:port\<close> and
  \<open>[v6%scope]:port\<close>. A reader maps the remaining input to its value and what is left; it consumes
  nothing when it fails, as \<open>read_atomically\<close> does.
\<close>

section \<open>Readers\<close>

type_synonym 'a reader = "string \<Rightarrow> ('a \<times> string) option"

datatype SocketAddr = SocketV4 "nat list" nat | SocketV6 "nat list" nat nat

definition to_digit :: "nat \<Rightarrow> char \<Rightarrow> nat option" where
  "to_digit radix c =
     (let n = of_char c;
          d = (if 48 \<le> n \<and> n \<le> 57 then Some (n - 48)
               else if 97 \<le> n \<and> n \<le> 122 then Some (n - 87)
               else if 65 \<le> n \<and> n \<le> 90 then Some (n - 55) else None)
      in case d of Some v \<Rightarrow> if v < radix then Some v else None | None \<Rightarrow> None)"

definition digits_value :: "nat \<Rightarrow> string \<Rightarrow> nat" where
  "digits_value radix ds = foldl (\<lambda>acc c. radix * acc + unwrap_or 0 (to_digit radix c)) 0 ds"

text \<open>
  All digits are read; too many of them, a leading zero where none is allowed and a value
  beyond the target's type are failures.
\<close>

definition read_number :: "nat \<Rightarrow> nat option \<Rightarrow> bool \<Rightarrow> nat \<Rightarrow> nat reader" where
  "read_number radix max_digits allow_zero_prefix bound s =
     (let ds = takeWhile (\<lambda>c. to_digit radix c \<noteq> None) s
      in if ds = [] \<or> is_some_and (\<lambda>m. m < length ds) max_digits \<or>
            (\<not> allow_zero_prefix \<and> hd ds = CHR ''0'' \<and> 1 < length ds) \<or> bound < digits_value radix ds
         then None else Some (digits_value radix ds, drop (length ds) s))"

fun read_given_char :: "char \<Rightarrow> unit reader" where
  "read_given_char c (x # s) = (if x = c then Some ((), s) else None)"
| "read_given_char c [] = None"

definition read_separator :: "char \<Rightarrow> nat \<Rightarrow> 'a reader \<Rightarrow> 'a reader" where
  "read_separator sep index inner s =
     (if 0 < index then (case read_given_char sep s of Some (_, s') \<Rightarrow> inner s' | None \<Rightarrow> None) else inner s)"

fun read_octets :: "nat \<Rightarrow> nat \<Rightarrow> nat list reader" where
  "read_octets i 0 s = Some ([], s)"
| "read_octets i (Suc n) s =
     (case read_separator (CHR ''.'') i (read_number 10 (Some 3) False 255) s of
        None \<Rightarrow> None
      | Some (b, s') \<Rightarrow> map_option (\<lambda>(bs, r). (b # bs, r)) (read_octets (Suc i) n s'))"

definition read_ipv4_addr :: "nat list reader" where
  "read_ipv4_addr = read_octets 0 4"

definition read_port :: "nat reader" where
  "read_port s = (case read_given_char (CHR '':'') s of
     Some (_, s') \<Rightarrow> read_number 10 None True 65535 s' | None \<Rightarrow> None)"

definition read_socket_addr_v4 :: "SocketAddr reader" where
  "read_socket_addr_v4 s = (case read_ipv4_addr s of
     None \<Rightarrow> None
   | Some (ip, s') \<Rightarrow> map_option (\<lambda>(port, r). (SocketV4 ip port, r)) (read_port s'))"

text \<open>\<open>read_groups i n\<close> reads up to \<open>n\<close> groups from index \<open>i\<close> on, the last two possibly as an IPv4 address.\<close>

fun read_groups :: "nat \<Rightarrow> nat \<Rightarrow> string \<Rightarrow> (nat list \<times> bool) \<times> string" where
  "read_groups i 0 s = (([], False), s)"
| "read_groups i (Suc n) s =
     (case (if 0 < n then read_separator (CHR '':'') i read_ipv4_addr s else None) of
        Some (v4, s') \<Rightarrow> (([256 * v4 ! 0 + v4 ! 1, 256 * v4 ! 2 + v4 ! 3], True), s')
      | None \<Rightarrow>
     (case read_separator (CHR '':'') i (read_number 16 (Some 4) True 65535) s of
        Some (g, s') \<Rightarrow> (case read_groups (Suc i) n s' of ((gs, b), r) \<Rightarrow> ((g # gs, b), r))
      | None \<Rightarrow> (([], False), s)))"

definition read_ipv6_addr :: "nat list reader" where
  "read_ipv6_addr s =
     (case read_groups 0 8 s of
        ((head, head_ipv4), s1) \<Rightarrow>
          if length head = 8 then Some (head, s1)
          else if head_ipv4 then None
          else (case read_given_char (CHR '':'') s1 of None \<Rightarrow> None | Some (_, s2) \<Rightarrow>
               (case read_given_char (CHR '':'') s2 of None \<Rightarrow> None | Some (_, s3) \<Rightarrow>
               (case read_groups 0 (8 - (length head + 1)) s3 of
                  ((tail, _), r) \<Rightarrow> Some (head @ replicate (8 - length head - length tail) 0 @ tail, r)))))"

definition read_scope_id :: "nat reader" where
  "read_scope_id s = (case read_given_char (CHR ''%'') s of
     Some (_, s') \<Rightarrow> read_number 10 None True (2 ^ 32 - 1) s' | None \<Rightarrow> None)"

definition read_socket_addr_v6 :: "SocketAddr reader" where
  "read_socket_addr_v6 s =
     (case read_given_char (CHR ''['') s of None \<Rightarrow> None | Some (_, s1) \<Rightarrow>
     (case read_ipv6_addr s1 of None \<Rightarrow> None | Some (ip, s2) \<Rightarrow>
     (case (case read_scope_id s2 of Some (i, s3) \<Rightarrow> (i, s3) | None \<Rightarrow> (0, s2)) of (scope, s3) \<Rightarrow>
     (case read_given_char (CHR '']'') s3 of None \<Rightarrow> None | Some (_, s4) \<Rightarrow>
       map_option (\<lambda>(port, r). (SocketV6 ip port scope, r)) (read_port s4)))))"

definition parse_socket_addr :: "string \<Rightarrow> SocketAddr option" where
  "parse_socket_addr s =
     (case (case read_socket_addr_v4 s of Some r \<Rightarrow> Some r | None \<Rightarrow> read_socket_addr_v6 s) of
        Some (a, []) \<Rightarrow> Some a
      | _ \<Rightarrow> None)"

text \<open>\<open>Display\<close> of an IPv4 address.\<close>

definition show_ipv4 :: "nat \<Rightarrow> nat \<Rightarrow> nat \<Rightarrow> nat \<Rightarrow> string" where
  "show_ipv4 a b c d = show_nat a @ ''.'' @ show_nat b @ ''.'' @ show_nat c @ ''.'' @ show_nat d"

section \<open>Lemmas\<close>

lemma read_number_None_Nil [simp]: "read_number radix m z bound [] = None"
  by (simp add: read_number_def)

lemma to_digit_10 [simp]: "to_digit 10 c = digit_val c"
  by (auto simp: to_digit_def digit_val_def Let_def)

lemma digit_val_nonempty_dot [simp]: "digit_val (CHR ''.'') = None" "digit_val (CHR '':'') = None"
  by (simp_all add: digit_val_def)

lemma show_nat_digit_val: "c \<in> set (show_nat n) \<Longrightarrow> digit_val c \<noteq> None"
proof (induction n rule: show_nat.induct)
  case (1 n)
  show ?case
  proof (cases "n < 10")
    case True
    with 1(2) show ?thesis by (simp add: show_nat.simps [of n] digit_val_char_of)
  next
    case False
    with 1 show ?thesis by (auto simp: show_nat.simps [of n] digit_val_char_of)
  qed
qed

lemma digits_value_show: "digits_value 10 (show_nat n) = n"
proof (induction n rule: show_nat.induct)
  case (1 n)
  show ?case
  proof (cases "n < 10")
    case True
    then show ?thesis by (simp add: show_nat.simps [of n] digits_value_def digit_val_char_of)
  next
    case False
    with 1 show ?thesis by (simp add: show_nat.simps [of n] digits_value_def digit_val_char_of)
  qed
qed

lemma show_nat_no_leading_zero: "hd (show_nat n) = CHR ''0'' \<Longrightarrow> length (show_nat n) = 1"
proof (induction n rule: show_nat.induct)
  case (1 n)
  show ?case
  proof (cases "n < 10")
    case False
    with 1 have "length (show_nat (n div 10)) = 1" "hd (show_nat (n div 10)) = CHR ''0''"
      by (simp_all add: show_nat.simps [of n])
    moreover from False have "show_nat (n div 10) \<noteq> ''0''"
      using digits_value_show [of "n div 10"] by (auto simp: digits_value_def digit_val_def)
    ultimately show ?thesis by (cases "show_nat (n div 10)") auto
  qed (simp add: show_nat.simps [of n])
qed

lemma show_nat_length: "n < 1000 \<Longrightarrow> length (show_nat n) \<le> 3"
  by (simp add: show_nat.simps [of n] show_nat.simps [of "n div 10"] show_nat.simps [of "n div 10 div 10"])

text \<open>A number that is written and followed by something that is not a digit is read back.\<close>

lemma read_number_show:
  assumes "n \<le> bound" and "rest = [] \<or> digit_val (hd rest) = None"
    and "\<And>m. max_digits = Some m \<Longrightarrow> length (show_nat n) \<le> m"
  shows "read_number 10 max_digits z bound (show_nat n @ rest) = Some (n, rest)"
proof -
  have "takeWhile (\<lambda>c. to_digit 10 c \<noteq> None) (show_nat n @ rest) = show_nat n"
    using assms(2) show_nat_digit_val [of _ n] by (cases rest) (simp_all add: takeWhile_append2 takeWhile_eq_all_conv)
  then show ?thesis
    using assms(1,3) show_nat_no_leading_zero [of n]
    by (auto simp: read_number_def Let_def digits_value_show is_some_and_def split: option.splits)
qed

lemma read_octet_show:
  assumes "n \<le> 255" and "rest = [] \<or> digit_val (hd rest) = None"
  shows "read_number 10 (Some 3) False 255 (show_nat n @ rest) = Some (n, rest)"
  using assms show_nat_length [of n] by (intro read_number_show) auto

lemma read_ipv4_show:
  assumes "a \<le> 255" "b \<le> 255" "c \<le> 255" "d \<le> 255" and "rest = [] \<or> digit_val (hd rest) = None"
  shows "read_ipv4_addr (show_ipv4 a b c d @ rest) = Some ([a, b, c, d], rest)"
proof -
  have *: "read_octets 0 (Suc (Suc (Suc (Suc 0)))) (show_ipv4 a b c d @ rest) = Some ([a, b, c, d], rest)"
    using assms by (simp add: show_ipv4_def read_separator_def read_octet_show)
  then show ?thesis by (simp add: read_ipv4_addr_def numeral_eq_Suc)
qed

text \<open>What the parser accepts has the size it says: four octets, eight groups, a 16-bit port.\<close>

lemma read_number_bound: "read_number radix m z bound s = Some (n, r) \<Longrightarrow> n \<le> bound"
  by (auto simp: read_number_def Let_def split: if_splits)

lemma read_port_bound: "read_port s = Some (p, r) \<Longrightarrow> p \<le> 65535"
  by (auto simp: read_port_def dest: read_number_bound split: option.splits)

lemma read_octets_bound:
  "read_octets i n s = Some (bs, r) \<Longrightarrow> length bs = n \<and> (\<forall>b\<in>set bs. b \<le> 255)"
proof (induction i n s arbitrary: bs r rule: read_octets.induct)
  case (2 i n s)
  from "2.prems" obtain b s' bs' where
    b: "read_separator (CHR ''.'') i (read_number 10 (Some 3) False 255) s = Some (b, s')"
    and bs: "read_octets (Suc i) n s' = Some (bs', r)" "bs = b # bs'"
    by (auto split: option.splits)
  have "b \<le> 255"
    using b by (auto simp: read_separator_def dest: read_number_bound split: if_splits option.splits)
  moreover have "length bs' = n \<and> (\<forall>b\<in>set bs'. b \<le> 255)"
    by (rule "2.IH" [OF b refl bs(1)])
  ultimately show ?case using bs(2) by simp
qed simp

lemma parse_ipv4_socket:
  assumes "a \<le> 255" "b \<le> 255" "c \<le> 255" "d \<le> 255" "p \<le> 65535"
  shows "parse_socket_addr (show_ipv4 a b c d @ '':'' @ show_nat p) = Some (SocketV4 [a, b, c, d] p)"
proof -
  have "read_port ('':'' @ show_nat p) = Some (p, [])"
    using read_number_show [of p 65535 "[]" None True] assms(5) by (simp add: read_port_def)
  with assms(1-4) show ?thesis
    by (simp add: parse_socket_addr_def read_socket_addr_v4_def read_ipv4_show)
qed

end
