(* ===== verification/Docker_Labels.thy ===== *)
theory Docker_Labels
  imports Discovery Net_Addr
begin

text \<open>
  The Docker label service (\<open>services/docker/mod.rs\<close>): reading routes from the labels of swarm
  services or of containers and announcing them to the routing service. The Docker client
  (bollard) and \<open>serde_json::from_str\<close> are parameters; its answer types \<open>service\<close> and \<open>container\<close>
  have the fields the code reads, all of them optional as the client declares them.
  Label maps are hash maps, iterated in list order.
\<close>

section \<open>Data\<close>

record ProksiDockerRoute =
  pd_upstreams :: "string list"
  pd_path_matchers :: "string list"
  pd_host_header_add :: "RouteHeaderAdd list option"
  pd_host_header_remove :: "RouteHeaderRemove list option"
  pd_self_signed_on_failure :: bool
  pd_plugins :: "RoutePlugin list option"

definition docker_route_new :: "string list \<Rightarrow> string list \<Rightarrow> ProksiDockerRoute" where
  "docker_route_new upstreams path_matchers =
     \<lparr>pd_upstreams = upstreams, pd_path_matchers = path_matchers, pd_host_header_add = None,
      pd_host_header_remove = None, pd_self_signed_on_failure = False, pd_plugins = None\<rparr>"

record service =
  dsv_id :: "string option"
  dsv_spec :: "(string option \<times> (string, string) hmap option) option"

record container =
  dct_labels :: "(string, string) hmap option"
  dct_networks :: "(string, string option) hmap option option"

record docker_ext =
  dke_connect_unix :: "string \<Rightarrow> bool"
  dke_connect_http :: "string \<Rightarrow> bool"
  dke_connect_local :: bool
  dke_header_adds :: "string \<Rightarrow> RouteHeaderAdd list option"
  dke_header_removes :: "string \<Rightarrow> RouteHeaderRemove list option"
  dke_json :: "string \<Rightarrow> json option"

text \<open>Which client is built, and whether building it succeeds.\<close>

definition connect_to_docker :: "docker_ext \<Rightarrow> string \<Rightarrow> bool" where
  "connect_to_docker D endpoint =
     (if starts_with ''unix:///'' endpoint then dke_connect_unix D endpoint
      else if starts_with ''tcp://'' endpoint \<or> starts_with ''http'' endpoint then dke_connect_http D endpoint
      else dke_connect_local D)"

definition label_service_new :: "docker_ext \<Rightarrow> ConfigT \<Rightarrow> (string, unit) res" where
  "label_service_new D config =
     (if connect_to_docker D (unwrap_or [] (dk_endpoint (cf_docker config))) then Ok ()
      else Panic ''could not connect to the docker daemon'')"

section \<open>Labels\<close>

text \<open>The local variables of the two loops over labels; containers use only some of them.\<close>

record label_vars =
  lv_enabled :: bool
  lv_host :: string
  lv_port :: string
  lv_patterns :: "string list"
  lv_header_add :: "RouteHeaderAdd list option"
  lv_header_remove :: "RouteHeaderRemove list option"
  lv_self_signed :: bool
  lv_provider :: "string option"
  lv_client_id :: "string option"
  lv_client_secret :: "string option"
  lv_jwt_secret :: "string option"
  lv_validations :: "json option"
  lv_request_id :: bool
  lv_basic_user :: "string option"
  lv_basic_password :: "string option"

definition label_vars_init :: label_vars where
  "label_vars_init = \<lparr>lv_enabled = False, lv_host = [], lv_port = [], lv_patterns = [], lv_header_add = None,
     lv_header_remove = None, lv_self_signed = False, lv_provider = None, lv_client_id = None,
     lv_client_secret = None, lv_jwt_secret = None, lv_validations = None, lv_request_id = False,
     lv_basic_user = None, lv_basic_password = None\<rparr>"

definition PATTERN_PREFIX :: string where
  "PATTERN_PREFIX = ''proksi.match_with.path.pattern.''"

definition service_label :: "docker_ext \<Rightarrow> string \<times> string \<Rightarrow> label_vars \<Rightarrow> label_vars" where
  "service_label D kv vars =
     (let k = fst kv; v = snd kv in
      if \<not> starts_with ''proksi.'' k then vars
      else if k = ''proksi.enabled'' then vars\<lparr>lv_enabled := (v = ''true'')\<rparr>
      else if k = ''proksi.host'' then vars\<lparr>lv_host := v\<rparr>
      else if k = ''proksi.port'' then vars\<lparr>lv_port := v\<rparr>
      else if starts_with PATTERN_PREFIX k then vars\<lparr>lv_patterns := lv_patterns vars @ [v]\<rparr>
      else if k = ''proksi.headers.add'' then vars\<lparr>lv_header_add := Some (unwrap_or [] (dke_header_adds D v))\<rparr>
      else if k = ''proksi.headers.remove'' then vars\<lparr>lv_header_remove := Some (unwrap_or [] (dke_header_removes D v))\<rparr>
      else if k = ''proksi.ssl_certificate.self_signed_on_failure'' then vars\<lparr>lv_self_signed := (v = ''true'')\<rparr>
      else if k = ''proksi.plugins.oauth2.provider'' then vars\<lparr>lv_provider := Some v\<rparr>
      else if k = ''proksi.plugins.oauth2.client_id'' then vars\<lparr>lv_client_id := Some v\<rparr>
      else if k = ''proksi.plugins.oauth2.client_secret'' then vars\<lparr>lv_client_secret := Some v\<rparr>
      else if k = ''proksi.plugins.oauth2.jwt_secret'' then vars\<lparr>lv_jwt_secret := Some v\<rparr>
      else if k = ''proksi.plugins.oauth2.validations''
        then vars\<lparr>lv_validations := Some (unwrap_or (JArray []) (dke_json D v))\<rparr>
      else if k = ''proksi.plugins.request_id.enabled'' then vars\<lparr>lv_request_id := (v = ''true'')\<rparr>
      else if k = ''proksi.plugins.basic_auth.user'' then vars\<lparr>lv_basic_user := Some v\<rparr>
      else if k = ''proksi.plugins.basic_auth.password'' then vars\<lparr>lv_basic_password := Some v\<rparr>
      else vars)"

definition service_labels :: "docker_ext \<Rightarrow> (string, string) hmap \<Rightarrow> label_vars" where
  "service_labels D labels = fold (service_label D) labels label_vars_init"

definition container_label :: "docker_ext \<Rightarrow> string \<times> string \<Rightarrow> label_vars \<Rightarrow> label_vars" where
  "container_label D kv vars =
     (let k = fst kv; v = snd kv in
      if \<not> starts_with ''proksi.'' k then vars
      else if k = ''proksi.enabled'' then vars\<lparr>lv_enabled := (v = ''true'')\<rparr>
      else if k = ''proksi.host'' then vars\<lparr>lv_host := v\<rparr>
      else if k = ''proksi.port'' then vars\<lparr>lv_port := v\<rparr>
      else if k = ''proksi.headers.add'' then vars\<lparr>lv_header_add := Some (unwrap_or [] (dke_header_adds D v))\<rparr>
      else if k = ''proksi.headers.remove'' then vars\<lparr>lv_header_remove := Some (unwrap_or [] (dke_header_removes D v))\<rparr>
      else if k = ''proksi.ssl_certificate.self_signed_on_failure'' then vars\<lparr>lv_self_signed := (v = ''true'')\<rparr>
      else if starts_with PATTERN_PREFIX k then vars\<lparr>lv_patterns := lv_patterns vars @ [v]\<rparr>
      else vars)"

definition container_labels :: "docker_ext \<Rightarrow> (string, string) hmap \<Rightarrow> label_vars" where
  "container_labels D labels = fold (container_label D) labels label_vars_init"

section \<open>Plugins and routes of swarm services\<close>

definition get_oauth2_plugin ::
  "string option \<Rightarrow> string option \<Rightarrow> string option \<Rightarrow> string option \<Rightarrow> json option \<Rightarrow> RoutePlugin option" where
  "get_oauth2_plugin provider client_id client_secret jwt_secret validations =
     (case (provider, client_id, client_secret, jwt_secret, validations) of
        (Some p, Some i, Some cs, Some js, Some vs) \<Rightarrow>
          Some \<lparr>rp_name = ''oauth2'', rp_config = Some
            (hm_insert ''validations'' vs (hm_insert ''jwt_secret'' (JString js)
            (hm_insert ''client_secret'' (JString cs) (hm_insert ''provider'' (JString p)
            (hm_insert ''client_id'' (JString i) [])))))\<rparr>
      | _ \<Rightarrow> None)"

definition service_plugins :: "label_vars \<Rightarrow> RoutePlugin list" where
  "service_plugins vars =
     (case get_oauth2_plugin (lv_provider vars) (lv_client_id vars) (lv_client_secret vars)
             (lv_jwt_secret vars) (lv_validations vars) of Some plugin \<Rightarrow> [plugin] | None \<Rightarrow> []) @
     (if lv_request_id vars then [\<lparr>rp_name = ''request_id'', rp_config = None\<rparr>] else []) @
     (case (lv_basic_user vars, lv_basic_password vars) of
        (Some u, Some p) \<Rightarrow> [\<lparr>rp_name = ''basic_auth'',
           rp_config = Some (hm_insert ''pass'' (JString p) (hm_insert ''user'' (JString u) []))\<rparr>]
      | _ \<Rightarrow> [])"

definition service_route :: "string \<Rightarrow> label_vars \<Rightarrow> ProksiDockerRoute" where
  "service_route service_name vars =
     \<lparr>pd_upstreams = [''tasks.'' @ service_name @ '':'' @ lv_port vars],
      pd_path_matchers = lv_patterns vars,
      pd_host_header_add = lv_header_add vars,
      pd_host_header_remove = lv_header_remove vars,
      pd_self_signed_on_failure = lv_self_signed vars,
      pd_plugins = Some (service_plugins vars)\<rparr>"

abbreviation unwrap_none :: string where
  "unwrap_none \<equiv> ''called `Option::unwrap()` on a `None` value''"

type_synonym host_map = "(string, ProksiDockerRoute) hmap"

definition add_service :: "docker_ext \<Rightarrow> service \<Rightarrow> host_map \<Rightarrow> (string, host_map) res" where
  "add_service D sv host_map =
     (case dsv_id sv of None \<Rightarrow> Panic unwrap_none | Some service_id \<Rightarrow>
     (case dsv_spec sv of None \<Rightarrow> Panic unwrap_none | Some (service_name, labels) \<Rightarrow>
     (case service_name of None \<Rightarrow> Ok host_map | Some name \<Rightarrow>
     (case labels of None \<Rightarrow> Panic unwrap_none | Some service_labels' \<Rightarrow>
       (let vars = service_labels D service_labels' in
        if \<not> lv_enabled vars then Ok host_map
        else if lv_host vars = [] \<or> lv_port vars = [] then Ok host_map
        else if \<not> hm_contains host_map (lv_host vars)
        then Ok (hm_insert (lv_host vars) (service_route name vars) host_map)
        else Ok host_map)))))"

fun add_services :: "docker_ext \<Rightarrow> service list \<Rightarrow> host_map \<Rightarrow> (string, host_map) res" where
  "add_services D [] host_map = Ok host_map"
| "add_services D (sv # svs) host_map = res_bind (add_service D sv host_map) (add_services D svs)"

definition list_services :: "docker_ext \<Rightarrow> service list option \<Rightarrow> (string, host_map) res" where
  "list_services D answer = (case answer of None \<Rightarrow> Ok [] | Some svs \<Rightarrow> add_services D svs [])"

section \<open>Routes of containers\<close>

definition push_upstream :: "string \<Rightarrow> string \<Rightarrow> host_map \<Rightarrow> (string, host_map) res" where
  "push_upstream host u host_map =
     (case hm_get host_map host of
        None \<Rightarrow> Panic unwrap_none
      | Some r \<Rightarrow> Ok (hm_insert host (r\<lparr>pd_upstreams := pd_upstreams r @ [u]\<rparr>) host_map))"

fun add_networks :: "string \<Rightarrow> string \<Rightarrow> string option list \<Rightarrow> host_map \<Rightarrow> (string, host_map) res" where
  "add_networks host port [] host_map = Ok host_map"
| "add_networks host port (None # ips) host_map = Panic unwrap_none"
| "add_networks host port (Some ip # ips) host_map =
     (let ip_plus_port = ip @ '':'' @ port in
      if ip = [] \<or> parse_socket_addr ip_plus_port = None then add_networks host port ips host_map
      else res_bind (push_upstream host ip_plus_port host_map) (add_networks host port ips))"

definition container_route :: "label_vars \<Rightarrow> ProksiDockerRoute" where
  "container_route vars = (docker_route_new [] (lv_patterns vars))\<lparr>
     pd_host_header_add := lv_header_add vars,
     pd_host_header_remove := lv_header_remove vars,
     pd_self_signed_on_failure := lv_self_signed vars\<rparr>"

definition add_container :: "docker_ext \<Rightarrow> container \<Rightarrow> host_map \<Rightarrow> (string, host_map) res" where
  "add_container D ct host_map =
     (case dct_labels ct of None \<Rightarrow> Panic unwrap_none | Some labels \<Rightarrow>
       (let vars = container_labels D labels in
        if \<not> lv_enabled vars then Ok host_map
        else if lv_port vars = [] \<or> lv_host vars = [] then Ok host_map
        else
          (let host_map' = (if \<not> hm_contains host_map (lv_host vars)
                then hm_insert (lv_host vars) (container_route vars) host_map else host_map)
           in case dct_networks ct of
                Some (Some networks) \<Rightarrow> add_networks (lv_host vars) (lv_port vars) (map snd networks) host_map'
              | _ \<Rightarrow> Panic unwrap_none)))"

fun add_containers :: "docker_ext \<Rightarrow> container list \<Rightarrow> host_map \<Rightarrow> (string, host_map) res" where
  "add_containers D [] host_map = Ok host_map"
| "add_containers D (ct # cts) host_map = res_bind (add_container D ct host_map) (add_containers D cts)"

definition list_containers :: "docker_ext \<Rightarrow> container list option \<Rightarrow> (string, host_map) res" where
  "list_containers D answer = (case answer of None \<Rightarrow> Ok [] | Some cts \<Rightarrow> add_containers D cts [])"

section \<open>Announcing the routes\<close>

definition route_message :: "string \<Rightarrow> ProksiDockerRoute \<Rightarrow> MsgRoute" where
  "route_message host value =
     \<lparr>mr_host = host, mr_upstreams = pd_upstreams value, mr_path_matchers = pd_path_matchers value,
      mr_host_headers_add = unwrap_or [] (pd_host_header_add value),
      mr_host_headers_remove = unwrap_or [] (pd_host_header_remove value),
      mr_plugins = unwrap_or [] (pd_plugins value),
      mr_self_signed_certs = pd_self_signed_on_failure value\<rparr>"

fun send_route_message :: "host_map \<Rightarrow> MsgProxy list" where
  "send_route_message [] = []"
| "send_route_message ((host, value) # hosts) =
     (if pd_upstreams value = [] then send_route_message hosts
      else NewRoute (route_message host value) # send_route_message hosts)"

definition FILTERS :: "(string \<times> string list) list" where
  "FILTERS = [(''label'', [''proksi.enabled=true'', ''proksi.host'', ''proksi.port''])]"

text \<open>One answer of the daemon to the two list requests, which are sent with these filters.\<close>

record docker_answers =
  da_services :: "(string \<times> string list) list \<Rightarrow> service list option"
  da_containers :: "(string \<times> string list) list \<Rightarrow> container list option"

definition get_routes_from_docker :: "docker_ext \<Rightarrow> ConfigT \<Rightarrow> docker_answers \<Rightarrow> (string, host_map) res" where
  "get_routes_from_docker D config answers =
     (case dk_mode (cf_docker config) of
        Swarm \<Rightarrow> list_services D (da_services answers FILTERS)
      | Container \<Rightarrow> list_containers D (da_containers answers FILTERS))"

text \<open>
  The service over the answers of successive rounds: the messages it sends, and how it ends.
  \<open>tokio::time::interval\<close> panics on a period of zero.
\<close>

fun docker_rounds :: "docker_ext \<Rightarrow> ConfigT \<Rightarrow> docker_answers list \<Rightarrow> MsgProxy list \<times> (string, unit) res" where
  "docker_rounds D config [] = ([], Ok ())"
| "docker_rounds D config (a # as) =
     (case get_routes_from_docker D config a of
        Ok hosts \<Rightarrow> (case docker_rounds D config as of (ms, r) \<Rightarrow> (send_route_message hosts @ ms, r))
      | Err e \<Rightarrow> ([], Err e)
      | Panic m \<Rightarrow> ([], Panic m))"

definition docker_start_service ::
  "docker_ext \<Rightarrow> ConfigT \<Rightarrow> docker_answers list \<Rightarrow> MsgProxy list \<times> (string, unit) res" where
  "docker_start_service D config rounds =
     (if is_some_and (\<lambda>v. \<not> v) (dk_enabled (cf_docker config)) then ([], Ok ())
      else if unwrap_or 15 (dk_interval_secs (cf_docker config)) = 0 then ([], Panic ''`period` must be non-zero.'')
      else docker_rounds D config rounds)"

section \<open>What the labels mean\<close>

text \<open>
  A reference reading of the labels, without the loop: every setting is looked up under its
  key, and the path patterns are the values of the keys with the pattern prefix.
\<close>

definition label_true :: "(string, string) hmap \<Rightarrow> string \<Rightarrow> bool" where
  "label_true labels k \<longleftrightarrow> hm_get labels k = Some ''true''"

definition label_or_empty :: "(string, string) hmap \<Rightarrow> string \<Rightarrow> string" where
  "label_or_empty labels k = unwrap_or [] (hm_get labels k)"

definition label_patterns :: "(string, string) hmap \<Rightarrow> string list" where
  "label_patterns labels = map snd (filter (\<lambda>kv. starts_with PATTERN_PREFIX (fst kv)) labels)"

definition container_vars :: "docker_ext \<Rightarrow> (string, string) hmap \<Rightarrow> label_vars" where
  "container_vars D labels = label_vars_init\<lparr>
     lv_enabled := label_true labels ''proksi.enabled'',
     lv_host := label_or_empty labels ''proksi.host'',
     lv_port := label_or_empty labels ''proksi.port'',
     lv_patterns := label_patterns labels,
     lv_header_add := map_option (\<lambda>v. unwrap_or [] (dke_header_adds D v)) (hm_get labels ''proksi.headers.add''),
     lv_header_remove := map_option (\<lambda>v. unwrap_or [] (dke_header_removes D v)) (hm_get labels ''proksi.headers.remove''),
     lv_self_signed := label_true labels ''proksi.ssl_certificate.self_signed_on_failure''\<rparr>"

definition service_vars :: "docker_ext \<Rightarrow> (string, string) hmap \<Rightarrow> label_vars" where
  "service_vars D labels = (container_vars D labels)\<lparr>
     lv_provider := hm_get labels ''proksi.plugins.oauth2.provider'',
     lv_client_id := hm_get labels ''proksi.plugins.oauth2.client_id'',
     lv_client_secret := hm_get labels ''proksi.plugins.oauth2.client_secret'',
     lv_jwt_secret := hm_get labels ''proksi.plugins.oauth2.jwt_secret'',
     lv_validations := map_option (\<lambda>v. unwrap_or (JArray []) (dke_json D v)) (hm_get labels ''proksi.plugins.oauth2.validations''),
     lv_request_id := label_true labels ''proksi.plugins.request_id.enabled'',
     lv_basic_user := hm_get labels ''proksi.plugins.basic_auth.user'',
     lv_basic_password := hm_get labels ''proksi.plugins.basic_auth.password''\<rparr>"

text \<open>A loop that overwrites one variable per key leaves the value stored under that key.\<close>

lemma fold_label:
  assumes "\<And>kv s. sel (step kv s) = (if fst kv = key then g (snd kv) else sel s)" and "hm_wf labels"
  shows "sel (fold step labels s) = (case hm_get labels key of Some v \<Rightarrow> g v | None \<Rightarrow> sel s)"
  using assms(2)
proof (induction labels arbitrary: s)
  case (Cons kv labels)
  have "hm_get labels (fst kv) = None" and "hm_wf labels"
    using Cons.prems by (auto simp: hm_wf_def hm_get_def map_of_eq_None_iff)
  with Cons.IH show ?case
    by (cases kv) (auto simp: assms(1) hm_get_def split: option.splits)
qed simp

lemma container_label_fields:
  "lv_enabled (container_label D kv s) = (if fst kv = ''proksi.enabled'' then (snd kv = ''true'') else lv_enabled s)"
  "lv_host (container_label D kv s) = (if fst kv = ''proksi.host'' then snd kv else lv_host s)"
  "lv_port (container_label D kv s) = (if fst kv = ''proksi.port'' then snd kv else lv_port s)"
  "lv_header_add (container_label D kv s) = (if fst kv = ''proksi.headers.add'' then Some (unwrap_or [] (dke_header_adds D (snd kv))) else lv_header_add s)"
  "lv_header_remove (container_label D kv s) = (if fst kv = ''proksi.headers.remove'' then Some (unwrap_or [] (dke_header_removes D (snd kv))) else lv_header_remove s)"
  "lv_self_signed (container_label D kv s) = (if fst kv = ''proksi.ssl_certificate.self_signed_on_failure'' then (snd kv = ''true'') else lv_self_signed s)"
  by (simp_all add: container_label_def Let_def PATTERN_PREFIX_def)

lemma service_label_fields:
  "lv_enabled (service_label D kv s) = (if fst kv = ''proksi.enabled'' then (snd kv = ''true'') else lv_enabled s)"
  "lv_host (service_label D kv s) = (if fst kv = ''proksi.host'' then snd kv else lv_host s)"
  "lv_port (service_label D kv s) = (if fst kv = ''proksi.port'' then snd kv else lv_port s)"
  "lv_header_add (service_label D kv s) = (if fst kv = ''proksi.headers.add'' then Some (unwrap_or [] (dke_header_adds D (snd kv))) else lv_header_add s)"
  "lv_header_remove (service_label D kv s) = (if fst kv = ''proksi.headers.remove'' then Some (unwrap_or [] (dke_header_removes D (snd kv))) else lv_header_remove s)"
  "lv_self_signed (service_label D kv s) = (if fst kv = ''proksi.ssl_certificate.self_signed_on_failure'' then (snd kv = ''true'') else lv_self_signed s)"
  "lv_provider (service_label D kv s) = (if fst kv = ''proksi.plugins.oauth2.provider'' then Some (snd kv) else lv_provider s)"
  "lv_client_id (service_label D kv s) = (if fst kv = ''proksi.plugins.oauth2.client_id'' then Some (snd kv) else lv_client_id s)"
  "lv_client_secret (service_label D kv s) = (if fst kv = ''proksi.plugins.oauth2.client_secret'' then Some (snd kv) else lv_client_secret s)"
  "lv_jwt_secret (service_label D kv s) = (if fst kv = ''proksi.plugins.oauth2.jwt_secret'' then Some (snd kv) else lv_jwt_secret s)"
  "lv_validations (service_label D kv s) = (if fst kv = ''proksi.plugins.oauth2.validations'' then Some (unwrap_or (JArray []) (dke_json D (snd kv))) else lv_validations s)"
  "lv_request_id (service_label D kv s) = (if fst kv = ''proksi.plugins.request_id.enabled'' then (snd kv = ''true'') else lv_request_id s)"
  "lv_basic_user (service_label D kv s) = (if fst kv = ''proksi.plugins.basic_auth.user'' then Some (snd kv) else lv_basic_user s)"
  "lv_basic_password (service_label D kv s) = (if fst kv = ''proksi.plugins.basic_auth.password'' then Some (snd kv) else lv_basic_password s)"
  by (simp_all add: service_label_def Let_def PATTERN_PREFIX_def)

lemma container_label_plugins:
  "lv_provider (container_label D kv s) = lv_provider s" "lv_client_id (container_label D kv s) = lv_client_id s"
  "lv_client_secret (container_label D kv s) = lv_client_secret s" "lv_jwt_secret (container_label D kv s) = lv_jwt_secret s"
  "lv_validations (container_label D kv s) = lv_validations s" "lv_request_id (container_label D kv s) = lv_request_id s"
  "lv_basic_user (container_label D kv s) = lv_basic_user s" "lv_basic_password (container_label D kv s) = lv_basic_password s"
  by (simp_all add: container_label_def Let_def)

lemma container_label_patterns:
  "lv_patterns (container_label D kv s) =
     lv_patterns s @ (if starts_with PATTERN_PREFIX (fst kv) then [snd kv] else [])"
proof (cases "starts_with PATTERN_PREFIX (fst kv)")
  case True
  then obtain t where "fst kv = PATTERN_PREFIX @ t" by (auto simp: starts_with_iff)
  then show ?thesis by (simp add: container_label_def PATTERN_PREFIX_def Let_def)
qed (simp add: container_label_def Let_def)

lemma fold_container_label_patterns:
  "lv_patterns (fold (container_label D) labels s) = lv_patterns s @ label_patterns labels"
  by (induction labels arbitrary: s) (auto simp: container_label_patterns label_patterns_def)

lemma service_label_patterns:
  "lv_patterns (service_label D kv s) =
     lv_patterns s @ (if starts_with PATTERN_PREFIX (fst kv) then [snd kv] else [])"
proof (cases "starts_with PATTERN_PREFIX (fst kv)")
  case True
  then obtain t where "fst kv = PATTERN_PREFIX @ t" by (auto simp: starts_with_iff)
  then show ?thesis by (simp add: service_label_def PATTERN_PREFIX_def Let_def)
qed (simp add: service_label_def Let_def)

lemma fold_service_label_patterns:
  "lv_patterns (fold (service_label D) labels s) = lv_patterns s @ label_patterns labels"
  by (induction labels arbitrary: s) (auto simp: service_label_patterns label_patterns_def)

lemma container_label_fold_plugins:
  "lv_provider (fold (container_label D) labels s) = lv_provider s \<and>
   lv_client_id (fold (container_label D) labels s) = lv_client_id s \<and>
   lv_client_secret (fold (container_label D) labels s) = lv_client_secret s \<and>
   lv_jwt_secret (fold (container_label D) labels s) = lv_jwt_secret s \<and>
   lv_validations (fold (container_label D) labels s) = lv_validations s \<and>
   lv_request_id (fold (container_label D) labels s) = lv_request_id s \<and>
   lv_basic_user (fold (container_label D) labels s) = lv_basic_user s \<and>
   lv_basic_password (fold (container_label D) labels s) = lv_basic_password s"
  by (induction labels arbitrary: s) (simp_all add: container_label_plugins)

lemma container_labels_meaning:
  assumes "hm_wf labels"
  shows "container_labels D labels = container_vars D labels"
proof -
  note container_folds =
    fold_label [where step = "container_label D", OF container_label_fields(1) assms]
    fold_label [where step = "container_label D", OF container_label_fields(2) assms]
    fold_label [where step = "container_label D", OF container_label_fields(3) assms]
    fold_label [where step = "container_label D", OF container_label_fields(4) assms]
    fold_label [where step = "container_label D", OF container_label_fields(5) assms]
    fold_label [where step = "container_label D", OF container_label_fields(6) assms]
  show ?thesis
    by (rule label_vars.equality)
      (simp_all add: container_labels_def container_vars_def container_folds fold_container_label_patterns
        container_label_fold_plugins label_vars_init_def label_true_def label_or_empty_def split: option.splits)
qed

lemma service_labels_meaning:
  assumes "hm_wf labels"
  shows "service_labels D labels = service_vars D labels"
proof -
  note service_folds =
    fold_label [where step = "service_label D", OF service_label_fields(1) assms]
    fold_label [where step = "service_label D", OF service_label_fields(2) assms]
    fold_label [where step = "service_label D", OF service_label_fields(3) assms]
    fold_label [where step = "service_label D", OF service_label_fields(4) assms]
    fold_label [where step = "service_label D", OF service_label_fields(5) assms]
    fold_label [where step = "service_label D", OF service_label_fields(6) assms]
    fold_label [where step = "service_label D", OF service_label_fields(7) assms]
    fold_label [where step = "service_label D", OF service_label_fields(8) assms]
    fold_label [where step = "service_label D", OF service_label_fields(9) assms]
    fold_label [where step = "service_label D", OF service_label_fields(10) assms]
    fold_label [where step = "service_label D", OF service_label_fields(11) assms]
    fold_label [where step = "service_label D", OF service_label_fields(12) assms]
    fold_label [where step = "service_label D", OF service_label_fields(13) assms]
    fold_label [where step = "service_label D", OF service_label_fields(14) assms]
  show ?thesis
    by (rule label_vars.equality)
      (simp_all add: service_labels_def service_vars_def container_vars_def service_folds fold_service_label_patterns
        label_vars_init_def label_true_def label_or_empty_def split: option.splits)
qed

section \<open>What a listing yields\<close>

text \<open>A container whose fields the loop unwraps are all there.\<close>

definition container_complete :: "container \<Rightarrow> bool" where
  "container_complete ct \<longleftrightarrow>
     (\<exists>labels networks. dct_labels ct = Some labels \<and> hm_wf labels \<and>
        dct_networks ct = Some (Some networks) \<and> None \<notin> snd ` set networks)"

definition vars_of :: "docker_ext \<Rightarrow> container \<Rightarrow> label_vars" where
  "vars_of D ct = container_vars D (unwrap_or [] (dct_labels ct))"

definition vars_usable :: "label_vars \<Rightarrow> bool" where
  "vars_usable vars \<longleftrightarrow> lv_enabled vars \<and> lv_host vars \<noteq> [] \<and> lv_port vars \<noteq> []"

definition serves_host :: "docker_ext \<Rightarrow> string \<Rightarrow> container \<Rightarrow> bool" where
  "serves_host D host ct \<longleftrightarrow> vars_usable (vars_of D ct) \<and> lv_host (vars_of D ct) = host"

definition reachable_ips :: "string \<Rightarrow> string option list \<Rightarrow> string list" where
  "reachable_ips port ips = List.map_filter (\<lambda>ip.
     Option.bind ip (\<lambda>a. if a = [] \<or> parse_socket_addr (a @ '':'' @ port) = None then None else Some (a @ '':'' @ port))) ips"

definition addresses :: "docker_ext \<Rightarrow> container \<Rightarrow> string list" where
  "addresses D ct = reachable_ips (lv_port (vars_of D ct))
     (map snd (unwrap_or [] (unwrap_or None (dct_networks ct))))"

text \<open>The route of a host is described by its first container and reaches all of them.\<close>

definition host_route :: "docker_ext \<Rightarrow> container list \<Rightarrow> string \<Rightarrow> ProksiDockerRoute option" where
  "host_route D cts host =
     (case filter (serves_host D host) cts of
        [] \<Rightarrow> None
      | ct # others \<Rightarrow> Some ((container_route (vars_of D ct))\<lparr>pd_upstreams := concat (map (addresses D) (ct # others))\<rparr>))"

lemma reachable_ips_simps [simp]:
  "reachable_ips port [] = []"
  "reachable_ips port (Some ip # ips) =
     (if ip = [] \<or> parse_socket_addr (ip @ '':'' @ port) = None then reachable_ips port ips
      else (ip @ '':'' @ port) # reachable_ips port ips)"
  by (simp_all add: reachable_ips_def List.map_filter_simps)

lemma add_networks_result:
  assumes "None \<notin> set ips" and "hm_get m host = Some r" and "hm_wf m"
  shows "\<exists>m'. add_networks host port ips m = Ok m' \<and> hm_wf m' \<and>
    hm_get m' = (hm_get m)(host \<mapsto> r\<lparr>pd_upstreams := pd_upstreams r @ reachable_ips port ips\<rparr>)"
  using assms
proof (induction host port ips m arbitrary: r rule: add_networks.induct)
  case (1 host port m)
  then show ?case by (auto simp: fun_upd_idem)
next
  case (3 host port ip ips m)
  show ?case
  proof (cases "ip = [] \<or> parse_socket_addr (ip @ '':'' @ port) = None")
    case True
    with 3 show ?thesis by simp
  next
    case False
    let ?r = "r\<lparr>pd_upstreams := pd_upstreams r @ [ip @ '':'' @ port]\<rparr>"
    have push: "push_upstream host (ip @ '':'' @ port) m = Ok (hm_insert host ?r m)"
      using "3.prems" by (simp add: push_upstream_def)
    have "\<exists>m'. add_networks host port ips (hm_insert host ?r m) = Ok m' \<and> hm_wf m' \<and>
        hm_get m' = (hm_get (hm_insert host ?r m))(host \<mapsto> ?r\<lparr>pd_upstreams := pd_upstreams ?r @ reachable_ips port ips\<rparr>)"
      using "3.prems" False by (intro "3.IH"(2) [OF refl]) auto
    with False push show ?thesis by (auto simp: fun_eq_iff)
  qed
qed simp_all

lemma add_container_result:
  assumes "container_complete ct" and "hm_wf m"
  shows "\<exists>m'. add_container D ct m = Ok m' \<and> hm_wf m' \<and>
    (\<forall>h. hm_get m' h =
      (if serves_host D h ct then
         (let r = unwrap_or (container_route (vars_of D ct)) (hm_get m h)
          in Some (r\<lparr>pd_upstreams := pd_upstreams r @ addresses D ct\<rparr>))
       else hm_get m h))"
proof -
  obtain labels networks where ct: "dct_labels ct = Some labels" "hm_wf labels"
    "dct_networks ct = Some (Some networks)" "None \<notin> snd ` set networks"
    using assms(1) by (auto simp: container_complete_def)
  have vars: "container_labels D labels = vars_of D ct"
    by (simp add: vars_of_def ct container_labels_meaning)
  show ?thesis
  proof (cases "vars_usable (vars_of D ct)")
    case False
    then show ?thesis
      using assms(2) by (auto simp: add_container_def ct vars Let_def vars_usable_def serves_host_def)
  next
    case True
    let ?h = "lv_host (vars_of D ct)" and ?p = "lv_port (vars_of D ct)"
    let ?m = "if \<not> hm_contains m ?h then hm_insert ?h (container_route (vars_of D ct)) m else m"
    let ?r = "unwrap_or (container_route (vars_of D ct)) (hm_get m ?h)"
    have r: "hm_get ?m ?h = Some ?r" "hm_wf ?m" and other: "h \<noteq> ?h \<Longrightarrow> hm_get ?m h = hm_get m h" for h
      using assms(2) by (auto simp: hm_contains_def)
    have "None \<notin> set (map snd networks)" using ct(4) by simp
    from add_networks_result [OF this r(1,2), of ?p] obtain m' where m': "hm_wf m'"
      "add_networks ?h ?p (map snd networks) ?m = Ok m'"
      "hm_get m' = (hm_get ?m)(?h \<mapsto> ?r\<lparr>pd_upstreams := pd_upstreams ?r @ reachable_ips ?p (map snd networks)\<rparr>)"
      by blast
    have "add_container D ct m = Ok m'"
      using True m'(2) by (simp add: add_container_def ct vars Let_def vars_usable_def)
    moreover have "addresses D ct = reachable_ips ?p (map snd networks)"
      by (simp add: addresses_def ct)
    ultimately show ?thesis
      using True m'(1) other by (auto simp: m'(3) serves_host_def Let_def)
  qed
qed

lemma add_containers_result:
  assumes "\<forall>ct\<in>set cts. container_complete ct" and "hm_wf m"
  shows "\<exists>m'. add_containers D cts m = Ok m' \<and> hm_wf m' \<and>
    (\<forall>h. hm_get m' h = (case hm_get m h of
        Some r \<Rightarrow> Some (r\<lparr>pd_upstreams := pd_upstreams r @ concat (map (addresses D) (filter (serves_host D h) cts))\<rparr>)
      | None \<Rightarrow> host_route D cts h))"
  using assms
proof (induction cts arbitrary: m)
  case Nil
  then show ?case by (auto simp: host_route_def split: option.splits)
next
  case (Cons ct cts)
  obtain m1 where m1: "add_container D ct m = Ok m1" "hm_wf m1"
    "\<And>h. hm_get m1 h = (if serves_host D h ct then
         (let r = unwrap_or (container_route (vars_of D ct)) (hm_get m h)
          in Some (r\<lparr>pd_upstreams := pd_upstreams r @ addresses D ct\<rparr>)) else hm_get m h)"
    using add_container_result [of ct m D] Cons.prems by auto
  obtain m2 where m2: "add_containers D cts m1 = Ok m2" "hm_wf m2"
    "\<And>h. hm_get m2 h = (case hm_get m1 h of
        Some r \<Rightarrow> Some (r\<lparr>pd_upstreams := pd_upstreams r @ concat (map (addresses D) (filter (serves_host D h) cts))\<rparr>)
      | None \<Rightarrow> host_route D cts h)"
    using Cons.IH [of m1] Cons.prems m1(2) by auto
  have "pd_upstreams (container_route v) = []" for v
    by (simp add: container_route_def docker_route_new_def)
  then have "hm_get m2 h = (case hm_get m h of
        Some r \<Rightarrow> Some (r\<lparr>pd_upstreams := pd_upstreams r @ concat (map (addresses D) (filter (serves_host D h) (ct # cts)))\<rparr>)
      | None \<Rightarrow> host_route D (ct # cts) h)" for h
    by (simp add: m2(3) m1(3) host_route_def Let_def split: option.splits)
  with m1(1) m2(1,2) show ?case by simp
qed

text \<open>Swarm services: the first usable service of a host is its route.\<close>

definition service_complete :: "service \<Rightarrow> bool" where
  "service_complete sv \<longleftrightarrow> dsv_id sv \<noteq> None \<and>
     (\<exists>name labels. dsv_spec sv = Some (Some name, Some labels) \<and> hm_wf labels)"

definition service_name :: "service \<Rightarrow> string" where
  "service_name sv = unwrap_or [] (Option.bind (dsv_spec sv) fst)"

definition service_vars_of :: "docker_ext \<Rightarrow> service \<Rightarrow> label_vars" where
  "service_vars_of D sv = service_vars D (unwrap_or [] (Option.bind (dsv_spec sv) snd))"

definition service_serves :: "docker_ext \<Rightarrow> string \<Rightarrow> service \<Rightarrow> bool" where
  "service_serves D host sv \<longleftrightarrow> vars_usable (service_vars_of D sv) \<and> lv_host (service_vars_of D sv) = host"

definition swarm_route :: "docker_ext \<Rightarrow> service list \<Rightarrow> string \<Rightarrow> ProksiDockerRoute option" where
  "swarm_route D svs host =
     map_option (\<lambda>sv. service_route (service_name sv) (service_vars_of D sv)) (find (service_serves D host) svs)"

lemma add_service_result:
  assumes "service_complete sv" and "hm_wf m"
  shows "\<exists>m'. add_service D sv m = Ok m' \<and> hm_wf m' \<and>
    (\<forall>h. hm_get m' h = (case hm_get m h of Some r \<Rightarrow> Some r | None \<Rightarrow>
       if service_serves D h sv then Some (service_route (service_name sv) (service_vars_of D sv)) else None))"
proof -
  obtain i name labels where sv: "dsv_id sv = Some i" "dsv_spec sv = Some (Some name, Some labels)" "hm_wf labels"
    using assms(1) by (auto simp: service_complete_def)
  have vars: "service_labels D labels = service_vars_of D sv" "service_name sv = name"
    by (simp_all add: service_vars_of_def service_name_def sv service_labels_meaning)
  show ?thesis
  proof (cases "vars_usable (service_vars_of D sv) \<and> \<not> hm_contains m (lv_host (service_vars_of D sv))")
    case True
    then have "add_service D sv m = Ok (hm_insert (lv_host (service_vars_of D sv))
        (service_route name (service_vars_of D sv)) m)"
      by (simp add: add_service_def sv vars Let_def vars_usable_def)
    with True assms(2) show ?thesis
      by (auto simp: vars service_serves_def hm_contains_def split: option.splits)
  next
    case False
    then have "add_service D sv m = Ok m"
      by (auto simp: add_service_def sv vars Let_def vars_usable_def)
    with False assms(2) show ?thesis
      by (auto simp: service_serves_def hm_contains_def split: option.splits)
  qed
qed

lemma add_services_result:
  assumes "\<forall>sv\<in>set svs. service_complete sv" and "hm_wf m"
  shows "\<exists>m'. add_services D svs m = Ok m' \<and> hm_wf m' \<and>
    (\<forall>h. hm_get m' h = (case hm_get m h of Some r \<Rightarrow> Some r | None \<Rightarrow> swarm_route D svs h))"
  using assms
proof (induction svs arbitrary: m)
  case Nil
  then show ?case by (auto simp: swarm_route_def split: option.splits)
next
  case (Cons sv svs)
  obtain m1 where m1: "add_service D sv m = Ok m1" "hm_wf m1"
    "\<And>h. hm_get m1 h = (case hm_get m h of Some r \<Rightarrow> Some r | None \<Rightarrow>
       if service_serves D h sv then Some (service_route (service_name sv) (service_vars_of D sv)) else None)"
    using add_service_result [of sv m D] Cons.prems by auto
  obtain m2 where m2: "add_services D svs m1 = Ok m2" "hm_wf m2"
    "\<And>h. hm_get m2 h = (case hm_get m1 h of Some r \<Rightarrow> Some r | None \<Rightarrow> swarm_route D svs h)"
    using Cons.IH [of m1] Cons.prems m1(2) by auto
  have "hm_get m2 h = (case hm_get m h of Some r \<Rightarrow> Some r | None \<Rightarrow> swarm_route D (sv # svs) h)" for h
    by (simp add: m2(3) m1(3) swarm_route_def split: option.splits)
  with m1(1) m2(1,2) show ?case by simp
qed

section \<open>From the listing to the route table\<close>

lemma send_route_message_map:
  "send_route_message hosts = map (\<lambda>(h, r). NewRoute (route_message h r)) (filter (\<lambda>(h, r). pd_upstreams r \<noteq> []) hosts)"
  by (induction hosts rule: send_route_message.induct) auto

definition announcements :: "host_map \<Rightarrow> MsgRoute list" where
  "announcements hosts = map (\<lambda>(h, r). route_message h r) (filter (\<lambda>(h, r). pd_upstreams r \<noteq> []) hosts)"

lemma send_route_message_announcements: "send_route_message hosts = map NewRoute (announcements hosts)"
  by (auto simp: send_route_message_map announcements_def)

lemma announcements_hosts: "map mr_host (announcements hosts) = map fst (filter (\<lambda>(h, r). pd_upstreams r \<noteq> []) hosts)"
  by (auto simp: announcements_def route_message_def)

lemma announcements_distinct: "hm_wf hosts \<Longrightarrow> distinct (map mr_host (announcements hosts))"
  unfolding announcements_hosts by (simp add: hm_wf_def distinct_map_filter)

lemma announcement_of:
  "hm_get hosts h = Some r \<Longrightarrow> pd_upstreams r \<noteq> [] \<Longrightarrow> route_message h r \<in> set (announcements hosts)"
  by (auto simp: announcements_def dest!: hm_get_SomeD)

text \<open>Announcements of different hosts do not disturb each other.\<close>

lemma route_loop_installs:
  assumes "route_loop X (map (\<lambda>m. Received (NewRoute m)) ms) routes = Ok routes'"
    and "distinct (map mr_host ms)" and "msg \<in> set ms"
  shows "\<exists>before after. watch_for_route_changes X msg before = Ok after \<and>
    get_route_by_key before (mr_host msg) = get_route_by_key routes (mr_host msg) \<and>
    get_route_by_key routes' (mr_host msg) = get_route_by_key after (mr_host msg)"
  using assms
proof (induction ms arbitrary: routes)
  case (Cons m ms)
  from Cons.prems(1) obtain t where t: "watch_for_route_changes X m routes = Ok t"
    "route_loop X (map (\<lambda>m. Received (NewRoute m)) ms) t = Ok routes'"
    by (auto simp: res_bind_Ok_iff)
  have untouched: "get_route_by_key r' k = get_route_by_key r k"
    if "route_loop X (map (\<lambda>m. Received (NewRoute m)) ns) r = Ok r'" "k \<notin> mr_host ` set ns" for ns r r' k
    using that by (induction ns arbitrary: r) (auto simp: res_bind_Ok_iff watch_is_add dest: add_route_other_host)
  show ?case
  proof (cases "msg = m")
    case True
    with Cons.prems(2) have "mr_host msg \<notin> mr_host ` set ms" by simp
    from untouched [OF t(2) this] t(1) True show ?thesis by blast
  next
    case False
    with Cons.prems have msg: "msg \<in> set ms" by auto
    then have other: "mr_host msg \<noteq> mr_host m" 
      using Cons.prems(2) by (metis distinct.simps(2) image_eqI list.set_map list.simps(9))
    from Cons.IH [OF t(2)] Cons.prems(2) msg obtain b a where
      "watch_for_route_changes X msg b = Ok a" "get_route_by_key b (mr_host msg) = get_route_by_key t (mr_host msg)"
      "get_route_by_key routes' (mr_host msg) = get_route_by_key a (mr_host msg)" by auto
    moreover have "get_route_by_key t (mr_host msg) = get_route_by_key routes (mr_host msg)"
      using t(1) other by (auto simp: watch_is_add dest: add_route_other_host)
    ultimately show ?thesis by auto
  qed
qed simp

lemma watch_installs:
  assumes "watch_for_route_changes X msg before = Ok after" and "get_route_by_key before (mr_host msg) = None"
    and "dx_try_from X (map upstream_addr (message_upstreams X (mr_upstreams msg))) = Some lb"
  shows "\<exists>rc. get_route_by_key after (mr_host msg) = Some rc \<and>
    co_upstreams rc = message_upstreams X (mr_upstreams msg) \<and>
    co_load_balancer rc = dx_health_checked X lb HEALTH_CHECK_FREQUENCY \<and>
    co_plugins rc = insert_plugins (mr_plugins msg) [] \<and>
    co_host_header_remove rc = map rhr_name (mr_host_headers_remove msg) \<and>
    co_self_signed_certificate rc = mr_self_signed_certs msg \<and> co_cache rc = None"
proof -
  let ?m = "if mr_path_matchers msg \<noteq> [] then Some \<lparr>rm_path = Some \<lparr>rpm_patterns = mr_path_matchers msg\<rparr>\<rparr> else None"
  let ?h = "Some \<lparr>rh_add = Some (mr_host_headers_add msg), rh_remove = Some (mr_host_headers_remove msg)\<rparr>"
  obtain rc where rc: "build_container X lb (message_upstreams X (mr_upstreams msg)) ?m ?h (Some (mr_plugins msg))
      None (mr_self_signed_certs msg) = Ok rc" and a: "after = insert_route (mr_host msg) rc before"
    using assms by (auto simp: watch_is_add add_route_to_router_def res_bind_Ok_iff)
  show ?thesis using build_container_fields [OF rc] a by simp
qed

text \<open>A new host of a listing has the listed route once its round has been received.\<close>

lemma announced_host_is_routed:
  assumes "hm_wf hosts" and "hm_get hosts host = Some r" and "pd_upstreams r \<noteq> []"
    and "route_loop X (map Received (send_route_message hosts)) routes = Ok routes'"
    and "get_route_by_key routes host = None"
    and "dx_try_from X (map upstream_addr (message_upstreams X (pd_upstreams r))) = Some lb"
  shows "\<exists>rc. get_route_by_key routes' host = Some rc \<and>
    co_upstreams rc = message_upstreams X (pd_upstreams r) \<and>
    co_load_balancer rc = dx_health_checked X lb HEALTH_CHECK_FREQUENCY \<and>
    co_plugins rc = insert_plugins (unwrap_or [] (pd_plugins r)) []"
proof -
  let ?msg = "route_message host r"
  have msg: "mr_host ?msg = host" "mr_upstreams ?msg = pd_upstreams r" "mr_plugins ?msg = unwrap_or [] (pd_plugins r)"
    by (simp_all add: route_message_def)
  moreover have "route_loop X (map (\<lambda>m. Received (NewRoute m)) (announcements hosts)) routes = Ok routes'"
    using assms(4) by (simp add: send_route_message_announcements comp_def)
  ultimately obtain before after where w: "watch_for_route_changes X ?msg before = Ok after"
    "get_route_by_key before host = None" "get_route_by_key routes' host = get_route_by_key after host"
    using route_loop_installs [of X "announcements hosts" routes routes' ?msg] announcements_distinct [OF assms(1)]
      announcement_of [OF assms(2,3)] assms(5) by auto
  from watch_installs [OF w(1)] w(2,3) msg assms(6) show ?thesis by auto
qed

section \<open>A concrete daemon\<close>

definition example_docker :: docker_ext where
  "example_docker = \<lparr>dke_connect_unix = (\<lambda>_. True), dke_connect_http = (\<lambda>_. True), dke_connect_local = True,
     dke_header_adds = (\<lambda>v. Some [\<lparr>rha_name = v, rha_value = v\<rparr>]), dke_header_removes = (\<lambda>_. None),
     dke_json = (\<lambda>_. None)\<rparr>"

definition example_labels :: "(string, string) hmap" where
  "example_labels = [(''proksi.port'', ''80''), (''proksi.enabled'', ''true''), (''com.other'', ''x''),
     (''proksi.match_with.path.pattern.0'', ''/api''), (''proksi.host'', ''a.io'')]"

definition example_ct :: "nat \<Rightarrow> container" where
  "example_ct n = \<lparr>dct_labels = Some example_labels, dct_networks = Some (Some
     [(''internal'', Some []), (''bridge'', Some (show_ipv4 10 0 0 n))])\<rparr>"

lemma example_labels_wf: "hm_wf example_labels"
  by (simp add: hm_wf_def example_labels_def)

lemma example_ct_complete: "container_complete (example_ct n)"
  using example_labels_wf by (auto simp: container_complete_def example_ct_def)

lemma example_ct_vars:
  "vars_of D (example_ct n) = label_vars_init\<lparr>lv_enabled := True, lv_host := ''a.io'', lv_port := ''80'', lv_patterns := [''/api'']\<rparr>"
  by (simp add: vars_of_def example_ct_def container_vars_def example_labels_def label_true_def label_or_empty_def
      label_patterns_def PATTERN_PREFIX_def hm_get_def label_vars_init_def)

lemma example_ct_serves: "serves_host D ''a.io'' (example_ct n)"
  by (simp add: serves_host_def example_ct_vars vars_usable_def label_vars_init_def)

lemma example_ct_addresses:
  assumes "n \<le> 255"
  shows "addresses D (example_ct n) = [show_ipv4 10 0 0 n @ '':80'']"
proof -
  have "show_nat 80 = ''80''"
    by (simp add: show_nat.simps [of 80] show_nat.simps [of 8] char_of_eq_iff)
  then have "parse_socket_addr (show_ipv4 10 0 0 n @ '':'' @ ''80'') \<noteq> None"
    using parse_ipv4_socket [of 10 0 0 n 80] assms by simp
  moreover have "show_ipv4 10 0 0 n \<noteq> []" by (simp add: show_ipv4_def)
  ultimately show ?thesis
    unfolding addresses_def example_ct_vars by (simp add: example_ct_def)
qed

section \<open>Properties\<close>

lemma other_label_ignored:
  "k \<in> {''proksi.enable'', ''proksi.path.prefix'', ''proksi.path.suffix''} \<Longrightarrow> service_label D (k, v) vars = vars"
  by (elim insertE emptyE) (simp_all only: service_label_def fst_conv snd_conv Let_def, simp_all add: PATTERN_PREFIX_def)

lemma other_labels_ignored:
  assumes "\<And>k v. k \<in> K \<Longrightarrow> service_label D (k, v) = id"
  shows "fold (service_label D) (filter (\<lambda>kv. fst kv \<notin> K) labels) vars = fold (service_label D) labels vars"
  using assms by (induction labels arbitrary: vars) auto

text \<open>
  C26. The loop over the labels of a swarm service reads every setting under the one key it compares with,
  whatever the iteration order of the label map: only the order of the path patterns depends on it.
  The labels \<open>proksi.enable\<close>, \<open>proksi.path.prefix\<close> and \<open>proksi.path.suffix\<close>, which the documentation of
  the swarm mode describes, are none of these keys: without them the outcome is the same.
\<close>

theorem service_labels_are_looked_up:
  assumes "hm_wf labels" and "hm_wf labels'" and "set labels' = set labels"
  shows "service_labels D labels = service_vars D labels \<and>
    (service_labels D labels')\<lparr>lv_patterns := []\<rparr> = (service_labels D labels)\<lparr>lv_patterns := []\<rparr> \<and>
    set (lv_patterns (service_labels D labels')) = set (lv_patterns (service_labels D labels)) \<and>
    service_labels D (filter (\<lambda>kv. fst kv \<notin> {''proksi.enable'', ''proksi.path.prefix'', ''proksi.path.suffix''}) labels) =
      service_labels D labels"
proof -
  have same: "hm_get labels' = hm_get labels"
    using hm_get_same_set [OF assms(2,1,3)] .
  have "(service_vars D labels')\<lparr>lv_patterns := []\<rparr> = (service_vars D labels)\<lparr>lv_patterns := []\<rparr>"
    by (simp add: service_vars_def container_vars_def label_true_def label_or_empty_def same)
  moreover have "set (lv_patterns (service_vars D labels')) = set (lv_patterns (service_vars D labels))"
    using assms(3) by (auto simp: service_vars_def container_vars_def label_patterns_def)
  moreover have "service_labels D (filter (\<lambda>kv. fst kv \<notin> {''proksi.enable'', ''proksi.path.prefix'', ''proksi.path.suffix''}) labels) =
      service_labels D labels"
    unfolding service_labels_def by (rule other_labels_ignored) (simp add: fun_eq_iff other_label_ignored)
  ultimately show ?thesis
    by (simp only: service_labels_meaning assms)
qed

theorem service_labels_are_looked_up_witness:
  "lv_host (service_labels example_docker (rev example_labels)) = ''a.io''"
proof -
  have wf: "hm_wf (rev example_labels)"
    using example_labels_wf by (simp add: hm_wf_def rev_map [symmetric])
  have "service_labels example_docker (rev example_labels) = service_vars example_docker (rev example_labels)"
    using service_labels_are_looked_up [OF wf example_labels_wf] by simp
  then show ?thesis
    by (simp add: service_vars_def container_vars_def label_or_empty_def hm_get_def example_labels_def)
qed

text \<open>
  C12. A listing of containers with all their fields never panics and gives every host the route of
  its containers: described by the first of them, with the parsable addresses of all of them, in
  order; hosts without a usable container get none.
\<close>

theorem containers_become_routes:
  assumes "\<forall>ct\<in>set cts. container_complete ct"
  shows "\<exists>hosts. list_containers D (Some cts) = Ok hosts \<and> hm_wf hosts \<and> hm_get hosts = host_route D cts"
  using add_containers_result [OF assms, of "[]" D] by (auto simp: list_containers_def)

theorem containers_become_routes_witness:
  "\<exists>hosts r. list_containers example_docker (Some [example_ct 1, example_ct 2]) = Ok hosts \<and>
     hm_get hosts ''a.io'' = Some r \<and> pd_upstreams r = [show_ipv4 10 0 0 1 @ '':80'', show_ipv4 10 0 0 2 @ '':80'']"
proof -
  have "\<forall>ct\<in>set [example_ct 1, example_ct 2]. container_complete ct"
    using example_ct_complete by simp
  from containers_become_routes [OF this] show ?thesis
    by (fastforce simp: host_route_def example_ct_serves example_ct_addresses)
qed

text \<open>
  A listing of swarm services gives every host the route of its first usable service: one
  upstream, the service's name in the overlay network, and the plugins its labels configure.
\<close>

theorem services_become_routes:
  assumes "\<forall>sv\<in>set svs. service_complete sv"
  shows "\<exists>hosts. list_services D (Some svs) = Ok hosts \<and> hm_wf hosts \<and> hm_get hosts = swarm_route D svs"
  using add_services_result [OF assms, of "[]" D] by (auto simp: list_services_def)

theorem services_become_routes_witness:
  "\<exists>hosts. list_services example_docker (Some [\<lparr>dsv_id = Some ''1'', dsv_spec = Some (Some ''web'', Some example_labels)\<rparr>]) = Ok hosts \<and>
     map_option pd_upstreams (hm_get hosts ''a.io'') = Some [''tasks.web:80'']"
proof -
  let ?sv = "\<lparr>dsv_id = Some ''1'', dsv_spec = Some (Some ''web'', Some example_labels)\<rparr>"
  have "\<forall>sv\<in>set [?sv]. service_complete sv"
    using example_labels_wf by (simp add: service_complete_def)
  from services_become_routes [OF this, of example_docker] obtain hosts where
    h: "list_services example_docker (Some [?sv]) = Ok hosts" "hm_get hosts = swarm_route example_docker [?sv]" by blast
  have "map_option pd_upstreams (swarm_route example_docker [?sv] ''a.io'') = Some [''tasks.web:80'']"
    by (simp add: swarm_route_def service_serves_def service_vars_of_def service_name_def service_vars_def
        container_vars_def label_vars_init_def vars_usable_def label_true_def label_or_empty_def hm_get_def
        example_labels_def service_route_def)
  with h show ?thesis by auto
qed

text \<open>
  A new host served by reachable containers has a route once the routing service has received
  what one round of the Docker service sends: its upstreams are the addresses of all its
  containers, and no plugin is active, whatever the plugin labels say.
\<close>

theorem container_host_is_routed:
  assumes "\<forall>ct\<in>set cts. container_complete ct"
    and "host_route D cts host = Some r" and "pd_upstreams r \<noteq> []"
    and "list_containers D (Some cts) = Ok hosts"
    and "route_loop X (map Received (send_route_message hosts)) routes = Ok routes'"
    and "get_route_by_key routes host = None"
    and "dx_try_from X (map upstream_addr (message_upstreams X (pd_upstreams r))) = Some lb"
  shows "\<exists>rc. get_route_by_key routes' host = Some rc \<and>
    co_upstreams rc = message_upstreams X (concat (map (addresses D) (filter (serves_host D host) cts))) \<and>
    co_load_balancer rc = dx_health_checked X lb HEALTH_CHECK_FREQUENCY \<and> co_plugins rc = []"
proof -
  have hosts: "hm_wf hosts" "hm_get hosts host = Some r"
    using add_containers_result [OF assms(1), of "[]" D] assms(2,4) by (auto simp: list_containers_def)
  obtain ct others where f: "filter (serves_host D host) cts = ct # others" and
    r: "r = (container_route (vars_of D ct))\<lparr>pd_upstreams := concat (map (addresses D) (ct # others))\<rparr>"
    using assms(2) by (auto simp: host_route_def split: list.splits)
  have "pd_plugins r = None"
    by (simp add: r container_route_def docker_route_new_def)
  with announced_host_is_routed [OF hosts assms(3,5,6,7)] show ?thesis
    using f r by auto
qed

theorem container_host_is_routed_witness:
  "\<exists>hosts routes' rc. list_containers example_docker (Some [example_ct 1]) = Ok hosts \<and>
     route_loop example_disc (map Received (send_route_message hosts)) [] = Ok routes' \<and>
     get_route_by_key routes' ''a.io'' = Some rc \<and> length (co_upstreams rc) = 1"
proof -
  have c: "\<forall>ct\<in>set [example_ct 1]. container_complete ct" using example_ct_complete by simp
  obtain hosts where h: "list_containers example_docker (Some [example_ct 1]) = Ok hosts"
    using add_containers_result [OF c, of "[]" example_docker] by (auto simp: list_containers_def)
  obtain routes' where r: "route_loop example_disc (map Received (send_route_message hosts)) [] = Ok routes'"
    using route_loop_total [of "announcements hosts" example_disc "[]"]
    by (auto simp: send_route_message_announcements comp_def headers_valid_def example_disc_def)
  let ?u = "show_ipv4 10 0 0 1 @ '':80''"
  have route: "host_route example_docker [example_ct 1] ''a.io'' =
      Some ((container_route (vars_of example_docker (example_ct 1)))\<lparr>pd_upstreams := [?u]\<rparr>)"
    by (simp add: host_route_def example_ct_serves example_ct_addresses)
  have "\<exists>rc. get_route_by_key routes' ''a.io'' = Some rc \<and>
      co_upstreams rc = message_upstreams example_disc
        (concat (map (addresses example_docker) (filter (serves_host example_docker ''a.io'') [example_ct 1]))) \<and>
      co_load_balancer rc = dx_health_checked example_disc (map upstream_addr (message_upstreams example_disc [?u]))
        HEALTH_CHECK_FREQUENCY \<and> co_plugins rc = []"
    by (rule container_host_is_routed [OF c route _ h r]) (simp_all add: get_route_by_key_def example_disc_def)
  with h r show ?thesis
    by (auto simp: example_ct_serves example_ct_addresses message_upstreams_def example_disc_def)
qed

end
