(* ===== verification/Acme_Storage.thy ===== *)
theory Acme_Storage
  imports Cert_Store Config
begin

text \<open>
  Where the ACME client keeps accounts and certificates (\<open>services/letsencrypt/storage.rs\<close>): a
  directory chosen by the environment, or the Redis server. The client's own \<open>FilePersist\<close>, the
  file system and Redis are parameters.
\<close>

section \<open>Paths\<close>

text \<open>
  \<open>std::path::absolute\<close> on Unix: empty components and single dots are dropped, a relative path
  starts at the current directory, a trailing slash stays.
\<close>

definition path_components :: "string \<Rightarrow> string list" where
  "path_components p = filter (\<lambda>c. c \<noteq> [] \<and> c \<noteq> ''.'') (split_on (CHR ''/'') p)"

definition ends_with_slash :: "string \<Rightarrow> bool" where
  "ends_with_slash p \<longleftrightarrow> p \<noteq> [] \<and> last p = CHR ''/''"

definition path_absolute :: "string option \<Rightarrow> string \<Rightarrow> string option" where
  "path_absolute cwd p =
     (if p = [] then None
      else map_option (\<lambda>root.
          (let q = fold (\<lambda>c r. path_join r c) (path_components p) root
           in if ends_with_slash p \<and> \<not> ends_with_slash q then q @ ''/'' else q))
        (if starts_with ''//'' p \<and> \<not> starts_with ''///'' p then Some ''//''
         else if starts_with ''/'' p then Some ''/''
         else cwd))"

section \<open>Choosing the persistence\<close>

datatype PersistType = RedisPersist string | FilePersist string

definition environment_suffix :: "ConfigT \<Rightarrow> string" where
  "environment_suffix config = (if le_staging (cf_lets_encrypt config) = Some False then ''production'' else ''staging'')"

definition get_lets_encrypt_directory :: "string option \<Rightarrow> ConfigT \<Rightarrow> string" where
  "get_lets_encrypt_directory cwd config =
     (let path = path_join (pa_lets_encrypt (cf_paths config)) (environment_suffix config)
      in unwrap_or path (path_absolute cwd path))"

text \<open>\<open>open_client\<close>: whether \<open>redis::Client::open\<close> accepts the address; \<open>create_dir\<close>: whether the directory exists afterwards.\<close>

definition get_persist ::
  "(string \<Rightarrow> bool) \<Rightarrow> (string \<Rightarrow> bool) \<Rightarrow> string option \<Rightarrow> ConfigT \<Rightarrow> (string, PersistType) res" where
  "get_persist open_client create_dir cwd config =
     (case sc_store_type (cf_store config) of
        Redis \<Rightarrow>
          (let url = unwrap_or ''redis://localhost:6379'' (sc_redis_url (cf_store config))
           in if open_client url then Ok (RedisPersist url) else Panic ''Failed to create client to Redis'')
      | Memory \<Rightarrow>
          (let certificates_dir = get_lets_encrypt_directory cwd config
           in if create_dir certificates_dir then Ok (FilePersist certificates_dir)
              else Panic ''failed to create directory''))"

section \<open>Reading and writing\<close>

definition redis_persist_get :: "'db redis_api \<Rightarrow> 'db \<Rightarrow> string \<Rightarrow> (string, string option) res" where
  "redis_persist_get R db key =
     (if \<not> ra_pool_get R db then Panic ''Failed to get Redis connection''
      else case ra_get R db key of
             Ok (Some value) \<Rightarrow>
               (case from_utf8 value of
                  None \<Rightarrow> Ok None
                | Some v \<Rightarrow> if v = [] then Ok None else Ok (Some v))
           | Ok None \<Rightarrow> Ok None
           | Err e \<Rightarrow> Ok None
           | Panic m \<Rightarrow> Panic m)"

definition redis_persist_put :: "'db redis_api \<Rightarrow> 'db \<Rightarrow> string \<Rightarrow> string \<Rightarrow> 'db \<times> (string, unit) res" where
  "redis_persist_put R db key value =
     (if \<not> ra_pool_get R db then (db, Panic ''Failed to get Redis connection'')
      else case ra_set R db key value of
             Ok db' \<Rightarrow> (db', Ok ())
           | Err e \<Rightarrow> (db, Err e)
           | Panic m \<Rightarrow> (db, Panic m))"

text \<open>The client's own persistence in a directory, over the state \<open>'f\<close> of the file system.\<close>

record 'f file_api =
  fa_get :: "string \<Rightarrow> 'f \<Rightarrow> string \<Rightarrow> (string, string option) res"
  fa_put :: "string \<Rightarrow> 'f \<Rightarrow> string \<Rightarrow> string \<Rightarrow> 'f \<times> (string, unit) res"

definition persist_get ::
  "'db redis_api \<Rightarrow> 'f file_api \<Rightarrow> PersistType \<Rightarrow> 'db \<times> 'f \<Rightarrow> string \<Rightarrow> (string, string option) res" where
  "persist_get R F p st key =
     (case p of
        RedisPersist url \<Rightarrow> redis_persist_get R (fst st) key
      | FilePersist dir \<Rightarrow> fa_get F dir (snd st) key)"

definition persist_put ::
  "'db redis_api \<Rightarrow> 'f file_api \<Rightarrow> PersistType \<Rightarrow> 'db \<times> 'f \<Rightarrow> string \<Rightarrow> string \<Rightarrow> ('db \<times> 'f) \<times> (string, unit) res" where
  "persist_put R F p st key value =
     (case p of
        RedisPersist url \<Rightarrow> (case redis_persist_put R (fst st) key value of (db, r) \<Rightarrow> ((db, snd st), r))
      | FilePersist dir \<Rightarrow> (case fa_put F dir (snd st) key value of (f, r) \<Rightarrow> ((fst st, f), r)))"

section \<open>Lemmas\<close>

text \<open>A written text is read back, other keys keep their values; an empty text reads as absent.\<close>

lemma redis_persist_roundtrip:
  assumes "redis_laws R" and "redis_persist_put R db key value = (db', Ok ())"
  shows "redis_persist_get R db' key = Ok (if value = [] then None else from_utf8 value)"
    and "key' \<noteq> key \<Longrightarrow> redis_persist_get R db' key' = redis_persist_get R db key'"
proof -
  have up: "ra_pool_get R db" and set: "ra_set R db key value = Ok db'"
    using assms(2) by (auto simp: redis_persist_put_def split: if_splits res.splits)
  note upd = redis_laws_setD [OF assms(1) up set]
  have read: "ra_get R d k = Ok (redis_reads R d k)" if up: "ra_pool_get R d" for d k
  proof -
    obtain v where "ra_get R d k = Ok v"
      using assms(1) up unfolding redis_laws_def by blast
    then show ?thesis by (simp add: redis_reads_def)
  qed
  show "redis_persist_get R db' key = Ok (if value = [] then None else from_utf8 value)"
  proof (cases "from_utf8 value")
    case (Some v)
    then have "v = value" by (rule from_utf8_SomeD)
    with Some upd show ?thesis by (simp add: redis_persist_get_def read)
  qed (use upd in \<open>auto simp: redis_persist_get_def read\<close>)
  show "key' \<noteq> key \<Longrightarrow> redis_persist_get R db' key' = redis_persist_get R db key'"
    using upd up by (simp add: redis_persist_get_def read)
qed

end
