(* ===== verification/Lets_Encrypt.thy ===== *)
theory Lets_Encrypt
  imports Acme_Storage Route_Store
begin

text \<open>
  The Let's Encrypt service (\<open>services/letsencrypt/http01.rs\<close>): ordering a certificate with an
  HTTP-01 challenge, storing the certificate of a bundle, the self-signed fallback, the loop over
  new routes and the renewal loop. The ACME client (\<open>acme_v2\<close>), the directory server behind it and
  openssl's certificate builder are the parameter \<open>acme\<close>, over an opaque world \<open>'w\<close>. The
  certificate store is the trait object \<open>get_store()\<close>: a record of its operations. The state of the
  service is the store and the world. The polling loop may not end, so what contains it returns
  an option, \<open>None\<close> when it runs forever.
\<close>

section \<open>Data\<close>

record ('s, 'c) store_ops =
  so_get_certificate :: "'s \<Rightarrow> string \<Rightarrow> 's \<times> (string, 'c option) res"
  so_set_certificate :: "'s \<Rightarrow> string \<Rightarrow> 'c \<Rightarrow> 's \<times> (string, unit) res"
  so_get_certificates :: "'s \<Rightarrow> 's \<times> (string, (string, 'c) hmap) res"
  so_get_challenge :: "'s \<Rightarrow> string \<Rightarrow> 's \<times> (string, (string \<times> string) option) res"
  so_set_challenge :: "'s \<Rightarrow> string \<Rightarrow> string \<Rightarrow> string \<Rightarrow> 's \<times> (string, unit) res"

definition memory_ops :: "('c MemoryStore, 'c) store_ops" where
  "memory_ops = \<lparr>so_get_certificate = memory_get_certificate, so_set_certificate = memory_set_certificate,
     so_get_certificates = memory_get_certificates, so_get_challenge = memory_get_challenge,
     so_set_challenge = memory_set_challenge\<rparr>"

definition redis_ops :: "('k, 'x) pki \<Rightarrow> (('k, 'x, 'db) RedisStore, ('k, 'x) Certificate) store_ops" where
  "redis_ops P = \<lparr>so_get_certificate = redis_get_certificate P, so_set_certificate = redis_set_certificate P,
     so_get_certificates = redis_get_certificates P, so_get_challenge = redis_get_challenge P,
     so_set_challenge = redis_set_challenge P\<rparr>"

text \<open>A certificate as the ACME client returns it, and an authorization with its HTTP challenge.\<close>

record acme_cert =
  ac_certificate :: string
  ac_private_key :: string
  ac_valid_days_left :: int

record acme_auth =
  au_domain :: string
  au_token :: string
  au_proof :: string

datatype DirectoryUrl = LetsEncryptUrl | LetsEncryptStaging

text \<open>What the self-signed certificate is built from.\<close>

record x509_request =
  xr_rsa_bits :: nat
  xr_name :: "(string \<times> string) list"
  xr_version :: nat
  xr_digest :: string
  xr_not_before_days :: nat
  xr_not_after_days :: nat

text \<open>
  Validation takes what the proxy serves at that moment: the challenge stored for each domain.
  An order is refreshed in place; the result of the refresh is ignored.
\<close>

record ('w, 'o, 'csr, 'oc, 'k, 'x) acme =
  am_certificate :: "'w \<Rightarrow> string \<Rightarrow> (string, acme_cert option) res"
  am_new_order :: "'w \<Rightarrow> string \<Rightarrow> (string, 'o) res \<times> 'w"
  am_confirm_validations :: "'o \<Rightarrow> 'csr option"
  am_authorizations :: "'w \<Rightarrow> 'o \<Rightarrow> (string, acme_auth list) res \<times> 'w"
  am_validate :: "'w \<Rightarrow> (string \<Rightarrow> (string \<times> string) option) \<Rightarrow> acme_auth \<Rightarrow> (string, unit) res \<times> 'w"
  am_refresh :: "'w \<Rightarrow> 'o \<Rightarrow> 'o \<times> 'w"
  am_finalize_pkey :: "'w \<Rightarrow> 'csr \<Rightarrow> (string, 'oc) res \<times> 'w"
  am_download_and_save_cert :: "'w \<Rightarrow> 'oc \<Rightarrow> (string, acme_cert) res \<times> 'w"
  am_build_x509 :: "x509_request \<Rightarrow> (string, 'k \<times> 'x) res"

definition DEFAULT_RENEW_INTERVAL_DAYS :: int where
  "DEFAULT_RENEW_INTERVAL_DAYS = 30"

section \<open>Storing certificates\<close>

definition parse_x509_cert :: "('k, 'x) pki \<Rightarrow> string \<Rightarrow> (string, 'x) res" where
  "parse_x509_cert P cert_pem = ok_or ''from_pem'' (pk_x509_from_pem P cert_pem)"

definition parse_private_key :: "('k, 'x) pki \<Rightarrow> string \<Rightarrow> (string, 'k) res" where
  "parse_private_key P key_pem = ok_or ''private_key_from_pem'' (pk_key_from_pem P key_pem)"

definition END_CERTIFICATE :: string where
  "END_CERTIFICATE = ''-----END CERTIFICATE-----''"

definition split_bundle :: "string \<Rightarrow> string list" where
  "split_bundle bundle = map trim (split_inclusive END_CERTIFICATE [] bundle)"

definition bundle_certificate :: "('k, 'x) pki \<Rightarrow> string \<Rightarrow> string \<Rightarrow> (string, ('k, 'x) Certificate) res" where
  "bundle_certificate P bundle key_pem =
     (case split_bundle bundle of
        [] \<Rightarrow> Err ''Certificate is empty''
      | leaf_pem # others \<Rightarrow>
          res_bind (parse_x509_cert P leaf_pem) (\<lambda>leaf.
          res_bind (case others of
              chain_pem # _ \<Rightarrow> res_bind (parse_x509_cert P chain_pem) (\<lambda>x. Ok (Some x))
            | [] \<Rightarrow> Ok None) (\<lambda>chain.
          res_bind (parse_private_key P key_pem) (\<lambda>key.
          Ok \<lparr>ce_key = key, ce_leaf = leaf, ce_chain = chain\<rparr>))))"

definition insert_certificate ::
  "('k, 'x) pki \<Rightarrow> ('s, ('k, 'x) Certificate) store_ops \<Rightarrow> string \<Rightarrow> string \<Rightarrow> string \<Rightarrow> 's \<Rightarrow> 's \<times> (string, unit) res" where
  "insert_certificate P S domain bundle key_pem s =
     (case bundle_certificate P bundle key_pem of
        Ok cert \<Rightarrow> (case so_set_certificate S s domain cert of
            (s', Err o_err) \<Rightarrow> (s', Err (''failed to save certificate in the store: '' @ o_err))
          | (s', r) \<Rightarrow> (s', r))
      | Err e \<Rightarrow> (s, Err e)
      | Panic m \<Rightarrow> (s, Panic m))"

definition self_signed_request :: "string \<Rightarrow> x509_request" where
  "self_signed_request domain =
     \<lparr>xr_rsa_bits = 2048, xr_name = [(''CN'', domain), (''ST'', ''TX''), (''O'', ''Proksi'')], xr_version = 2,
      xr_digest = ''sha256'', xr_not_before_days = 0, xr_not_after_days = 365\<rparr>"

definition create_self_signed_certificate ::
  "('w, 'o, 'csr, 'oc, 'k, 'x) acme \<Rightarrow> ('s, ('k, 'x) Certificate) store_ops \<Rightarrow> string \<Rightarrow> bool \<Rightarrow> 's \<Rightarrow> 's \<times> (string, unit) res" where
  "create_self_signed_certificate A S domain enabled s =
     (if \<not> enabled then (s, Ok ())
      else case am_build_x509 A (self_signed_request domain) of
        Ok (key, leaf) \<Rightarrow>
          (case so_set_certificate S s domain \<lparr>ce_key = key, ce_leaf = leaf, ce_chain = None\<rparr> of
             (s', Err o_err) \<Rightarrow> (s', Err (''failed to save self-signed certificate '' @ o_err))
           | (s', r) \<Rightarrow> (s', r))
      | Err e \<Rightarrow> (s, Err e)
      | Panic m \<Rightarrow> (s, Panic m))"

section \<open>Ordering a certificate\<close>

text \<open>
  While \<open>challenge.validate\<close> runs, the authority fetches the proof from port 80 of the domain. The
  parameter that stands for \<open>validate\<close> is a function of its arguments only, so what port 80 answers
  at that moment is one of them: \<open>served\<close>, the challenge of each domain in the store. It is a construct
  of the model and stands for no line of the source; \<open>authority_sees_what_port_80_answers\<close> proves
  that it is what the proxy on port 80 answers.
\<close>

definition served :: "('s, 'c) store_ops \<Rightarrow> 's \<Rightarrow> string \<Rightarrow> (string \<times> string) option" where
  "served S s d = (case snd (so_get_challenge S s d) of Ok c \<Rightarrow> c | _ \<Rightarrow> None)"

fun challenge_loop ::
  "('w, 'o, 'csr, 'oc, 'k, 'x) acme \<Rightarrow> ('s, ('k, 'x) Certificate) store_ops \<Rightarrow> acme_auth list \<Rightarrow>
   ('s \<times> 'w, string, unit) act" where
  "challenge_loop A S [] (s, w) = (Ok (), (s, w))"
| "challenge_loop A S (auth # auths) (s, w) =
     (case so_set_challenge S s (au_domain auth) (au_token auth) (au_proof auth) of
        (s', Err err) \<Rightarrow> (Err (''Failed to set challenge in store: '' @ err), (s', w))
      | (s', Panic m) \<Rightarrow> (Panic m, (s', w))
      | (s', Ok _) \<Rightarrow>
          (case am_validate A w (served S s') auth of
             (Ok _, w') \<Rightarrow> challenge_loop A S auths (s', w')
           | (Err e, w') \<Rightarrow> (Err e, (s', w'))
           | (Panic m, w') \<Rightarrow> (Panic m, (s', w'))))"

definition handle_http_01_challenge ::
  "('w, 'o, 'csr, 'oc, 'k, 'x) acme \<Rightarrow> ('s, ('k, 'x) Certificate) store_ops \<Rightarrow> 'o \<Rightarrow> ('s \<times> 'w, string, unit) act" where
  "handle_http_01_challenge A S order st =
     (case am_authorizations A (snd st) order of
        (Ok auths, w) \<Rightarrow> challenge_loop A S auths (fst st, w)
      | (Err e, w) \<Rightarrow> (Err e, (fst st, w))
      | (Panic m, w) \<Rightarrow> (Panic m, (fst st, w)))"

text \<open>One pass of the loop: the challenges and the refresh.\<close>

definition order_round ::
  "('w, 'o, 'csr, 'oc, 'k, 'x) acme \<Rightarrow> ('s, ('k, 'x) Certificate) store_ops \<Rightarrow> 'o \<Rightarrow> ('s \<times> 'w, string, 'o) act" where
  "order_round A S order st =
     (case handle_http_01_challenge A S order st of
        (Ok _, (s, w)) \<Rightarrow> (case am_refresh A w order of (order', w') \<Rightarrow> (Ok order', (s, w')))
      | (Err err, st') \<Rightarrow> (Err (''Failed to handle HTTP-01 challenge: '' @ err), st')
      | (Panic m, st') \<Rightarrow> (Panic m, st'))"

partial_function (option) order_loop ::
  "('w, 'o, 'csr, 'oc, 'k, 'x) acme \<Rightarrow> ('s, ('k, 'x) Certificate) store_ops \<Rightarrow> 'o \<Rightarrow> 's \<times> 'w \<Rightarrow>
   ((string, 'csr) res \<times> 's \<times> 'w) option" where
  "order_loop A S order st =
     (case am_confirm_validations A order of
        Some csr \<Rightarrow> Some (Ok csr, st)
      | None \<Rightarrow>
        (case order_round A S order st of
           (r, st') \<Rightarrow> (case r of
             Ok order' \<Rightarrow> order_loop A S order' st'
           | Err e \<Rightarrow> Some (Err e, st')
           | Panic m \<Rightarrow> Some (Panic m, st'))))"

definition finish_order ::
  "('w, 'o, 'csr, 'oc, 'k, 'x) acme \<Rightarrow> ('k, 'x) pki \<Rightarrow> ('s, ('k, 'x) Certificate) store_ops \<Rightarrow> string \<Rightarrow> 'csr \<Rightarrow>
   ('s \<times> 'w, string, unit) act" where
  "finish_order A P S domain order_csr st =
     (case am_finalize_pkey A (snd st) order_csr of
        (Err e, w) \<Rightarrow> (Err e, (fst st, w))
      | (Panic m, w) \<Rightarrow> (Panic m, (fst st, w))
      | (Ok order_cert, w) \<Rightarrow>
          (case am_download_and_save_cert A w order_cert of
             (Err e, w') \<Rightarrow> (Err e, (fst st, w'))
           | (Panic m, w') \<Rightarrow> (Panic m, (fst st, w'))
           | (Ok cert, w') \<Rightarrow>
               (case insert_certificate P S domain (ac_certificate cert) (ac_private_key cert) (fst st) of
                  (s', r) \<Rightarrow> (r, (s', w')))))"

definition create_order_for_domain ::
  "('w, 'o, 'csr, 'oc, 'k, 'x) acme \<Rightarrow> ('k, 'x) pki \<Rightarrow> ('s, ('k, 'x) Certificate) store_ops \<Rightarrow> string \<Rightarrow> 's \<times> 'w \<Rightarrow>
   ((string, unit) res \<times> 's \<times> 'w) option" where
  "create_order_for_domain A P S domain st =
     (case am_new_order A (snd st) domain of
        (Err e, w) \<Rightarrow> Some (Err e, (fst st, w))
      | (Panic m, w) \<Rightarrow> Some (Panic m, (fst st, w))
      | (Ok order, w) \<Rightarrow>
          Option.bind (order_loop A S order (fst st, w)) (\<lambda>(r, st').
            (case r of
               Ok order_csr \<Rightarrow> Some (finish_order A P S domain order_csr st')
             | Err e \<Rightarrow> Some (Err e, st')
             | Panic m \<Rightarrow> Some (Panic m, st'))))"

section \<open>The two loops\<close>

definition handle_certificate_for_domain ::
  "('w, 'o, 'csr, 'oc, 'k, 'x) acme \<Rightarrow> ('k, 'x) pki \<Rightarrow> ('s, ('k, 'x) Certificate) store_ops \<Rightarrow> string \<Rightarrow> bool \<Rightarrow> 's \<times> 'w \<Rightarrow>
   ((string, unit) res \<times> 's \<times> 'w) option" where
  "handle_certificate_for_domain A P S domain self_signed_on_failure st =
     (case am_certificate A (snd st) domain of
        Ok (Some cert) \<Rightarrow>
          (case so_get_certificates S (fst st) of
             (s, Panic m) \<Rightarrow> Some (Panic m, (s, snd st))
           | (s, Err e) \<Rightarrow> Some (Err e, (s, snd st))
           | (s, Ok certs) \<Rightarrow>
               if hm_contains certs domain then Some (Ok (), (s, snd st))
               else (case insert_certificate P S domain (ac_certificate cert) (ac_private_key cert) s of
                  (s', Panic m) \<Rightarrow> Some (Panic m, (s', snd st))
                | (s', _) \<Rightarrow> Some (Ok (), (s', snd st))))
      | Ok None \<Rightarrow>
          Option.bind (create_order_for_domain A P S domain st) (\<lambda>(r, (s, w)).
            (case r of
               Ok _ \<Rightarrow> Some (Ok (), (s, w))
             | Panic m \<Rightarrow> Some (Panic m, (s, w))
             | Err e \<Rightarrow>
                 (case create_self_signed_certificate A S domain self_signed_on_failure s of
                    (s', Panic m) \<Rightarrow> Some (Panic m, (s', w))
                  | (s', _) \<Rightarrow> Some (Ok (), (s', w)))))
      | Panic m \<Rightarrow> Some (Panic m, st)
      | Err e \<Rightarrow> Some (Ok (), st))"

text \<open>One round of \<open>watch_for_route_changes\<close> over the route table.\<close>

fun watch_round ::
  "('w, 'o, 'csr, 'oc, 'k, 'x) acme \<Rightarrow> ('k, 'x) pki \<Rightarrow> ('s, ('k, 'x) Certificate) store_ops \<Rightarrow>
   (string \<times> 'lb RouteStoreContainer) list \<Rightarrow> 's \<times> 'w \<Rightarrow> ((string, unit) res \<times> 's \<times> 'w) option" where
  "watch_round A P S [] st = Some (Ok (), st)"
| "watch_round A P S ((key, value) # routes) st =
     (case so_get_certificates S (fst st) of
        (s, Panic m) \<Rightarrow> Some (Panic m, (s, snd st))
      | (s, Err e) \<Rightarrow> Some (Err e, (s, snd st))
      | (s, Ok certs) \<Rightarrow>
          if hm_contains certs key then watch_round A P S routes (s, snd st)
          else Option.bind (handle_certificate_for_domain A P S key (co_self_signed_certificate value) (s, snd st))
            (\<lambda>(r, st'). (case r of
               Ok _ \<Rightarrow> watch_round A P S routes st'
             | r \<Rightarrow> Some (r, st'))))"

text \<open>One round of \<open>check_for_certificates_expiration\<close>; an order's error is logged.\<close>

fun renew_round ::
  "('w, 'o, 'csr, 'oc, 'k, 'x) acme \<Rightarrow> ('k, 'x) pki \<Rightarrow> ('s, ('k, 'x) Certificate) store_ops \<Rightarrow>
   (string \<times> 'lb RouteStoreContainer) list \<Rightarrow> 's \<times> 'w \<Rightarrow> ((string, unit) res \<times> 's \<times> 'w) option" where
  "renew_round A P S [] st = Some (Ok (), st)"
| "renew_round A P S ((domain, _) # routes) st =
     (case am_certificate A (snd st) domain of
        Ok (Some cert) \<Rightarrow>
          if ac_valid_days_left cert > DEFAULT_RENEW_INTERVAL_DAYS then renew_round A P S routes st
          else Option.bind (create_order_for_domain A P S domain st) (\<lambda>(r, st').
            (case r of
               Panic m \<Rightarrow> Some (Panic m, st')
             | _ \<Rightarrow> renew_round A P S routes st'))
      | Panic m \<Rightarrow> Some (Panic m, st)
      | _ \<Rightarrow> renew_round A P S routes st)"

definition get_lets_encrypt_url :: "ConfigT \<Rightarrow> DirectoryUrl" where
  "get_lets_encrypt_url config = (if le_staging (cf_lets_encrypt config) = Some False then LetsEncryptUrl else LetsEncryptStaging)"

text \<open>
  What \<open>start_service\<close> does before its two loops: nothing when disabled, otherwise it opens the
  directory and the account, and panics when either fails.
\<close>

definition letsencrypt_start ::
  "(PersistType \<Rightarrow> DirectoryUrl \<Rightarrow> (string, 'd) res) \<Rightarrow> ('d \<Rightarrow> string \<Rightarrow> (string, 'acct) res) \<Rightarrow>
   (string \<Rightarrow> bool) \<Rightarrow> (string \<Rightarrow> bool) \<Rightarrow> string option \<Rightarrow> ConfigT \<Rightarrow> (string, 'acct option) res" where
  "letsencrypt_start from_url account open_client create_dir cwd config =
     (if is_some_and (\<lambda>v. \<not> v) (le_enabled (cf_lets_encrypt config)) then Ok None
      else res_bind (get_persist open_client create_dir cwd config) (\<lambda>persist.
        (case from_url persist (get_lets_encrypt_url config) of
           Ok dir \<Rightarrow>
             (case account dir (le_email (cf_lets_encrypt config)) of
                Ok acct \<Rightarrow> Ok (Some acct)
              | _ \<Rightarrow> Panic ''failed to create or retrieve existing account'')
         | _ \<Rightarrow> Panic ''failed to create LetsEncrypt directory'')))"

section \<open>Bundles\<close>

text \<open>A PEM block: it begins and ends with a dash and the end marker occurs only at its end.\<close>

definition pem_block :: "string \<Rightarrow> bool" where
  "pem_block p \<longleftrightarrow> (\<exists>b. p = b @ END_CERTIFICATE \<and> hd p = CHR ''-'' \<and>
     (\<forall>i<length b. \<not> starts_with END_CERTIFICATE (drop i p)))"

lemma pem_block_trim:
  assumes "pem_block p"
  shows "trim p = p" and "trim (CHR 0x0A # p) = p"
  using assms trim_dashes [of p] by (auto simp: pem_block_def END_CERTIFICATE_def)

lemma no_end_after_newline:
  assumes "\<forall>i<length b. \<not> starts_with END_CERTIFICATE (drop i (b @ END_CERTIFICATE))"
  shows "\<forall>i<length (CHR 0x0A # b). \<not> starts_with END_CERTIFICATE (drop i ((CHR 0x0A # b) @ END_CERTIFICATE))"
  using assms by (auto simp: less_Suc_eq_0_disj) (simp add: END_CERTIFICATE_def)

lemma split_bundle_block:
  assumes "pem_block p"
  shows "split_bundle (p @ t) = p # split_bundle t" and "split_bundle (CHR 0x0A # p @ t) = p # split_bundle t"
proof -
  obtain b where b: "p = b @ END_CERTIFICATE" "\<forall>i<length b. \<not> starts_with END_CERTIFICATE (drop i (b @ END_CERTIFICATE))"
    using assms by (auto simp: pem_block_def)
  have ne: "END_CERTIFICATE \<noteq> []" by (simp add: END_CERTIFICATE_def)
  show "split_bundle (p @ t) = p # split_bundle t"
    using split_inclusive_first [OF ne b(2), of "[]" t] pem_block_trim(1) [OF assms] by (simp add: split_bundle_def b(1))
  show "split_bundle (CHR 0x0A # p @ t) = p # split_bundle t"
    using split_inclusive_first [OF ne no_end_after_newline [OF b(2)], of "[]" t] pem_block_trim(2) [OF assms]
    by (simp add: split_bundle_def b(1))
qed

lemma split_bundle_end [simp]: "split_bundle [] = []" "split_bundle [CHR 0x0A] = [[]]"
  using split_inclusive_none [of "[CHR 0x0A]" END_CERTIFICATE "[]"]
  by (simp_all add: split_bundle_def END_CERTIFICATE_def trim_newline)

lemma bundle_leaf_chain:
  assumes "pem_block leaf" and "pem_block chain"
  shows "split_bundle (leaf @ CHR 0x0A # chain @ rest) = leaf # chain # split_bundle rest"
  using split_bundle_block(1) [OF assms(1)] split_bundle_block(2) [OF assms(2)] by simp

section \<open>The service against the store's contract\<close>

text \<open>The store the service relies on: the trait's contract, and a write that fails changes nothing.\<close>

locale acme_store = cert_store "so_get_certificate S" "so_set_certificate S" "so_get_certificates S"
    "so_get_challenge S" "so_set_challenge S" certs_of challenges_of inv
  for S :: "('s, ('k, 'x) Certificate) store_ops" and certs_of challenges_of inv +
  assumes set_certificate_fails: "so_set_certificate S s d c = (s', r) \<Longrightarrow> r \<noteq> Ok () \<Longrightarrow> s' = s"
    and set_challenge_fails: "so_set_challenge S s d t p = (s', r) \<Longrightarrow> r \<noteq> Ok () \<Longrightarrow> s' = s"
begin

lemma served_eq: "inv s \<Longrightarrow> served S s = challenges_of s"
  using get_challenge_spec [of s] by (intro ext) (metis served_def res.case(1) snd_conv)

lemma set_challenge_any:
  assumes "inv s" and "so_set_challenge S s d t p = (s', r)"
  shows "inv s' \<and> certs_of s' = certs_of s"
proof (cases "r = Ok ()")
  case True
  with set_challenge_spec [OF assms(1)] assms(2) show ?thesis by blast
qed (use assms set_challenge_fails [OF assms(2)] in auto)

lemma insert_certificate_result:
  assumes "inv s" and "insert_certificate P S d b k s = (s', r)"
  shows "inv s' \<and> challenges_of s' = challenges_of s \<and>
    (if r = Ok () then \<exists>c. bundle_certificate P b k = Ok c \<and> certs_of s' = (certs_of s)(d \<mapsto> c)
     else certs_of s' = certs_of s)"
proof (cases "bundle_certificate P b k")
  case (Ok c)
  obtain s1 r1 where set: "so_set_certificate S s d c = (s1, r1)" by fastforce
  show ?thesis
  proof (cases "r1 = Ok ()")
    case True
    with set_certificate_spec [OF assms(1)] set assms(2) Ok show ?thesis
      by (auto simp: insert_certificate_def)
  next
    case False
    with set_certificate_fails [OF set False] set assms Ok show ?thesis
      by (auto simp: insert_certificate_def split: res.splits)
  qed
qed (use assms in \<open>auto simp: insert_certificate_def\<close>)

lemma challenge_loop_keeps:
  "inv s \<Longrightarrow> challenge_loop A S auths (s, w) = (r, (s', w')) \<Longrightarrow> inv s' \<and> certs_of s' = certs_of s"
proof (induction auths arbitrary: s w)
  case (Cons a auths)
  obtain s1 r1 where set: "so_set_challenge S s (au_domain a) (au_token a) (au_proof a) = (s1, r1)" by fastforce
  have s1: "inv s1 \<and> certs_of s1 = certs_of s" by (rule set_challenge_any [OF Cons.prems(1) set])
  obtain v w1 where val: "am_validate A w (served S s1) a = (v, w1)" by fastforce
  show ?case
  proof (cases "\<exists>u x. r1 = Ok u \<and> v = Ok x")
    case True
    with Cons.prems(2) set val have "challenge_loop A S auths (s1, w1) = (r, (s', w'))" by auto
    with Cons.IH [of s1 w1] s1 show ?thesis by simp
  next
    case False
    with Cons.prems(2) set val s1 show ?thesis by (auto split: res.splits)
  qed
qed auto

lemma order_round_keeps:
  assumes "inv s" and "order_round A S o1 (s, w) = (r, (s', w'))"
  shows "inv s' \<and> certs_of s' = certs_of s"
proof -
  obtain a w1 where au: "am_authorizations A w o1 = (a, w1)" by fastforce
  show ?thesis
  proof (cases a)
    case (Ok auths)
    obtain r2 s2 w2 where cl: "challenge_loop A S auths (s, w1) = (r2, (s2, w2))" by (metis prod.exhaust)
    from challenge_loop_keeps [OF assms(1) cl] assms(2) au Ok cl show ?thesis
      by (auto simp: order_round_def handle_http_01_challenge_def split: res.splits prod.splits)
  qed (use assms au in \<open>auto simp: order_round_def handle_http_01_challenge_def\<close>)
qed

lemma order_loop_keeps:
  fixes A :: "('w, 'o, 'csr, 'oc, 'k, 'x) acme"
  assumes "order_loop A S o1 (s, w) = Some (r, (s', w'))" and "inv s"
  shows "inv s' \<and> certs_of s' = certs_of s"
proof -
  define Q where "Q A' S' o1 st y \<longleftrightarrow> (A' = A \<and> S' = S \<and> inv (fst st) \<longrightarrow>
      inv (fst (snd y)) \<and> certs_of (fst (snd y)) = certs_of (fst st))" 
    for A' S' and o1 :: 'o and st :: "'s \<times> 'w" and y :: "(string, 'csr) res \<times> 's \<times> 'w"
  have "Q A S o1 (s, w) (r, (s', w'))"
  proof (rule order_loop.raw_induct [where P = Q, OF _ assms(1)])
    fix loop A' S' and o2 :: 'o and st :: "'s \<times> 'w" and y :: "(string, 'csr) res \<times> 's \<times> 'w"
    assume IH: "\<And>A S o1 st y. loop A S o1 st = Some y \<Longrightarrow> Q A S o1 st y"
      and run: "(case am_confirm_validations A' o2 of
        Some csr \<Rightarrow> Some (Ok csr, st)
      | None \<Rightarrow> (case order_round A' S' o2 st of (r, st') \<Rightarrow> (case r of
             Ok order' \<Rightarrow> loop A' S' order' st' | Err e \<Rightarrow> Some (Err e, st') | Panic m \<Rightarrow> Some (Panic m, st')))) = Some y"
    show "Q A' S' o2 st y"
      unfolding Q_def
    proof
      assume a: "A' = A \<and> S' = S \<and> inv (fst st)"
      obtain r1 s1 w1 where r1: "order_round A S o2 (fst st, snd st) = (r1, (s1, w1))" by (metis prod.exhaust)
      have s1: "inv s1 \<and> certs_of s1 = certs_of (fst st)"
        using order_round_keeps [OF _ r1] a by blast
      show "inv (fst (snd y)) \<and> certs_of (fst (snd y)) = certs_of (fst st)"
        using run a r1 s1 IH [unfolded Q_def, of A S _ "(s1, w1)" y]
        by (auto split: option.splits res.splits)
    qed
  qed
  then show ?thesis using assms(2) by (simp add: Q_def)
qed

lemma finish_order_result:
  assumes "inv s" and "finish_order A P S d csr (s, w) = (r, (s', w'))"
  shows "inv s' \<and> (if r = Ok () then \<exists>c. certs_of s' = (certs_of s)(d \<mapsto> c) else certs_of s' = certs_of s)"
proof -
  obtain f w1 where f: "am_finalize_pkey A w csr = (f, w1)" by fastforce
  show ?thesis
  proof (cases f)
    case (Ok oc)
    obtain g w2 where g: "am_download_and_save_cert A w1 oc = (g, w2)" by fastforce
    show ?thesis
    proof (cases g)
      case (Ok cert)
      obtain s1 r1 where ins: "insert_certificate P S d (ac_certificate cert) (ac_private_key cert) s = (s1, r1)"
        by fastforce
      with assms(2) f g \<open>f = Ok oc\<close> Ok have "s' = s1" "r = r1" by (auto simp: finish_order_def)
      with insert_certificate_result [OF assms(1) ins] show ?thesis by (auto split: if_splits)
    qed (use assms f g \<open>f = Ok oc\<close> in \<open>auto simp: finish_order_def\<close>)
  qed (use assms f in \<open>auto simp: finish_order_def\<close>)
qed

lemma create_order_result:
  assumes "inv s" and "create_order_for_domain A P S d (s, w) = Some (r, (s', w'))"
  shows "inv s' \<and> (if r = Ok () then \<exists>c. certs_of s' = (certs_of s)(d \<mapsto> c) else certs_of s' = certs_of s)"
proof -
  obtain n w1 where n: "am_new_order A w d = (n, w1)" by fastforce
  show ?thesis
  proof (cases n)
    case (Ok o1)
    with assms(2) n obtain r1 s1 w2 where loop: "order_loop A S o1 (s, w1) = Some (r1, (s1, w2))"
      and fin: "(case r1 of Ok csr \<Rightarrow> Some (finish_order A P S d csr (s1, w2)) | Err e \<Rightarrow> Some (Err e, (s1, w2))
        | Panic m \<Rightarrow> Some (Panic m, (s1, w2))) = Some (r, (s', w'))"
      by (auto simp: create_order_for_domain_def Option.bind_eq_Some_conv)
    have s1: "inv s1 \<and> certs_of s1 = certs_of s" by (rule order_loop_keeps [OF loop assms(1)])
    show ?thesis
    proof (cases r1)
      case (Ok csr)
      with fin have "finish_order A P S d csr (s1, w2) = (r, (s', w'))" by simp
      from finish_order_result [OF _ this] s1 show ?thesis by (auto split: if_splits)
    qed (use fin s1 in auto)
  qed (use assms n in \<open>auto simp: create_order_for_domain_def\<close>)
qed

lemma self_signed_result:
  assumes "inv s" and "create_self_signed_certificate A S d enabled s = (s', r)"
  shows "inv s' \<and> (certs_of s' = certs_of s \<or> enabled \<and> (\<exists>c. certs_of s' = (certs_of s)(d \<mapsto> c)))"
proof (cases "\<exists>k x. enabled \<and> am_build_x509 A (self_signed_request d) = Ok (k, x)")
  case True
  then obtain k x where en: "enabled" "am_build_x509 A (self_signed_request d) = Ok (k, x)" by blast
  obtain s1 r1 where set: "so_set_certificate S s d \<lparr>ce_key = k, ce_leaf = x, ce_chain = None\<rparr> = (s1, r1)" by fastforce
  show ?thesis
  proof (cases "r1 = Ok ()")
    case True
    with set_certificate_spec [OF assms(1)] set en assms(2) show ?thesis
      by (auto simp: create_self_signed_certificate_def)
  next
    case False
    with set_certificate_fails [OF set False] set en assms show ?thesis
      by (auto simp: create_self_signed_certificate_def split: res.splits)
  qed
next
  case False
  with assms show ?thesis
    by (auto simp: create_self_signed_certificate_def split: if_splits res.splits prod.splits)
qed

lemma handle_result:
  assumes "inv s" and "handle_certificate_for_domain A P S d b (s, w) = Some (r, (s', w'))"
  shows "inv s' \<and> (certs_of s' = certs_of s \<or> (\<exists>c. certs_of s' = (certs_of s)(d \<mapsto> c)))"
proof (cases "am_certificate A w d")
  case (Ok known)
  show ?thesis
  proof (cases known)
    case (Some cert)
    obtain s1 m where g: "so_get_certificates S s = (s1, Ok m)" "inv s1" "certs_of s1 = certs_of s"
      using get_certificates_spec [OF assms(1)] by blast
    obtain s2 r2 where ins: "insert_certificate P S d (ac_certificate cert) (ac_private_key cert) s1 = (s2, r2)"
      by fastforce
    have "s' = s1 \<or> s' = s2"
      using assms(2) Ok Some g(1) ins
      by (auto simp: handle_certificate_for_domain_def split: if_splits res.splits)
    with insert_certificate_result [OF g(2) ins] g(2,3) show ?thesis by (auto split: if_splits)
  next
    case None
    with assms(2) Ok obtain r1 s1 w1 where o1: "create_order_for_domain A P S d (s, w) = Some (r1, (s1, w1))"
      and rest: "(case r1 of Ok _ \<Rightarrow> Some (Ok (), (s1, w1)) | Panic m \<Rightarrow> Some (Panic m, (s1, w1))
        | Err e \<Rightarrow> (case create_self_signed_certificate A S d b s1 of
            (s', Panic m) \<Rightarrow> Some (Panic m, (s', w1)) | (s', _) \<Rightarrow> Some (Ok (), (s', w1)))) = Some (r, (s', w'))"
      by (auto simp: handle_certificate_for_domain_def Option.bind_eq_Some_conv)
    note c = create_order_result [OF assms(1) o1]
    show ?thesis
    proof (cases r1)
      case (Err e)
      obtain s2 r2 where ss: "create_self_signed_certificate A S d b s1 = (s2, r2)" by fastforce
      have "s' = s2" using rest Err ss by (auto split: res.splits)
      with self_signed_result [OF _ ss] c Err show ?thesis by auto
    qed (use rest c in \<open>auto split: if_splits\<close>)
  qed
qed (use assms in \<open>auto simp: handle_certificate_for_domain_def\<close>)

text \<open>A round only adds certificates, and only for hosts of the table that have none.\<close>

lemma watch_round_result:
  "inv s \<Longrightarrow> watch_round A P S routes (s, w) = Some (r, (s', w')) \<Longrightarrow>
   inv s' \<and> (\<forall>d. certs_of s' d \<noteq> certs_of s d \<longrightarrow> certs_of s d = None \<and> d \<in> fst ` set routes)"
proof (induction routes arbitrary: s w)
  case (Cons kv routes)
  obtain key rc where kv: "kv = (key, rc)" by fastforce
  obtain s1 m where g: "so_get_certificates S s = (s1, Ok m)" "hm_get m = certs_of s" "inv s1" "certs_of s1 = certs_of s"
    using get_certificates_spec [OF Cons.prems(1)] by blast
  show ?case
  proof (cases "hm_contains m key")
    case True
    with Cons.prems(2) g(1) kv have "watch_round A P S routes (s1, w) = Some (r, (s', w'))" by simp
    from Cons.IH [OF g(3) this] g(4) show ?thesis by auto
  next
    case False
    then have new: "certs_of s key = None" using g(2) by (simp add: hm_contains_def)
    from False Cons.prems(2) g(1) kv obtain r2 s2 w2 where
      h: "handle_certificate_for_domain A P S key (co_self_signed_certificate rc) (s1, w) = Some (r2, (s2, w2))"
      and rest: "(case r2 of Ok _ \<Rightarrow> watch_round A P S routes (s2, w2) | r \<Rightarrow> Some (r, (s2, w2))) = Some (r, (s', w'))"
      by (auto simp: Option.bind_eq_Some_conv)
    have s2: "inv s2" and upd: "certs_of s2 = certs_of s \<or> (\<exists>c. certs_of s2 = (certs_of s)(key \<mapsto> c))"
      using handle_result [OF g(3) h] g(4) by auto
    have "inv s' \<and> (\<forall>d. certs_of s' d \<noteq> certs_of s2 d \<longrightarrow> certs_of s2 d = None \<and> d \<in> fst ` set routes)"
      using rest Cons.IH [OF s2, of w2] s2 by (cases r2) auto
    with upd new kv show ?thesis by (auto split: if_splits)
  qed
qed auto

text \<open>A renewal only replaces or adds certificates of hosts in the table.\<close>

lemma renew_round_result:
  "inv s \<Longrightarrow> renew_round A P S routes (s, w) = Some (r, (s', w')) \<Longrightarrow>
   inv s' \<and> (\<forall>d. certs_of s' d \<noteq> certs_of s d \<longrightarrow> certs_of s' d \<noteq> None \<and> d \<in> fst ` set routes)"
proof (induction routes arbitrary: s w)
  case (Cons kv routes)
  obtain key rc where kv: "kv = (key, rc)" by fastforce
  consider (order) cert where "am_certificate A w key = Ok (Some cert)"
      "ac_valid_days_left cert \<le> DEFAULT_RENEW_INTERVAL_DAYS"
    | (skip) "renew_round A P S routes (s, w) = Some (r, (s', w'))"
    | (stop) "s' = s"
    using Cons.prems(2) kv by (fastforce split: res.splits option.splits if_splits)
  then show ?case
  proof cases
    case order
    with Cons.prems(2) kv obtain r1 s1 w1 where o1: "create_order_for_domain A P S key (s, w) = Some (r1, (s1, w1))"
      and rest: "(case r1 of Panic m \<Rightarrow> Some (Panic m, (s1, w1)) | _ \<Rightarrow> renew_round A P S routes (s1, w1)) = Some (r, (s', w'))"
      by (auto simp: Option.bind_eq_Some_conv)
    have s1: "inv s1" "certs_of s1 = certs_of s \<or> (\<exists>c. certs_of s1 = (certs_of s)(key \<mapsto> c))"
      using create_order_result [OF Cons.prems(1) o1] by (auto split: if_splits)
    have "inv s' \<and> (\<forall>d. certs_of s' d \<noteq> certs_of s1 d \<longrightarrow> certs_of s' d \<noteq> None \<and> d \<in> fst ` set routes)"
      using rest Cons.IH [OF s1(1), of w1] s1(1) by (cases r1) auto
    with s1(2) kv show ?thesis by (auto split: if_splits) (metis option.distinct(1))+
  next
    case skip
    from Cons.IH [OF Cons.prems(1) skip] show ?thesis by auto
  next
    case stop
    with Cons.prems(1) show ?thesis by simp
  qed
qed auto

end

text \<open>
  A certificate authority that follows the protocol and a client that works, seen through observers:
  the authorizations of an order, which of them the authority holds valid, whom an order is for, and
  what the client has saved. Validating a challenge succeeds when the domain serves it
  (\<open>view\<close>) and makes its authorization valid. A refresh promises something only for an order all of
  whose authorizations are valid: it can be confirmed, or the authority needs fewer further
  refreshes (\<open>cv_pending\<close>) to make it ready. What is downloaded is saved under its domain.
\<close>

record ('w, 'o, 'csr, 'oc) ca_view =
  cv_auths :: "'o \<Rightarrow> acme_auth list"
  cv_valid :: "'w \<Rightarrow> acme_auth \<Rightarrow> bool"
  cv_pending :: "'o \<Rightarrow> nat"
  cv_order_domain :: "'o \<Rightarrow> string"
  cv_csr_domain :: "'csr \<Rightarrow> string"
  cv_cert_domain :: "'oc \<Rightarrow> string"
  cv_saved :: "'w \<Rightarrow> string \<Rightarrow> acme_cert option"

text \<open>
  A bundle as the authority delivers it: PEM blocks of the leaf and of its issuer, and whatever
  follows, with the private key that belongs to the leaf (\<open>fits\<close>).
\<close>

definition usable_cert :: "('k, 'x) pki \<Rightarrow> (('k, 'x) Certificate \<Rightarrow> bool) \<Rightarrow> acme_cert \<Rightarrow> bool" where
  "usable_cert P fits cert \<longleftrightarrow> (\<exists>leaf chain rest k x y. ac_certificate cert = leaf @ CHR 0x0A # chain @ rest \<and>
     pem_block leaf \<and> pem_block chain \<and> pk_x509_from_pem P leaf = Some x \<and> pk_x509_from_pem P chain = Some y \<and>
     pk_key_from_pem P (ac_private_key cert) = Some k \<and> fits \<lparr>ce_key = k, ce_leaf = x, ce_chain = Some y\<rparr>)"

definition ca_keeps :: "('w, 'o, 'csr, 'oc) ca_view \<Rightarrow> 'w \<Rightarrow> 'w \<Rightarrow> bool" where
  "ca_keeps V w w' \<longleftrightarrow> cv_saved V w' = cv_saved V w \<and> (\<forall>a. cv_valid V w a \<longrightarrow> cv_valid V w' a)"

definition ca_laws ::
  "('w, 'o, 'csr, 'oc, 'k, 'x) acme \<Rightarrow> ('k, 'x) pki \<Rightarrow> (('k, 'x) Certificate \<Rightarrow> bool) \<Rightarrow> ('w, 'o, 'csr, 'oc) ca_view \<Rightarrow> bool" where
  "ca_laws A P fits V \<longleftrightarrow>
     (\<forall>w d. am_certificate A w d = Ok (cv_saved V w d)) \<and>
     (\<forall>w d cert. cv_saved V w d = Some cert \<longrightarrow> usable_cert P fits cert) \<and>
     (\<forall>w d. \<exists>order w'. am_new_order A w d = (Ok order, w') \<and> cv_order_domain V order = d \<and> ca_keeps V w w') \<and>
     (\<forall>w order. \<exists>w'. am_authorizations A w order = (Ok (cv_auths V order), w') \<and> ca_keeps V w w') \<and>
     (\<forall>w view a. view (au_domain a) = Some (au_token a, au_proof a) \<longrightarrow>
        (\<exists>w'. am_validate A w view a = (Ok (), w') \<and> cv_valid V w' a \<and> ca_keeps V w w')) \<and>
     (\<forall>w order order' w'. am_refresh A w order = (order', w') \<longrightarrow>
        ca_keeps V w w' \<and> cv_auths V order' = cv_auths V order \<and> cv_order_domain V order' = cv_order_domain V order \<and>
        ((\<forall>a\<in>set (cv_auths V order). cv_valid V w a) \<longrightarrow>
           am_confirm_validations A order' \<noteq> None \<or> cv_pending V order' < cv_pending V order)) \<and>
     (\<forall>order csr. am_confirm_validations A order = Some csr \<longrightarrow> cv_csr_domain V csr = cv_order_domain V order) \<and>
     (\<forall>w csr. \<exists>oc w'. am_finalize_pkey A w csr = (Ok oc, w') \<and> cv_cert_domain V oc = cv_csr_domain V csr \<and> ca_keeps V w w') \<and>
     (\<forall>w oc. \<exists>cert w'. am_download_and_save_cert A w oc = (Ok cert, w') \<and> usable_cert P fits cert \<and>
        cv_saved V w' = (cv_saved V w)(cv_cert_domain V oc \<mapsto> cert))"

lemma ca_laws_rules:
  assumes "ca_laws A P fits V"
  shows "am_certificate A w d = Ok (cv_saved V w d)"
    and "cv_saved V w d = Some cert \<Longrightarrow> usable_cert P fits cert"
    and "\<exists>order w'. am_new_order A w d = (Ok order, w') \<and> cv_order_domain V order = d \<and> ca_keeps V w w'"
    and "\<exists>w'. am_authorizations A w order = (Ok (cv_auths V order), w') \<and> ca_keeps V w w'"
    and "view (au_domain a) = Some (au_token a, au_proof a) \<Longrightarrow>
      \<exists>w'. am_validate A w view a = (Ok (), w') \<and> cv_valid V w' a \<and> ca_keeps V w w'"
    and "am_refresh A w order = (order', w') \<Longrightarrow> ca_keeps V w w' \<and> cv_auths V order' = cv_auths V order \<and>
      cv_order_domain V order' = cv_order_domain V order \<and>
      ((\<forall>a\<in>set (cv_auths V order). cv_valid V w a) \<longrightarrow>
         am_confirm_validations A order' \<noteq> None \<or> cv_pending V order' < cv_pending V order)"
    and "am_confirm_validations A order = Some csr \<Longrightarrow> cv_csr_domain V csr = cv_order_domain V order"
    and "\<exists>oc w'. am_finalize_pkey A w csr = (Ok oc, w') \<and> cv_cert_domain V oc = cv_csr_domain V csr \<and> ca_keeps V w w'"
    and "\<exists>cert w'. am_download_and_save_cert A w oc = (Ok cert, w') \<and> usable_cert P fits cert \<and>
      cv_saved V w' = (cv_saved V w)(cv_cert_domain V oc \<mapsto> cert)"
  using assms unfolding ca_laws_def by (elim conjE, (blast | simp | metis))+

lemma ca_keeps_refl [simp]: "ca_keeps V w w"
  by (simp add: ca_keeps_def)

lemma ca_keeps_trans: "ca_keeps V w w1 \<Longrightarrow> ca_keeps V w1 w2 \<Longrightarrow> ca_keeps V w w2"
  by (simp add: ca_keeps_def)

lemma ca_keepsD:
  assumes "ca_keeps V w w'"
  shows "cv_saved V w' = cv_saved V w" and "cv_valid V w a \<Longrightarrow> cv_valid V w' a"
  using assms by (simp_all add: ca_keeps_def)

lemma usable_cert_bundle:
  assumes "usable_cert P fits cert"
  shows "\<exists>c. bundle_certificate P (ac_certificate cert) (ac_private_key cert) = Ok c \<and> fits c"
  using assms
  by (auto simp: usable_cert_def bundle_certificate_def bundle_leaf_chain parse_x509_cert_def parse_private_key_def)

text \<open>The certificate \<open>c\<close> is the one of the bundle that the client saved for the domain.\<close>

definition delivered :: "('k, 'x) pki \<Rightarrow> ('w, 'o, 'csr, 'oc) ca_view \<Rightarrow> 'w \<Rightarrow> string \<Rightarrow> ('k, 'x) Certificate \<Rightarrow> bool" where
  "delivered P V w d c \<longleftrightarrow> (\<exists>cert. cv_saved V w d = Some cert \<and>
     bundle_certificate P (ac_certificate cert) (ac_private_key cert) = Ok c)"

text \<open>A host whose saved certificate is due for renewal.\<close>

definition expiring :: "('w, 'o, 'csr, 'oc) ca_view \<Rightarrow> 'w \<Rightarrow> string \<Rightarrow> bool" where
  "expiring V w d \<longleftrightarrow> (\<exists>old. cv_saved V w d = Some old \<and> ac_valid_days_left old \<le> DEFAULT_RENEW_INTERVAL_DAYS)"

text \<open>A renewed host: its stored (\<open>certs\<close>) and its saved certificate are those of one download.\<close>

definition renewed ::
  "('w, 'o, 'csr, 'oc, 'k, 'x) acme \<Rightarrow> ('k, 'x) pki \<Rightarrow> ('w, 'o, 'csr, 'oc) ca_view \<Rightarrow>
   (string \<Rightarrow> ('k, 'x) Certificate option) \<Rightarrow> 'w \<Rightarrow> string \<Rightarrow> bool" where
  "renewed A P V certs w' d \<longleftrightarrow> (\<exists>new c oc w1 w2. am_download_and_save_cert A w1 oc = (Ok new, w2) \<and> cv_cert_domain V oc = d \<and>
     cv_saved V w' d = Some new \<and> bundle_certificate P (ac_certificate new) (ac_private_key new) = Ok c \<and> certs d = Some c)"

text \<open>A store whose writes succeed.\<close>

locale reliable_store = acme_store +
  assumes set_certificate_works: "inv s \<Longrightarrow> \<exists>s'. so_set_certificate S s d c = (s', Ok ())"
    and set_challenge_works: "inv s \<Longrightarrow> \<exists>s'. so_set_challenge S s d t p = (s', Ok ())"
begin

text \<open>Every challenge is stored, so it is served when it is validated; afterwards all are valid.\<close>

lemma challenge_loop_works:
  assumes "ca_laws A P fits V"
  shows "inv s \<Longrightarrow> \<exists>s' w'. challenge_loop A S auths (s, w) = (Ok (), (s', w')) \<and> inv s' \<and> certs_of s' = certs_of s \<and>
    ca_keeps V w w' \<and> (\<forall>a\<in>set auths. cv_valid V w' a)"
proof (induction auths arbitrary: s w)
  case (Cons a auths)
  obtain s1 where set: "so_set_challenge S s (au_domain a) (au_token a) (au_proof a) = (s1, Ok ())"
    using set_challenge_works [OF Cons.prems] by blast
  have s1: "inv s1" "certs_of s1 = certs_of s" "challenges_of s1 (au_domain a) = Some (au_token a, au_proof a)"
    using set_challenge_spec [OF Cons.prems set] by auto
  then obtain w1 where w1: "am_validate A w (served S s1) a = (Ok (), w1)" "cv_valid V w1 a" "ca_keeps V w w1"
    using ca_laws_rules(5) [OF assms, of "served S s1" a w] served_eq by auto
  obtain s' w' where r: "challenge_loop A S auths (s1, w1) = (Ok (), (s', w'))" "inv s'" "certs_of s' = certs_of s1"
    "ca_keeps V w1 w'" "\<forall>a\<in>set auths. cv_valid V w' a"
    using Cons.IH [OF s1(1)] by blast
  with set w1 s1(2) ca_keeps_trans [OF w1(3) r(4)] ca_keepsD(2) [OF r(4) w1(2)] show ?case by simp
qed auto

lemma order_round_works:
  assumes "ca_laws A P fits V" and "inv s"
  shows "\<exists>o2 s' w'. order_round A S o1 (s, w) = (Ok o2, (s', w')) \<and> inv s' \<and> certs_of s' = certs_of s \<and>
    ca_keeps V w w' \<and> cv_order_domain V o2 = cv_order_domain V o1 \<and>
    (am_confirm_validations A o2 = None \<longrightarrow> cv_pending V o2 < cv_pending V o1)"
proof -
  obtain w1 where a: "am_authorizations A w o1 = (Ok (cv_auths V o1), w1)" "ca_keeps V w w1"
    using ca_laws_rules(4) [OF assms(1)] by blast
  obtain s1 w2 where c: "challenge_loop A S (cv_auths V o1) (s, w1) = (Ok (), (s1, w2))" "inv s1" "certs_of s1 = certs_of s"
    "ca_keeps V w1 w2" "\<forall>a\<in>set (cv_auths V o1). cv_valid V w2 a"
    using challenge_loop_works [OF assms] by blast
  obtain o2 w3 where r: "am_refresh A w2 o1 = (o2, w3)" by fastforce
  have "ca_keeps V w w3"
    using ca_keeps_trans [OF ca_keeps_trans [OF a(2) c(4)]] ca_laws_rules(6) [OF assms(1) r] by blast
  then show ?thesis
    using a(1) c r ca_laws_rules(6) [OF assms(1) r]
    by (intro exI [of _ o2] exI [of _ s1] exI [of _ w3]) (auto simp: order_round_def handle_http_01_challenge_def)
qed

lemma order_loop_ends:
  assumes "ca_laws A P fits V" and "inv s"
  shows "\<exists>csr s' w'. order_loop A S o1 (s, w) = Some (Ok csr, (s', w')) \<and> inv s' \<and> certs_of s' = certs_of s \<and>
    ca_keeps V w w' \<and> cv_csr_domain V csr = cv_order_domain V o1"
  using assms(2)
proof (induction "cv_pending V o1" arbitrary: o1 s w rule: less_induct)
  case less
  show ?case
  proof (cases "am_confirm_validations A o1")
    case (Some csr)
    with less.prems ca_laws_rules(7) [OF assms(1) Some] show ?thesis by (subst order_loop.simps) auto
  next
    case None
    obtain o2 s1 w1 where r: "order_round A S o1 (s, w) = (Ok o2, (s1, w1))" "inv s1" "certs_of s1 = certs_of s"
      "ca_keeps V w w1" "cv_order_domain V o2 = cv_order_domain V o1"
      "am_confirm_validations A o2 = None \<longrightarrow> cv_pending V o2 < cv_pending V o1"
      using order_round_works [OF assms(1) less.prems, of o1 w] by (elim exE conjE) (rule that)
    have "\<exists>csr s' w'. order_loop A S o2 (s1, w1) = Some (Ok csr, (s', w')) \<and> inv s' \<and> certs_of s' = certs_of s1 \<and>
        ca_keeps V w1 w' \<and> cv_csr_domain V csr = cv_order_domain V o2"
    proof (cases "am_confirm_validations A o2")
      case None
      with r(6) less.hyps r(2) show ?thesis by blast
    next
      case (Some csr)
      with r(2) ca_laws_rules(7) [OF assms(1) Some] show ?thesis by (subst order_loop.simps) auto
    qed
    then obtain csr s' w' where "order_loop A S o2 (s1, w1) = Some (Ok csr, (s', w'))" "inv s'" "certs_of s' = certs_of s1"
      "ca_keeps V w1 w'" "cv_csr_domain V csr = cv_order_domain V o2" by blast
    with None r(1,3,5) ca_keeps_trans [OF r(4)] show ?thesis by (subst order_loop.simps) auto
  qed
qed

lemma insert_certificate_works:
  assumes "inv s" and "usable_cert P fits cert"
  shows "\<exists>s' c. insert_certificate P S d (ac_certificate cert) (ac_private_key cert) s = (s', Ok ()) \<and> inv s' \<and>
    bundle_certificate P (ac_certificate cert) (ac_private_key cert) = Ok c \<and> fits c \<and> certs_of s' = (certs_of s)(d \<mapsto> c)"
proof -
  obtain c where c: "bundle_certificate P (ac_certificate cert) (ac_private_key cert) = Ok c" "fits c"
    using usable_cert_bundle [OF assms(2)] by blast
  obtain s' where s': "so_set_certificate S s d c = (s', Ok ())"
    using set_certificate_works [OF assms(1)] by blast
  from set_certificate_spec [OF assms(1) s'] c s' show ?thesis by (auto simp: insert_certificate_def)
qed

lemma create_order_works:
  assumes "ca_laws A P fits V" and "inv s"
  shows "\<exists>s' w' cert c oc w3. create_order_for_domain A P S d (s, w) = Some (Ok (), (s', w')) \<and> inv s' \<and>
    am_download_and_save_cert A w3 oc = (Ok cert, w') \<and> cv_cert_domain V oc = d \<and>
    cv_saved V w' = (cv_saved V w)(d \<mapsto> cert) \<and>
    bundle_certificate P (ac_certificate cert) (ac_private_key cert) = Ok c \<and> fits c \<and> certs_of s' = (certs_of s)(d \<mapsto> c)"
proof -
  obtain o1 w1 where n: "am_new_order A w d = (Ok o1, w1)" "cv_order_domain V o1 = d" "ca_keeps V w w1"
    using ca_laws_rules(3) [OF assms(1)] by blast
  obtain csr s1 w2 where l: "order_loop A S o1 (s, w1) = Some (Ok csr, (s1, w2))" "inv s1" "certs_of s1 = certs_of s"
    "ca_keeps V w1 w2" "cv_csr_domain V csr = cv_order_domain V o1"
    using order_loop_ends [OF assms] by blast
  obtain oc w3 where f: "am_finalize_pkey A w2 csr = (Ok oc, w3)" "cv_cert_domain V oc = cv_csr_domain V csr" "ca_keeps V w2 w3"
    using ca_laws_rules(8) [OF assms(1)] by blast
  obtain cert w4 where dl: "am_download_and_save_cert A w3 oc = (Ok cert, w4)" "usable_cert P fits cert"
    "cv_saved V w4 = (cv_saved V w3)(cv_cert_domain V oc \<mapsto> cert)"
    using ca_laws_rules(9) [OF assms(1)] by blast
  obtain s' c where ins: "insert_certificate P S d (ac_certificate cert) (ac_private_key cert) s1 = (s', Ok ())" "inv s'"
    "bundle_certificate P (ac_certificate cert) (ac_private_key cert) = Ok c" "fits c" "certs_of s' = (certs_of s1)(d \<mapsto> c)"
    using insert_certificate_works [OF l(2) dl(2)] by blast
  have "cv_saved V w4 = (cv_saved V w)(d \<mapsto> cert)"
    using dl(3) ca_keepsD(1) [OF n(3)] ca_keepsD(1) [OF l(4)] ca_keepsD(1) [OF f(3)] n(2) l(5) f(2) by simp
  moreover have "create_order_for_domain A P S d (s, w) = Some (Ok (), (s', w4))"
    using n(1) l(1) f(1) dl(1) ins(1) by (simp add: create_order_for_domain_def finish_order_def)
  moreover have "cv_cert_domain V oc = d" using f(2) l(5) n(2) by simp
  ultimately show ?thesis using ins(2-5) dl(1) l(3)
    by (intro exI [of _ s'] exI [of _ w4] exI [of _ cert] exI [of _ c] exI [of _ oc] exI [of _ w3]) simp
qed

lemma handle_works:
  assumes "ca_laws A P fits V" and "inv s" and "certs_of s d = None"
  shows "\<exists>s' w' c. handle_certificate_for_domain A P S d b (s, w) = Some (Ok (), (s', w')) \<and> inv s' \<and>
    certs_of s' = (certs_of s)(d \<mapsto> c) \<and> delivered P V w' d c \<and> fits c \<and> (\<forall>d'. d' \<noteq> d \<longrightarrow> cv_saved V w' d' = cv_saved V w d')"
proof (cases "cv_saved V w d")
  case None
  then have k: "am_certificate A w d = Ok None" using ca_laws_rules(1) [OF assms(1)] by simp
  obtain s' w' cert c where o1: "create_order_for_domain A P S d (s, w) = Some (Ok (), (s', w'))" "inv s'"
    "cv_saved V w' = (cv_saved V w)(d \<mapsto> cert)"
    "bundle_certificate P (ac_certificate cert) (ac_private_key cert) = Ok c" "fits c" "certs_of s' = (certs_of s)(d \<mapsto> c)"
    using create_order_works [OF assms(1,2), of d w] by (elim exE conjE) (rule that)
  have "handle_certificate_for_domain A P S d b (s, w) = Some (Ok (), (s', w'))"
    using k o1(1) by (simp add: handle_certificate_for_domain_def)
  with o1(2-6) show ?thesis by (auto simp: delivered_def)
next
  case (Some cert)
  then have k: "am_certificate A w d = Ok (Some cert)" using ca_laws_rules(1) [OF assms(1)] by simp
  obtain s1 m where g: "so_get_certificates S s = (s1, Ok m)" "hm_get m = certs_of s" "inv s1" "certs_of s1 = certs_of s"
    using get_certificates_spec [OF assms(2)] by blast
  obtain s' c where ins: "insert_certificate P S d (ac_certificate cert) (ac_private_key cert) s1 = (s', Ok ())" "inv s'"
    "bundle_certificate P (ac_certificate cert) (ac_private_key cert) = Ok c" "fits c" "certs_of s' = (certs_of s1)(d \<mapsto> c)"
    using insert_certificate_works [OF g(3) ca_laws_rules(2) [OF assms(1) Some]] by blast
  have "handle_certificate_for_domain A P S d b (s, w) = Some (Ok (), (s', w))"
    using k g(1,2) assms(3) ins(1) by (simp add: handle_certificate_for_domain_def hm_contains_def)
  with ins(2-5) g(4) Some show ?thesis by (auto simp: delivered_def)
qed

text \<open>A round gives every host that had no certificate the one delivered for it, and leaves the others alone.\<close>

lemma watch_round_covers:
  assumes "ca_laws A P fits V"
  shows "inv s \<Longrightarrow> \<exists>s' w'. watch_round A P S routes (s, w) = Some (Ok (), (s', w')) \<and> inv s' \<and>
    (\<forall>d. if d \<in> fst ` set routes \<and> certs_of s d = None
         then \<exists>c. certs_of s' d = Some c \<and> delivered P V w' d c \<and> fits c
         else certs_of s' d = certs_of s d \<and> cv_saved V w' d = cv_saved V w d)"
proof (induction routes arbitrary: s w)
  case (Cons kv routes)
  obtain key rc where kv: "kv = (key, rc)" by fastforce
  obtain s1 m where g: "so_get_certificates S s = (s1, Ok m)" "hm_get m = certs_of s" "inv s1" "certs_of s1 = certs_of s"
    using get_certificates_spec [OF Cons.prems] by blast
  show ?case
  proof (cases "certs_of s key")
    case (Some c0)
    obtain s' w' where r: "watch_round A P S routes (s1, w) = Some (Ok (), (s', w'))" "inv s'"
      "\<forall>d. if d \<in> fst ` set routes \<and> certs_of s1 d = None
         then \<exists>c. certs_of s' d = Some c \<and> delivered P V w' d c \<and> fits c
         else certs_of s' d = certs_of s1 d \<and> cv_saved V w' d = cv_saved V w d"
      using Cons.IH [OF g(3)] by blast
    moreover have "watch_round A P S (kv # routes) (s, w) = Some (Ok (), (s', w'))"
      using Some kv g(1,2) r(1) by (simp add: hm_contains_def)
    moreover have "if d \<in> fst ` set (kv # routes) \<and> certs_of s d = None
         then \<exists>c. certs_of s' d = Some c \<and> delivered P V w' d c \<and> fits c
         else certs_of s' d = certs_of s d \<and> cv_saved V w' d = cv_saved V w d" for d
      using r(3) [rule_format, of d] g(4) kv Some by (cases "d = key") (simp_all split: if_splits)
    ultimately show ?thesis by blast
  next
    case None
    then have none: "certs_of s1 key = None" using g(4) by simp
    obtain s2 w2 c where h: "handle_certificate_for_domain A P S key (co_self_signed_certificate rc) (s1, w) = Some (Ok (), (s2, w2))"
      "inv s2" "certs_of s2 = (certs_of s1)(key \<mapsto> c)" "delivered P V w2 key c" "fits c"
      "\<forall>d'. d' \<noteq> key \<longrightarrow> cv_saved V w2 d' = cv_saved V w d'"
      using handle_works [OF assms g(3) none, of "co_self_signed_certificate rc" w] by (elim exE conjE) (rule that)
    obtain s' w' where r: "watch_round A P S routes (s2, w2) = Some (Ok (), (s', w'))" "inv s'"
      and rd: "\<forall>d. if d \<in> fst ` set routes \<and> certs_of s2 d = None
         then \<exists>c. certs_of s' d = Some c \<and> delivered P V w' d c \<and> fits c
         else certs_of s' d = certs_of s2 d \<and> cv_saved V w' d = cv_saved V w2 d"
      using Cons.IH [OF h(2)] by blast
    have run: "watch_round A P S (kv # routes) (s, w) = Some (Ok (), (s', w'))"
      using None kv g(1,2) h(1) r(1) by (simp add: hm_contains_def)
    have "certs_of s' key = Some c" "cv_saved V w' key = cv_saved V w2 key"
      using rd [rule_format, of key] h(3) by (auto split: if_splits)
    then have key: "certs_of s' key = Some c \<and> delivered P V w' key c \<and> fits c"
      using h(4,5) by (simp add: delivered_def)
    have "if d \<in> fst ` set (kv # routes) \<and> certs_of s d = None
         then \<exists>c. certs_of s' d = Some c \<and> delivered P V w' d c \<and> fits c
         else certs_of s' d = certs_of s d \<and> cv_saved V w' d = cv_saved V w d" for d
    proof (cases "d = key")
      case True
      with key None kv show ?thesis by auto
    next
      case False
      with rd [rule_format, of d] h(3,6) g(4) kv show ?thesis by (auto split: if_splits)
    qed
    with run r(2) show ?thesis by blast
  qed
qed simp

text \<open>A round renews exactly the routed hosts whose saved certificate is due.\<close>

lemma renew_round_works:
  assumes "ca_laws A P fits V"
  shows "inv s \<Longrightarrow> distinct (map fst routes) \<Longrightarrow>
    \<exists>s' w'. renew_round A P S routes (s, w) = Some (Ok (), (s', w')) \<and> inv s' \<and>
    (\<forall>d. if d \<in> fst ` set routes \<and> expiring V w d then renewed A P V (certs_of s') w' d
         else certs_of s' d = certs_of s d \<and> cv_saved V w' d = cv_saved V w d)"
proof (induction routes arbitrary: s w)
  case (Cons kv routes)
  obtain key rc where kv: "kv = (key, rc)" by fastforce
  have dist: "distinct (map fst routes)" and fresh: "key \<notin> fst ` set routes" using Cons.prems(2) kv by auto
  note saved = ca_laws_rules(1) [OF assms, of w key]
  show ?case
  proof (cases "expiring V w key")
    case False
    then have "renew_round A P S (kv # routes) (s, w) = renew_round A P S routes (s, w)"
      using saved kv by (auto simp: expiring_def not_le split: option.splits)
    moreover have "d \<in> fst ` set (kv # routes) \<and> expiring V w d \<longleftrightarrow> d \<in> fst ` set routes \<and> expiring V w d" for d
      using False kv by auto
    ultimately show ?thesis using Cons.IH [OF Cons.prems(1) dist, of w] by (simp only:)
  next
    case True
    then obtain old where old: "cv_saved V w key = Some old" "ac_valid_days_left old \<le> DEFAULT_RENEW_INTERVAL_DAYS"
      by (auto simp: expiring_def)
    obtain s1 w1 new c oc w3 where o1: "create_order_for_domain A P S key (s, w) = Some (Ok (), (s1, w1))" "inv s1"
      and dl: "am_download_and_save_cert A w3 oc = (Ok new, w1)" "cv_cert_domain V oc = key"
      and sv: "cv_saved V w1 = (cv_saved V w)(key \<mapsto> new)"
      and c: "bundle_certificate P (ac_certificate new) (ac_private_key new) = Ok c" "certs_of s1 = (certs_of s)(key \<mapsto> c)"
      using create_order_works [OF assms Cons.prems(1), of key w] by (elim exE conjE) (rule that)
    obtain s' w' where r: "renew_round A P S routes (s1, w1) = Some (Ok (), (s', w'))" "inv s'"
      and rd: "\<forall>d. if d \<in> fst ` set routes \<and> expiring V w1 d then renewed A P V (certs_of s') w' d
         else certs_of s' d = certs_of s1 d \<and> cv_saved V w' d = cv_saved V w1 d"
      using Cons.IH [OF o1(2) dist] by blast
    have run: "renew_round A P S (kv # routes) (s, w) = Some (Ok (), (s', w'))"
      using kv saved old o1(1) r(1) by simp
    have key: "renewed A P V (certs_of s') w' key"
      using rd [rule_format, of key] fresh dl c sv unfolding renewed_def by auto
    have "if d \<in> fst ` set (kv # routes) \<and> expiring V w d then renewed A P V (certs_of s') w' d
         else certs_of s' d = certs_of s d \<and> cv_saved V w' d = cv_saved V w d" for d
    proof (cases "d = key")
      case True
      with key \<open>expiring V w key\<close> kv show ?thesis by simp
    next
      case False
      then have "expiring V w1 d = expiring V w d" using sv by (simp add: expiring_def)
      with rd [rule_format, of d] False sv c(2) kv show ?thesis by (auto split: if_splits)
    qed
    with run r(2) show ?thesis by blast
  qed
qed simp

end

interpretation memory_acme: reliable_store memory_ops "\<lambda>s. hm_get (ms_certs s)" "\<lambda>s. hm_get (ms_challenges s)" "\<lambda>_. True"
  by unfold_locales (auto simp: memory_ops_def memory_store_defs fun_eq_iff)

lemma redis_set_fails:
  "redis_set_certificate P s d c = (s', r) \<Longrightarrow> r \<noteq> Ok () \<Longrightarrow> s' = s"
  "redis_set_challenge P s d t p = (s', r) \<Longrightarrow> r \<noteq> Ok () \<Longrightarrow> s' = s"
  by (auto simp: redis_set_certificate_def redis_set_challenge_def split: if_splits res.splits option.splits)

interpretation redis_acme: acme_store "redis_ops P" "redis_certs_of P" "redis_challenges_of P" "redis_inv P" for P
  by unfold_locales
    (unfold redis_ops_def store_ops.select_convs,
      (fact redis_get_certificate_spec redis_set_certificate_spec redis_get_certificates_spec
        redis_get_challenge_spec redis_set_challenge_spec redis_set_fails)+)

section \<open>A concrete authority\<close>

text \<open>
  The authority remembers the valid authorizations and the client its certificates. An order is a
  domain and how many refreshes it still takes; it only moves when its challenge is valid, which is
  checked against what is served.
\<close>

type_synonym example_world = "acme_auth list \<times> (string \<Rightarrow> int option)"

definition example_world :: example_world where
  "example_world = ([], \<lambda>_. None)"

definition example_auth :: "string \<Rightarrow> acme_auth" where
  "example_auth d = \<lparr>au_domain = d, au_token = ''t'', au_proof = ''p''\<rparr>"

definition example_pem :: string where
  "example_pem = CHR ''-'' # END_CERTIFICATE"

definition example_bundle_cert :: "int \<Rightarrow> acme_cert" where
  "example_bundle_cert days = \<lparr>ac_certificate = example_pem @ CHR 0x0A # example_pem @ [CHR 0x0A],
     ac_private_key = ''key'', ac_valid_days_left = days\<rparr>"

definition example_acme :: "(example_world, string \<times> nat, string, string, string, string) acme" where
  "example_acme = \<lparr>am_certificate = (\<lambda>w d. Ok (map_option example_bundle_cert (snd w d))), am_new_order = (\<lambda>w d. (Ok (d, 2), w)),
     am_confirm_validations = (\<lambda>(d, n). if n = 0 then Some d else None),
     am_authorizations = (\<lambda>w (d, n). (Ok [example_auth d], w)),
     am_validate = (\<lambda>w view a. if view (au_domain a) = Some (au_token a, au_proof a)
        then (Ok (), (a # fst w, snd w)) else (Err ''invalid'', w)),
     am_refresh = (\<lambda>w (d, n). ((d, if example_auth d \<in> set (fst w) then n - 1 else n), w)),
     am_finalize_pkey = (\<lambda>w csr. (Ok csr, w)),
     am_download_and_save_cert = (\<lambda>w oc. (Ok (example_bundle_cert 90), (fst w, (snd w)(oc \<mapsto> 90)))),
     am_build_x509 = (\<lambda>r. Ok (''self'', ''signed''))\<rparr>"

definition example_view :: "(example_world, string \<times> nat, string, string) ca_view" where
  "example_view = \<lparr>cv_auths = (\<lambda>(d, n). [example_auth d]), cv_valid = (\<lambda>w a. a \<in> set (fst w)), cv_pending = snd,
     cv_order_domain = fst, cv_csr_domain = id, cv_cert_domain = id,
     cv_saved = (\<lambda>w d. map_option example_bundle_cert (snd w d))\<rparr>"

lemma example_pem_block: "pem_block example_pem"
  unfolding pem_block_def example_pem_def
  by (rule exI [of _ "''-''"]) (simp add: END_CERTIFICATE_def)

lemma example_usable: "usable_cert example_pki (\<lambda>c. ce_key c = ''key'') (example_bundle_cert days)"
  unfolding usable_cert_def
  by (rule exI [of _ example_pem], rule exI [of _ example_pem], rule exI [of _ "[CHR 0x0A]"])
    (simp add: example_bundle_cert_def example_pem_block example_pki_def)

lemma example_acme_laws: "ca_laws example_acme example_pki (\<lambda>c. ce_key c = ''key'') example_view"
  unfolding ca_laws_def example_acme_def example_view_def ca_keeps_def
  by (intro conjI) (auto simp: example_usable split: if_splits)

section \<open>Properties\<close>

text \<open>
  C15. With an authority that makes an order ready only when its challenges have been validated, and
  validates only what is served, ordering a certificate ends: afterwards the downloaded bundle is
  saved for the domain and the store answers with its certificate.
\<close>

theorem order_completes:
  assumes "ca_laws A P fits V"
  shows "\<exists>s' w' cert c oc w3. create_order_for_domain A P memory_ops d (s, w) = Some (Ok (), (s', w')) \<and>
    am_download_and_save_cert A w3 oc = (Ok cert, w') \<and> cv_cert_domain V oc = d \<and>
    am_certificate A w' d = Ok (Some cert) \<and>
    bundle_certificate P (ac_certificate cert) (ac_private_key cert) = Ok c \<and>
    memory_get_certificate s' d = (s', Ok (Some c))"
  using memory_acme.create_order_works [OF assms TrueI, of d s w]
  by (fastforce simp: memory_get_certificate_def ca_laws_rules(1) [OF assms])

theorem order_completes_witness:
  "\<exists>s' w' c. create_order_for_domain example_acme example_pki memory_ops ''a.io'' (memory_new, example_world) = Some (Ok (), (s', w')) \<and>
     memory_get_certificate s' ''a.io'' = (s', Ok (Some c))"
  using order_completes [OF example_acme_laws, of "''a.io''" memory_new example_world] by blast

text \<open>
  With such an authority, a round of the service over the route table ends and leaves every
  routed host with a certificate.
\<close>

theorem routed_hosts_get_certificates:
  assumes "ca_laws A P fits V"
  shows "\<exists>s' w'. watch_round A P memory_ops routes (s, w) = Some (Ok (), (s', w')) \<and>
    (\<forall>host rc. (host, rc) \<in> set routes \<longrightarrow> (\<exists>c. memory_get_certificate s' host = (s', Ok (Some c))))"
proof -
  obtain s' w' where run: "watch_round A P memory_ops routes (s, w) = Some (Ok (), (s', w'))"
    and d: "\<forall>d. if d \<in> fst ` set routes \<and> hm_get (ms_certs s) d = None
         then \<exists>c. hm_get (ms_certs s') d = Some c \<and> delivered P V w' d c \<and> fits c
         else hm_get (ms_certs s') d = hm_get (ms_certs s) d \<and> cv_saved V w' d = cv_saved V w d"
    using memory_acme.watch_round_covers [OF assms, where s = s and routes = routes and w = w] by blast
  have "hm_get (ms_certs s') host \<noteq> None" if "(host, rc) \<in> set routes" for host rc
    using d [rule_format, of host] that by (force split: if_splits)
  with run show ?thesis by (auto simp: memory_get_certificate_def)
qed

theorem routed_hosts_get_certificates_witness:
  "\<exists>s' w' c. watch_round example_acme example_pki memory_ops [(''a.io'', container_new ())] (memory_new, example_world) = Some (Ok (), (s', w')) \<and>
     memory_get_certificate s' ''a.io'' = (s', Ok (Some c))"
  using routed_hosts_get_certificates [OF example_acme_laws, of "[(''a.io'', container_new ())]" memory_new example_world] by fastforce



text \<open>
  C25. Whatever the authority, the network and the Redis server do: a round of the loop that watches
  for new routes replaces no certificate of a working Redis store and adds none for a host without a
  route; a round of the renewal loop, which replaces certificates, touches those of routed hosts only
  and removes none.
\<close>

theorem service_replaces_no_certificate:
  assumes "redis_inv P s" and "watch_round A P (redis_ops P) routes (s, w) = Some (r, (s1, w1))"
    and "renew_round A P (redis_ops P) routes (s, w) = Some (r', (s2, w2))"
  shows "(snd (redis_get_certificate P s d) \<noteq> Ok None \<or> d \<notin> fst ` set routes \<longrightarrow>
      snd (redis_get_certificate P s1 d) = snd (redis_get_certificate P s d)) \<and>
    (d \<notin> fst ` set routes \<longrightarrow> snd (redis_get_certificate P s2 d) = snd (redis_get_certificate P s d)) \<and>
    (snd (redis_get_certificate P s d) \<noteq> Ok None \<longrightarrow> snd (redis_get_certificate P s2 d) \<noteq> Ok None)"
proof -
  have watch: "redis_inv P s1" "redis_certs_of P s1 d = redis_certs_of P s d \<or>
      redis_certs_of P s d = None \<and> d \<in> fst ` set routes"
    using redis_acme.watch_round_result [OF assms(1,2)] by blast+
  have renew: "redis_inv P s2" "redis_certs_of P s2 d = redis_certs_of P s d \<or>
      redis_certs_of P s2 d \<noteq> None \<and> d \<in> fst ` set routes"
    using redis_acme.renew_round_result [OF assms(1,3)] by blast+
  have get: "snd (redis_get_certificate P t d) = Ok (redis_certs_of P t d)" if "redis_inv P t" for t
    using redis_get_certificate_spec [OF that, of d] by auto
  show ?thesis
    unfolding get [OF assms(1)] get [OF watch(1)] get [OF renew(1)] using watch(2) renew(2) by auto
qed

theorem service_replaces_no_certificate_witness:
  "\<exists>(s :: (string, string, (string \<times> string) list) RedisStore) s1 s2 c.
     watch_round example_acme example_pki (redis_ops example_pki) [(''a.com'', container_new ())] (s, example_world) = Some (Ok (), (s1, example_world)) \<and>
     renew_round example_acme example_pki (redis_ops example_pki) [(''a.com'', container_new ())] (s, example_world) = Some (Ok (), (s2, example_world)) \<and>
     snd (redis_get_certificate example_pki s1 ''a.com'') = Ok (Some c) \<and> snd (redis_get_certificate example_pki s2 ''a.com'') \<noteq> Ok None"
proof -
  obtain s c where set: "redis_set_certificate example_pki example_replica ''a.com'' c = (s, Ok ())"
    using example_set_certificate by blast
  have s: "redis_inv example_pki s" "redis_certs_of example_pki s ''a.com'' = Some c"
    using redis_set_certificate_spec [OF example_replica_inv set] by auto
  obtain s1 m where g: "redis_get_certificates example_pki s = (s1, Ok m)" "hm_get m = redis_certs_of example_pki s"
    using redis_get_certificates_spec [OF s(1)] by blast
  have run: "watch_round example_acme example_pki (redis_ops example_pki) [(''a.com'', container_new ())] (s, example_world) = Some (Ok (), (s1, example_world))"
    using g s(2) by (simp add: redis_ops_def hm_contains_def)
  have run': "renew_round example_acme example_pki (redis_ops example_pki) [(''a.com'', container_new ())] (s, example_world) = Some (Ok (), (s, example_world))"
    by (simp add: example_acme_def example_world_def)
  have get: "snd (redis_get_certificate example_pki s ''a.com'') = Ok (Some c)"
    using redis_get_certificate_spec [OF s(1), of "''a.com''"] s(2) by auto
  have "snd (redis_get_certificate example_pki s1 ''a.com'') = Ok (Some c) \<and> snd (redis_get_certificate example_pki s ''a.com'') \<noteq> Ok None"
    using service_replaces_no_certificate [OF s(1) run run', of "''a.com''"] get by simp
  with run run' show ?thesis by blast
qed

text \<open>
  Of a downloaded bundle the first block becomes the leaf and the second the chain; blocks after
  the second are dropped.
\<close>

theorem bundle_gives_leaf_and_chain:
  assumes "pem_block leaf" and "pem_block chain" and "pk_x509_from_pem P leaf = Some x"
    and "pk_x509_from_pem P chain = Some y" and "pk_key_from_pem P key = Some k"
  shows "bundle_certificate P (leaf @ CHR 0x0A # chain @ rest) key = Ok \<lparr>ce_key = k, ce_leaf = x, ce_chain = Some y\<rparr>"
  using assms by (simp add: bundle_certificate_def bundle_leaf_chain parse_x509_cert_def parse_private_key_def)

theorem bundle_gives_leaf_and_chain_witness:
  "bundle_certificate example_pki (example_pem @ CHR 0x0A # example_pem @ ''!'') ''k'' =
     Ok \<lparr>ce_key = ''k'', ce_leaf = example_pem, ce_chain = Some example_pem\<rparr>"
  by (rule bundle_gives_leaf_and_chain [OF example_pem_block example_pem_block]) (simp_all add: example_pki_def)

text \<open>
  A bundle of a single certificate that ends with a line break, as PEM files do, is rejected: the
  empty rest after it is taken for a chain. Nothing is stored.
\<close>

theorem single_certificate_is_rejected:
  assumes "pem_block leaf" and "pk_x509_from_pem P [] = None"
  shows "\<exists>e. insert_certificate P S domain (leaf @ [CHR 0x0A]) key s = (s, Err e)"
  using split_bundle_block(1) [OF assms(1), of "[CHR 0x0A]"] assms(2)
  by (cases "pk_x509_from_pem P leaf")
    (auto simp: insert_certificate_def bundle_certificate_def parse_x509_cert_def)

theorem single_certificate_is_rejected_witness:
  "\<exists>e. insert_certificate (example_pki\<lparr>pk_x509_from_pem := (\<lambda>s. if s = [] then None else Some s)\<rparr>) memory_ops ''a.io''
     (example_pem @ [CHR 0x0A]) ''k'' memory_new = (memory_new, Err e)"
  by (rule single_certificate_is_rejected [OF example_pem_block]) simp

text \<open>
  When an order fails, the domain gets the self-signed certificate if the route asks for one, and
  the store is left alone if it does not.
\<close>

theorem failed_order_falls_back:
  assumes "am_certificate A w d = Ok None"
    and "create_order_for_domain A P memory_ops d (s, w) = Some (Err e, (s1, w1))"
    and "am_build_x509 A (self_signed_request d) = Ok (k, x)"
  shows "handle_certificate_for_domain A P memory_ops d True (s, w) =
      Some (Ok (), (fst (memory_set_certificate s1 d \<lparr>ce_key = k, ce_leaf = x, ce_chain = None\<rparr>), w1)) \<and>
    handle_certificate_for_domain A P memory_ops d False (s, w) = Some (Ok (), (s1, w1)) \<and>
    hm_get (ms_certs s1) = hm_get (ms_certs s)"
  using assms memory_acme.create_order_result [OF TrueI assms(2)]
  by (simp add: handle_certificate_for_domain_def create_self_signed_certificate_def memory_ops_def memory_set_certificate_def)

theorem failed_order_falls_back_witness:
  "\<exists>s'. handle_certificate_for_domain (example_acme\<lparr>am_new_order := (\<lambda>w d. (Err ''down'', w))\<rparr>) example_pki memory_ops
     ''a.io'' True (memory_new, example_world) = Some (Ok (), (s', example_world))"
proof -
  let ?A = "example_acme\<lparr>am_new_order := (\<lambda>w d. (Err ''down'', w))\<rparr>"
  have "create_order_for_domain ?A example_pki memory_ops ''a.io'' (memory_new, example_world) = Some (Err ''down'', (memory_new, example_world))"
    by (simp add: create_order_for_domain_def)
  from failed_order_falls_back [OF _ this, of "''self''" "''signed''"] show ?thesis
    by (simp add: example_acme_def example_world_def)
qed

end
