(* ===== verification/Logger.thy ===== *)
theory Logger
  imports Acme_Storage
begin

text \<open>
  Logging (\<open>services/logger/mod.rs\<close>, \<open>rotation.rs\<close>, the level conversion of \<open>config/mod.rs\<close>): which
  events reach the logging channel, and the service that writes the channel to standard output or to
  rotated files. Dates are seconds since the epoch, in UTC: rounding drops the fraction and
  comparisons use whole seconds; dates stay within the range of the \<open>time\<close> crate. That crate's
  formatting, opening files and tokio's \<open>BufWriter\<close> are parameters: a buffered writer is a value of
  the type variable \<open>'w\<close> that writing and flushing replace. The writers that a rotation has
  replaced are kept in a list, so that what reached each of them, and what was still in its buffer
  when it was dropped, can be stated.
\<close>

section \<open>Which events are logged\<close>

datatype LevelFilter = LF_ERROR | LF_WARN | LF_INFO | LF_DEBUG | LF_TRACE

definition level_filter_of :: "LogLevel \<Rightarrow> LevelFilter" where
  "level_filter_of v = (case v of
     Debug \<Rightarrow> LF_DEBUG | Info \<Rightarrow> LF_INFO | Warn \<Rightarrow> LF_WARN | Error \<Rightarrow> LF_ERROR | Trace \<Rightarrow> LF_TRACE)"

record ProxyLog =
  pl_enabled :: bool
  pl_access_logs :: bool
  pl_error_logs :: bool

definition proxy_log_new :: "bool \<Rightarrow> bool \<Rightarrow> bool \<Rightarrow> ProxyLog" where
  "proxy_log_new log_enabled access_logs error_logs =
     \<lparr>pl_enabled = log_enabled, pl_access_logs = access_logs, pl_error_logs = error_logs\<rparr>"

text \<open>The metadata of an event: its level and the names of its fields.\<close>

record event_meta =
  ev_level :: LevelFilter
  ev_fields :: "string list"

text \<open>A writer is its skip flag; writing appends to the channel.\<close>

definition make_writer :: "ProxyLog \<Rightarrow> bool" where
  "make_writer l = False"

definition make_writer_for :: "ProxyLog \<Rightarrow> event_meta \<Rightarrow> bool" where
  "make_writer_for l meta =
     (let skip_log = False;
          skip_log = (if \<not> pl_error_logs l then ev_level meta = LF_ERROR else skip_log);
          skip_log = (if \<not> pl_access_logs l then ''access_log'' \<in> set (ev_fields meta) else skip_log)
      in skip_log \<or> \<not> pl_enabled l)"

definition writer_write :: "bool \<Rightarrow> string \<Rightarrow> string list \<Rightarrow> string list \<times> nat" where
  "writer_write skip_log buf chan = (if \<not> skip_log then (chan @ [buf], length buf) else (chan, length buf))"

section \<open>Rotation\<close>

fun period :: "LogRotation \<Rightarrow> int" where
  "period Minutely = 60"
| "period Hourly = 3600"
| "period Daily = 86400"
| "period Never = 0"

definition round_date :: "LogRotation \<Rightarrow> int \<Rightarrow> (string, int) res" where
  "round_date r date = (case r of
     Minutely \<Rightarrow> Ok (date - date mod 60)
   | Hourly \<Rightarrow> Ok (date - date mod 3600)
   | Daily \<Rightarrow> Ok (date - date mod 86400)
   | Never \<Rightarrow> Panic ''Rotation::NEVER is impossible to round.'')"

definition next_date :: "LogRotation \<Rightarrow> int \<Rightarrow> (string, int option) res" where
  "next_date r current_date = (case r of
     Minutely \<Rightarrow> res_bind (round_date r (current_date + 60)) (\<lambda>d. Ok (Some d))
   | Hourly \<Rightarrow> res_bind (round_date r (current_date + 3600)) (\<lambda>d. Ok (Some d))
   | Daily \<Rightarrow> res_bind (round_date r (current_date + 86400)) (\<lambda>d. Ok (Some d))
   | Never \<Rightarrow> Ok None)"

definition date_format :: "LogRotation \<Rightarrow> string" where
  "date_format r = (case r of
     Minutely \<Rightarrow> ''[year]-[month]-[day]-[hour]-[minute]''
   | Hourly \<Rightarrow> ''[year]-[month]-[day]-[hour]''
   | Daily \<Rightarrow> ''[year]-[month]-[day]''
   | Never \<Rightarrow> [])"

section \<open>The service\<close>

datatype LogWriter = Stdout | LogFile string

text \<open>
  \<open>lr_bufwriter\<close> is the destination and the buffered writer in front of it; \<open>lr_replaced\<close> has those
  it had before, in order. \<open>lx_write\<close> answers how many bytes it took, or \<open>None\<close> for an error.
\<close>

record 'w ProxyLoggerReceiver =
  lr_bufwriter :: "LogWriter \<times> 'w"
  lr_replaced :: "(LogWriter \<times> 'w) list"
  lr_suffix :: string
  lr_next_date :: int
  lr_rotation :: LogRotation

record 'w log_ext =
  lx_format :: "string \<Rightarrow> int \<Rightarrow> string"
  lx_cwd :: "string option"
  lx_open :: "string \<Rightarrow> bool"
  lx_with_capacity :: "nat \<Rightarrow> LogWriter \<Rightarrow> 'w"
  lx_write :: "'w \<Rightarrow> string \<Rightarrow> 'w \<times> nat option"
  lx_flush :: "'w \<Rightarrow> 'w \<times> bool"

definition logger_new :: "'w log_ext \<Rightarrow> 'w ProxyLoggerReceiver" where
  "logger_new X = \<lparr>lr_bufwriter = (Stdout, lx_with_capacity X 10 Stdout), lr_replaced = [], lr_suffix = [],
     lr_next_date = 0, lr_rotation = Never\<rparr>"

definition new_buf_writer :: "'w log_ext \<Rightarrow> LogWriter \<Rightarrow> LogWriter \<times> 'w" where
  "new_buf_writer X writer = (writer, lx_with_capacity X 1024 writer)"

text \<open>Assigning \<open>self.bufwriter\<close> drops the writer that was there.\<close>

definition replace_bufwriter :: "LogWriter \<times> 'w \<Rightarrow> 'w ProxyLoggerReceiver \<Rightarrow> 'w ProxyLoggerReceiver" where
  "replace_bufwriter w st = st\<lparr>lr_bufwriter := w, lr_replaced := lr_replaced st @ [lr_bufwriter st]\<rparr>"

definition write_bufwriter :: "'w log_ext \<Rightarrow> string \<Rightarrow> 'w ProxyLoggerReceiver \<Rightarrow> 'w ProxyLoggerReceiver" where
  "write_bufwriter X buf st =
     (case lr_bufwriter st of (writer, w) \<Rightarrow> st\<lparr>lr_bufwriter := (writer, fst (lx_write X w buf))\<rparr>)"

definition flush_bufwriter :: "'w log_ext \<Rightarrow> 'w ProxyLoggerReceiver \<Rightarrow> 'w ProxyLoggerReceiver" where
  "flush_bufwriter X st =
     (case lr_bufwriter st of (writer, w) \<Rightarrow> st\<lparr>lr_bufwriter := (writer, fst (lx_flush X w))\<rparr>)"

definition log_file :: "string \<Rightarrow> string \<Rightarrow> string" where
  "log_file dir suffix = path_join dir (''proksi'' @ suffix @ ''.log'')"

definition file_buf_writer ::
  "'w log_ext \<Rightarrow> ConfigT \<Rightarrow> int \<Rightarrow> 'w ProxyLoggerReceiver \<Rightarrow> (string, 'w ProxyLoggerReceiver) res" where
  "file_buf_writer X config date st =
     (let st = st\<lparr>lr_suffix := (if lr_rotation st = Never then []
                               else ''.'' @ lx_format X (date_format (lr_rotation st)) date)\<rparr>
      in case lg_path (cf_logging config) of
           None \<Rightarrow> Panic ''called `Option::unwrap()` on a `None` value''
         | Some dir \<Rightarrow>
           (case path_absolute (lx_cwd X) dir of
              None \<Rightarrow> Ok st
            | Some path \<Rightarrow>
              if \<not> lx_open X (log_file path (lr_suffix st)) then Ok st
              else
                (let st = replace_bufwriter (new_buf_writer X (LogFile (log_file path (lr_suffix st)))) st
                 in res_bind (next_date (lr_rotation st) date) (\<lambda>next.
                      Ok (case next of Some d \<Rightarrow> st\<lparr>lr_next_date := d\<rparr> | None \<Rightarrow> st)))))"

definition prepare_buf_writer ::
  "'w log_ext \<Rightarrow> ConfigT \<Rightarrow> int \<Rightarrow> 'w ProxyLoggerReceiver \<Rightarrow> (string, 'w ProxyLoggerReceiver) res" where
  "prepare_buf_writer X config now st =
     (if lg_path (cf_logging config) \<noteq> None
      then file_buf_writer X config now (st\<lparr>lr_rotation := lg_rotation (cf_logging config)\<rparr>)
      else Ok st)"

definition should_rollover :: "'w ProxyLoggerReceiver \<Rightarrow> int \<Rightarrow> int option" where
  "should_rollover st date =
     (if lr_next_date st = 0 then None
      else if date \<ge> lr_next_date st then Some (lr_next_date st)
      else None)"

definition handle_log_rotation ::
  "'w log_ext \<Rightarrow> ConfigT \<Rightarrow> int \<Rightarrow> 'w ProxyLoggerReceiver \<Rightarrow> (string, 'w ProxyLoggerReceiver) res" where
  "handle_log_rotation X config now st =
     (if lr_rotation st = Never then Ok st
      else case should_rollover st now of
             None \<Rightarrow> Ok st
           | Some date \<Rightarrow> file_buf_writer X config date (flush_bufwriter X st))"

text \<open>
  The loop over the channel; each message comes with the time at which it is handled. How much of
  the message the writer took is not looked at.
\<close>

fun logger_loop ::
  "'w log_ext \<Rightarrow> ConfigT \<Rightarrow> (string \<times> int) list \<Rightarrow> 'w ProxyLoggerReceiver \<Rightarrow> (string, 'w ProxyLoggerReceiver) res" where
  "logger_loop X config [] st = Ok st"
| "logger_loop X config ((buf, now) # msgs) st =
     res_bind (handle_log_rotation X config now (write_bufwriter X buf st)) (logger_loop X config msgs)"

definition logger_service ::
  "'w log_ext \<Rightarrow> ConfigT \<Rightarrow> int \<Rightarrow> (string \<times> int) list \<Rightarrow> (string, 'w ProxyLoggerReceiver) res" where
  "logger_service X config start msgs =
     res_bind (prepare_buf_writer X config start (logger_new X)) (logger_loop X config msgs)"

section \<open>What a buffered writer promises\<close>

text \<open>
  Two views of a buffered writer: the bytes that went through it to its destination, and the bytes in its
  buffer. A new one has neither; a write adds the bytes it took, to one or the other; a successful flush
  leaves nothing in the buffer; a write of at most \<open>L\<close> bytes that succeeds takes them all (larger ones
  go to the destination directly, which may take a part). What is in the buffer of a dropped writer
  is lost.
\<close>

record 'w log_view =
  lv_out :: "'w \<Rightarrow> string"
  lv_held :: "'w \<Rightarrow> string"

definition buffered_laws :: "'w log_ext \<Rightarrow> 'w log_view \<Rightarrow> nat \<Rightarrow> bool" where
  "buffered_laws X V L \<longleftrightarrow>
     (\<forall>n d. lv_out V (lx_with_capacity X n d) = [] \<and> lv_held V (lx_with_capacity X n d) = []) \<and>
     (\<forall>w buf w' r. lx_write X w buf = (w', r) \<longrightarrow>
        lv_out V w' @ lv_held V w' = lv_out V w @ lv_held V w @ take (unwrap_or 0 r) buf \<and>
        (\<forall>n. r = Some n \<and> length buf \<le> L \<longrightarrow> n = length buf)) \<and>
     (\<forall>w w' ok. lx_flush X w = (w', ok) \<longrightarrow>
        lv_out V w' @ lv_held V w' = lv_out V w @ lv_held V w \<and> (ok \<longrightarrow> lv_held V w' = []))"

definition writes_succeed :: "'w log_ext \<Rightarrow> bool" where
  "writes_succeed X \<longleftrightarrow> (\<forall>w buf. snd (lx_write X w buf) \<noteq> None) \<and> (\<forall>w. snd (lx_flush X w))"

definition reached :: "'w log_view \<Rightarrow> (LogWriter \<times> 'w) list \<Rightarrow> string" where
  "reached V ws = concat (map (lv_out V \<circ> snd) ws)"

lemma reached_simps [simp]:
  "reached V [] = []" "reached V (ws @ [w]) = reached V ws @ lv_out V (snd w)"
  by (simp_all add: reached_def)

section \<open>Lemmas\<close>

lemma round_date_period: "r \<noteq> Never \<Longrightarrow> round_date r d = Ok (d - d mod period r)"
  by (cases r) (simp_all add: round_date_def)

lemma period_pos: "r \<noteq> Never \<Longrightarrow> 0 < period r"
  by (cases r) simp_all

lemma next_date_eq:
  "next_date r d = Ok (if r = Never then None else Some (d + period r - d mod period r))"
  by (cases r) (simp_all add: next_date_def round_date_def)

text \<open>What the service keeps: the writer follows the rotation and the next date is a period boundary.\<close>

definition logger_inv :: "ConfigT \<Rightarrow> 'w ProxyLoggerReceiver \<Rightarrow> bool" where
  "logger_inv config st \<longleftrightarrow>
     (lr_rotation st \<noteq> Never \<longrightarrow> lg_path (cf_logging config) \<noteq> None \<and> lr_next_date st mod period (lr_rotation st) = 0) \<and>
     (lr_rotation st = Never \<longrightarrow> lr_next_date st = 0)"

text \<open>Everything handed to the service so far: what reached a destination, then the buffer.\<close>

definition written :: "'w log_view \<Rightarrow> 'w ProxyLoggerReceiver \<Rightarrow> string" where
  "written V st = reached V (lr_replaced st @ [lr_bufwriter st]) @ lv_held V (snd (lr_bufwriter st))"

lemma boundary: "0 < p \<Longrightarrow> (d + p - d mod p) mod p = (0 :: int)"
  by (simp add: mod_simps)

lemma bufwriter_ops_keep [simp]:
  "lr_rotation (write_bufwriter X buf st) = lr_rotation st" "lr_next_date (write_bufwriter X buf st) = lr_next_date st"
  "lr_rotation (flush_bufwriter X st) = lr_rotation st" "lr_next_date (flush_bufwriter X st) = lr_next_date st"
  "lr_rotation (replace_bufwriter w st) = lr_rotation st" "lr_next_date (replace_bufwriter w st) = lr_next_date st"
  "logger_inv config (write_bufwriter X buf st) = logger_inv config st"
  "logger_inv config (flush_bufwriter X st) = logger_inv config st"
  by (simp_all add: write_bufwriter_def flush_bufwriter_def replace_bufwriter_def logger_inv_def case_prod_beta)

lemma written_ops:
  assumes "buffered_laws X V L"
  shows "written V (write_bufwriter X buf st) =
      written V st @ take (unwrap_or 0 (snd (lx_write X (snd (lr_bufwriter st)) buf))) buf"
    and "written V (flush_bufwriter X st) = written V st"
    and "snd (lx_flush X (snd (lr_bufwriter st))) \<Longrightarrow> lv_held V (snd (lr_bufwriter (flush_bufwriter X st))) = []"
  using assms
  by (cases "lr_bufwriter st"; cases "lx_write X (snd (lr_bufwriter st)) buf"; cases "lx_flush X (snd (lr_bufwriter st))";
      simp add: written_def write_bufwriter_def flush_bufwriter_def buffered_laws_def)+

lemma written_replace:
  assumes "buffered_laws X V L" and "lv_held V (snd (lr_bufwriter st)) = []"
  shows "written V (replace_bufwriter (new_buf_writer X d) st) = written V st"
    and "lv_held V (snd (lr_bufwriter (replace_bufwriter (new_buf_writer X d) st))) = []"
  using assms reached_simps(2) [of V "lr_replaced st @ [lr_bufwriter st]"]
  by (simp_all add: written_def replace_bufwriter_def new_buf_writer_def buffered_laws_def)

lemma file_buf_writer_ok:
  assumes "lg_path (cf_logging config) \<noteq> None"
    and "lr_rotation st \<noteq> Never \<Longrightarrow> lr_next_date st mod period (lr_rotation st) = 0"
    and "lr_rotation st = Never \<Longrightarrow> lr_next_date st = 0"
  shows "\<exists>st'. file_buf_writer X config date st = Ok st' \<and> logger_inv config st' \<and>
    (buffered_laws X V L \<and> lv_held V (snd (lr_bufwriter st)) = [] \<longrightarrow> written V st' = written V st)"
proof -
  let ?st = "st\<lparr>lr_suffix := (if lr_rotation st = Never then [] else ''.'' @ lx_format X (date_format (lr_rotation st)) date)\<rparr>"
  have w: "written V (s\<lparr>lr_next_date := d\<rparr>) = written V s" "written V ?st = written V st"
    "lr_bufwriter ?st = lr_bufwriter st" for s :: "'a ProxyLoggerReceiver" and d
    by (simp_all add: written_def)
  show ?thesis
    using assms period_pos [of "lr_rotation st"] boundary [of "period (lr_rotation st)" date]
      written_replace(1) [of X V L ?st] w
    by (auto simp: file_buf_writer_def Let_def next_date_eq logger_inv_def split: option.splits)
qed

lemma prepare_ok:
  "\<exists>st. prepare_buf_writer X config now (logger_new X) = Ok st \<and> logger_inv config st \<and>
    (buffered_laws X V L \<longrightarrow> written V st = [])"
proof -
  have new: "buffered_laws X V L \<Longrightarrow> lv_held V (snd (lr_bufwriter (logger_new X))) = [] \<and> written V (logger_new X) = []"
    by (simp add: logger_new_def buffered_laws_def written_def reached_def)
  let ?st = "(logger_new X)\<lparr>lr_rotation := lg_rotation (cf_logging config)\<rparr>"
  have same: "lr_bufwriter ?st = lr_bufwriter (logger_new X)" "written V ?st = written V (logger_new X)"
    "lr_next_date ?st = 0"
    by (simp_all add: written_def logger_new_def)
  show ?thesis
  proof (cases "lg_path (cf_logging config) = None")
    case True
    with new show ?thesis by (simp add: prepare_buf_writer_def logger_inv_def logger_new_def)
  next
    case False
    then show ?thesis
      using file_buf_writer_ok [of config ?st X now V L] new same by (auto simp: prepare_buf_writer_def)
  qed
qed

lemma rotation_ok:
  assumes "logger_inv config st"
  shows "\<exists>st'. handle_log_rotation X config now st = Ok st' \<and> logger_inv config st' \<and>
    (buffered_laws X V L \<and> writes_succeed X \<longrightarrow> written V st' = written V st)"
proof (cases "lr_rotation st = Never \<or> should_rollover st now = None")
  case True
  with assms show ?thesis by (auto simp: handle_log_rotation_def)
next
  case False
  then obtain d where d: "should_rollover st now = Some d" by auto
  have "buffered_laws X V L \<and> writes_succeed X \<longrightarrow>
      lv_held V (snd (lr_bufwriter (flush_bufwriter X st))) = [] \<and> written V (flush_bufwriter X st) = written V st"
    using written_ops(2,3) by (metis writes_succeed_def)
  then show ?thesis
    using file_buf_writer_ok [of config "flush_bufwriter X st" X d V L] False d assms
    by (auto simp: handle_log_rotation_def logger_inv_def)
qed

lemma logger_loop_ok:
  "logger_inv config st \<Longrightarrow> \<exists>st'. logger_loop X config msgs st = Ok st' \<and> logger_inv config st' \<and>
    (buffered_laws X V L \<and> writes_succeed X \<and> (\<forall>m\<in>set msgs. length (fst m) \<le> L) \<longrightarrow>
      written V st' = written V st @ concat (map fst msgs))"
proof (induction msgs arbitrary: st)
  case (Cons m msgs)
  obtain buf now where m: "m = (buf, now)" by fastforce
  have inv: "logger_inv config (write_bufwriter X buf st)" using Cons.prems by simp
  obtain st1 where st1: "handle_log_rotation X config now (write_bufwriter X buf st) = Ok st1" "logger_inv config st1"
    "buffered_laws X V L \<and> writes_succeed X \<longrightarrow> written V st1 = written V (write_bufwriter X buf st)"
    using rotation_ok [OF inv] by blast
  have "written V (write_bufwriter X buf st) = written V st @ buf"
    if laws: "buffered_laws X V L" and succeed: "writes_succeed X" and short: "length buf \<le> L"
  proof -
    obtain w' n where "lx_write X (snd (lr_bufwriter st)) buf = (w', Some n)"
      using succeed unfolding writes_succeed_def by (metis option.exhaust prod.collapse)
    moreover from this laws short have "n = length buf" unfolding buffered_laws_def by blast
    ultimately show ?thesis by (simp add: written_ops(1) [OF laws])
  qed
  with st1 Cons.IH [OF st1(2)] show ?case by (auto simp: m)
qed auto

section \<open>A concrete writer\<close>

text \<open>
  A buffered writer as the witnesses use it: capacity, what went out, what is held. A write that would
  overfill the buffer sends the buffer out first; one of at least the capacity goes out directly,
  where at most 100 bytes are taken at once.
\<close>

definition example_log_ext :: "(nat \<times> string \<times> string) log_ext" where
  "example_log_ext = \<lparr>lx_format = (\<lambda>_ d. show_nat (nat d)), lx_cwd = None, lx_open = (\<lambda>_. True),
     lx_with_capacity = (\<lambda>n _. (n, [], [])),
     lx_write = (\<lambda>(n, out, held) buf.
       (let (out, held) = (if n < length held + length buf then (out @ held, []) else (out, held))
        in if n \<le> length buf then ((n, out @ held @ take 100 buf, []), Some (min 100 (length buf)))
           else ((n, out, held @ buf), Some (length buf)))),
     lx_flush = (\<lambda>(n, out, held). ((n, out @ held, []), True))\<rparr>"

definition example_log_view :: "(nat \<times> string \<times> string) log_view" where
  "example_log_view = \<lparr>lv_out = (\<lambda>(n, out, held). out), lv_held = (\<lambda>(n, out, held). held)\<rparr>"

lemma example_log_laws: "buffered_laws example_log_ext example_log_view 100" "writes_succeed example_log_ext"
  by (auto simp: buffered_laws_def writes_succeed_def example_log_ext_def example_log_view_def Let_def
      take_all_iff min_def split: if_splits)

definition example_log_config :: ConfigT where
  "example_log_config = default_Config\<lparr>cf_logging := (cf_logging default_Config)\<lparr>lg_path := Some ''/l'', lg_rotation := Minutely\<rparr>\<rparr>"

section \<open>Properties\<close>

text \<open>The logging service never panics, whatever its writers do and whichever files cannot be opened.\<close>

theorem logger_never_panics: "\<exists>st. logger_service X config start msgs = Ok st"
proof -
  obtain st where st: "prepare_buf_writer X config start (logger_new X) = Ok st" "logger_inv config st"
    using prepare_ok by blast
  with logger_loop_ok [OF st(2)] show ?thesis by (fastforce simp: logger_service_def)
qed

text \<open>
  C34. No rotation loses a byte: with writes and flushes that succeed and messages that the writer
  takes whole, what reached the destinations, one after the other, followed by what the present
  writer holds in its buffer, is exactly the messages of the channel in their order. In particular
  nothing was left in the buffer of a writer when a rotation replaced it.
\<close>

theorem rotation_loses_no_message:
  assumes "buffered_laws X V L" and "writes_succeed X" and "\<And>m. m \<in> set msgs \<Longrightarrow> length (fst m) \<le> L"
  shows "\<exists>st. logger_service X config start msgs = Ok st \<and>
    reached V (lr_replaced st @ [lr_bufwriter st]) @ lv_held V (snd (lr_bufwriter st)) = concat (map fst msgs)"
proof -
  obtain st where st: "prepare_buf_writer X config start (logger_new X) = Ok st" "logger_inv config st" "written V st = []"
    using prepare_ok [of X config start V L] assms(1) by blast
  with logger_loop_ok [OF st(2), of X msgs V L] assms show ?thesis
    by (auto simp: logger_service_def written_def)
qed

theorem rotation_loses_no_message_witness:
  "\<exists>st. logger_service example_log_ext example_log_config 0 [(''ab'', 10), (''c'', 70), (''d'', 80)] = Ok st \<and>
     reached example_log_view (lr_replaced st @ [lr_bufwriter st]) @ lv_held example_log_view (snd (lr_bufwriter st)) = ''abcd''"
proof -
  let ?msgs = "[(''ab'', 10 :: int), (''c'', 70), (''d'', 80)]"
  have "length (fst m) \<le> 100" if "m \<in> set ?msgs" for m using that by auto
  from rotation_loses_no_message [OF example_log_laws this, of ?msgs example_log_config 0] show ?thesis by simp
qed

text \<open>
  A message of which the writer takes only a part is cut: the rest is not written again. And what
  is in the buffer stays there until later messages push it out: nothing flushes it when the channel
  is idle or closed.
\<close>

theorem message_taken_in_part_is_cut:
  assumes "buffered_laws X V L" and "lg_path (cf_logging config) = None"
    and "lx_write X (lx_with_capacity X 10 Stdout) buf = (w, Some n)"
  shows "\<exists>st. logger_service X config start [(buf, now)] = Ok st \<and> lr_bufwriter st = (Stdout, w) \<and>
    lr_replaced st = [] \<and> lv_out V w @ lv_held V w = take n buf"
  using assms
  by (simp add: logger_service_def prepare_buf_writer_def logger_new_def write_bufwriter_def
      handle_log_rotation_def buffered_laws_def)

theorem message_taken_in_part_is_cut_witness:
  "\<exists>st. logger_service example_log_ext default_Config 0 [(''x'', 10)] = Ok st \<and>
     reached example_log_view (lr_replaced st @ [lr_bufwriter st]) = []"
proof -
  have p: "lg_path (cf_logging default_Config) = None" by (simp add: default_Config_def)
  have "lx_write example_log_ext (lx_with_capacity example_log_ext 10 Stdout) ''x'' = ((10, [], ''x''), Some 1)"
    by (simp add: example_log_ext_def)
  from message_taken_in_part_is_cut [OF example_log_laws(1) p this, of 0 10] show ?thesis
    by (auto simp: reached_def example_log_view_def)
qed

text \<open>
  C35. The next rotation after a date is the first boundary of its period after it: later than the
  date, at most one period away and a multiple of the period.
\<close>

theorem next_date_is_next_boundary:
  assumes "r \<noteq> Never"
  shows "\<exists>n. next_date r d = Ok (Some n) \<and> d < n \<and> n \<le> d + period r \<and> n mod period r = 0"
  using assms period_pos [OF assms] boundary [OF period_pos [OF assms], of d]
  by (auto simp: next_date_eq)

theorem next_date_is_next_boundary_witness:
  "\<exists>n. next_date Daily 100000 = Ok (Some n) \<and> (100000 :: int) < n"
  using next_date_is_next_boundary [of Daily 100000] by auto

text \<open>
  A rotation opens the file of the boundary that has passed, not of the present: after an idle
  time of more than one period the next boundary still lies in the past, and each further message
  moves on by a single period.
\<close>

theorem rotation_catches_up_one_period_at_a_time:
  assumes "logger_inv config st" and "lr_rotation st \<noteq> Never" and "lr_next_date st \<noteq> 0" and "lr_next_date st \<le> now"
    and "lg_path (cf_logging config) = Some dir" and "path_absolute (lx_cwd X) dir = Some path"
    and "\<And>p. lx_open X p"
  shows "\<exists>st'. handle_log_rotation X config now st = Ok st' \<and> lr_next_date st' = lr_next_date st + period (lr_rotation st) \<and>
    fst (lr_bufwriter st') = LogFile (log_file path (''.'' @ lx_format X (date_format (lr_rotation st)) (lr_next_date st)))"
  using assms
  by (simp add: handle_log_rotation_def should_rollover_def file_buf_writer_def Let_def next_date_eq logger_inv_def)
    (simp add: replace_bufwriter_def new_buf_writer_def)

theorem rotation_catches_up_one_period_at_a_time_witness:
  "\<exists>st'. handle_log_rotation example_log_ext example_log_config 100000
     ((logger_new example_log_ext)\<lparr>lr_rotation := Minutely, lr_next_date := 60\<rparr>) = Ok st' \<and> lr_next_date st' = 120"
proof -
  let ?st = "(logger_new example_log_ext)\<lparr>lr_rotation := Minutely, lr_next_date := 60\<rparr>"
  obtain p where p: "path_absolute (lx_cwd example_log_ext) ''/l'' = Some p"
    by (simp add: path_absolute_def)
  have "logger_inv example_log_config ?st" by (simp add: logger_inv_def example_log_config_def)
  from rotation_catches_up_one_period_at_a_time [OF this _ _ _ _ p, of 100000] show ?thesis
    by (auto simp: example_log_config_def example_log_ext_def)
qed

text \<open>
  With both access and error logs switched off, an error event is still logged unless it is an
  access log: the second test overwrites the first.
\<close>

theorem error_logs_come_back_without_access_logs:
  assumes "''access_log'' \<notin> set (ev_fields meta)" and "ev_level meta = LF_ERROR"
  shows "fst (writer_write (make_writer_for (proxy_log_new True False False) meta) buf chan) = chan @ [buf] \<and>
    fst (writer_write (make_writer_for (proxy_log_new True True False) meta) buf chan) = chan"
  using assms by (simp add: make_writer_for_def proxy_log_new_def writer_write_def)

theorem error_logs_come_back_without_access_logs_witness:
  "fst (writer_write (make_writer_for (proxy_log_new True False False) \<lparr>ev_level = LF_ERROR, ev_fields = [''message'']\<rparr>) ''x'' []) = [''x'']"
  using error_logs_come_back_without_access_logs [of "\<lparr>ev_level = LF_ERROR, ev_fields = [''message'']\<rparr>" "''x''" "[]"] by simp

end
