(* ===== verification/Startup.thy ===== *)
theory Startup
  imports Config_Load Docker_Labels Lets_Encrypt Logger
begin

text \<open>
  Process start-up (\<open>main.rs\<close>), the group of background services (\<open>services/mod.rs\<close>), the
  configuration watcher (\<open>services/config/mod.rs\<close>) and the functions of HCL files (\<open>config/hcl.rs\<close>).
  pingora's server is given as the plan \<open>main\<close> hands to it; the notify, hcl and redis crates and the
  operating system are parameters.
\<close>

section \<open>HCL functions\<close>

text \<open>
  Values of the hcl crate are \<open>json\<close>. The evaluator is a parameter that takes the functions a file
  may call; an imported file is evaluated with them too, so the functions are given by the
  depth of imports that is still allowed. A file that imports itself exhausts every depth: the
  program overflows its stack.
\<close>

type_synonym hcl_functions = "string \<Rightarrow> (json list \<Rightarrow> (string, json) res) option"

record hcl_ext =
  hx_eval :: "hcl_functions \<Rightarrow> string \<Rightarrow> (string, json) res"
  hx_num_cpus :: nat
  hx_env :: "string \<Rightarrow> string option"
  hx_cwd :: "string option"
  hx_file :: "string \<Rightarrow> string option"

definition num_cpus :: "hcl_ext \<Rightarrow> json list \<Rightarrow> (string, json) res" where
  "num_cpus X args = Ok (JNumber (show_nat (hx_num_cpus X)))"

text \<open>\<open>args[0].as_str().unwrap()\<close>.\<close>

definition first_string :: "json list \<Rightarrow> (string, string) res" where
  "first_string args =
     (case args of
        [] \<Rightarrow> Panic ''index out of bounds''
      | a # _ \<Rightarrow> (case as_str a of Some s \<Rightarrow> Ok s | None \<Rightarrow> Panic ''called `Option::unwrap()` on a `None` value''))"

definition eq_ignore_ascii_case :: "string \<Rightarrow> string \<Rightarrow> bool" where
  "eq_ignore_ascii_case a b \<longleftrightarrow> map lower_char a = map lower_char b"

text \<open>Reading a file that is not UTF-8 panics.\<close>

definition read_hcl_file :: "hcl_ext \<Rightarrow> hcl_functions \<Rightarrow> json list \<Rightarrow> (string, json) res" where
  "read_hcl_file X context1 args =
     res_bind (first_string args) (\<lambda>path.
       if \<not> is_some_and (\<lambda>ext. eq_ignore_ascii_case ext ''hcl'') (path_extension path)
       then Err (''File must be a HCL file: '' @ path)
       else (case path_absolute (hx_cwd X) path of
          None \<Rightarrow> Err (''file not found: '' @ path)
        | Some absolute \<Rightarrow>
          (case hx_file X absolute of
             None \<Rightarrow> Err (''file not found: '' @ absolute)
           | Some bytes \<Rightarrow>
             (case from_utf8 bytes of
                None \<Rightarrow> Panic ''called `Result::unwrap()` on an `Err` value''
              | Some contents \<Rightarrow> map_err (\<lambda>e. ''failed to parse hcl file: '' @ e) (hx_eval X context1 contents)))))"

definition get_env_var :: "hcl_ext \<Rightarrow> json list \<Rightarrow> (string, json) res" where
  "get_env_var X args =
     res_bind (first_string args) (\<lambda>key.
       (case hx_env X key of
          None \<Rightarrow> Err (''Environment variable '' @ key @ '' not found'')
        | Some var \<Rightarrow> Ok (JString var)))"

fun get_hcl_context :: "hcl_ext \<Rightarrow> nat \<Rightarrow> hcl_functions" where
  "get_hcl_context X depth name =
     (if name = ''env'' then Some (get_env_var X)
      else if name = ''import'' then Some (\<lambda>args.
        (case depth of
           0 \<Rightarrow> Panic ''stack overflow''
         | Suc d \<Rightarrow> read_hcl_file X (get_hcl_context X d) args))
      else if name = ''num_cpus'' then Some (num_cpus X)
      else None)"

declare get_hcl_context.simps [simp del]

definition hcl_from_str :: "hcl_ext \<Rightarrow> nat \<Rightarrow> string \<Rightarrow> (string, json) res" where
  "hcl_from_str X depth string = hx_eval X (get_hcl_context X depth) string"

section \<open>Start-up\<close>

datatype store_choice = UseMemory | UseRedis string

text \<open>\<open>redis_new\<close>: whether \<open>RedisStore::new\<close> accepts the address.\<close>

definition choose_store :: "(string \<Rightarrow> bool) \<Rightarrow> ConfigT \<Rightarrow> (string, store_choice) res" where
  "choose_store redis_new config =
     (case sc_store_type (cf_store config) of
        Memory \<Rightarrow> Ok UseMemory
      | Redis \<Rightarrow>
        (case sc_redis_url (cf_store config) of
           None \<Rightarrow> Panic ''Failed to get redis_url from configuration when store type is redis''
         | Some url \<Rightarrow> if redis_new url then Ok (UseRedis url) else Panic ''Failed to initialize Redis store''))"

text \<open>\<open>Result::unwrap\<close>.\<close>

definition unwrap_res :: "('e, 'a) res \<Rightarrow> (string, 'a) res" where
  "unwrap_res r =
     (case r of
        Ok v \<Rightarrow> Ok v
      | Err e \<Rightarrow> Panic ''called `Result::unwrap()` on an `Err` value''
      | Panic m \<Rightarrow> Panic m)"

datatype service_kind = BackgroundServices | LoggerService | HttpService | HttpsService

record server_plan =
  sp_https_address :: string
  sp_http_address :: string
  sp_log :: ProxyLog
  sp_log_json :: bool
  sp_log_ansi :: bool
  sp_max_level :: LevelFilter
  sp_store :: store_choice
  sp_daemon :: bool
  sp_upgrade :: bool
  sp_threads :: "usize option"
  sp_h2 :: bool
  sp_min_proto :: ProtoVersion
  sp_max_proto :: ProtoVersion
  sp_channel_capacity :: nat
  sp_services :: "service_kind list"

text \<open>
  pingora's calls that can fail: creating the server from the daemon and upgrade flags, the TLS
  settings and their protocol versions.
\<close>

record server_ext =
  sn_redis_new :: "string \<Rightarrow> bool"
  sn_server_new :: "bool \<Rightarrow> bool \<Rightarrow> (string, unit) res"
  sn_tls_with_callbacks :: "(string, unit) res"
  sn_set_min_proto_version :: "ProtoVersion \<Rightarrow> (string, unit) res"
  sn_set_max_proto_version :: "ProtoVersion \<Rightarrow> (string, unit) res"

definition main_setup :: "server_ext \<Rightarrow> (string, ConfigT) res \<Rightarrow> (string, server_plan) res" where
  "main_setup X loaded =
     (case loaded of
        Err e \<Rightarrow> Panic ''Failed to load configuration''
      | Panic m \<Rightarrow> Panic m
      | Ok config \<Rightarrow>
        res_bind (choose_store (sn_redis_new X) config) (\<lambda>store.
        res_bind (sn_server_new X (cf_daemon config) (cf_upgrade config)) (\<lambda>_.
        res_bind (unwrap_res (sn_tls_with_callbacks X)) (\<lambda>_.
        res_bind (sn_set_min_proto_version X V1_2) (\<lambda>_.
        res_bind (sn_set_max_proto_version X V1_3) (\<lambda>_. Ok
          \<lparr>sp_https_address = unwrap_or [] (sv_https_address (cf_server config)),
           sp_http_address = unwrap_or [] (sv_http_address (cf_server config)),
           sp_log = proxy_log_new (lg_enabled (cf_logging config)) (lg_access_logs_enabled (cf_logging config))
                      (lg_error_logs_enabled (cf_logging config)),
           sp_log_json = (lg_format (cf_logging config) = Json),
           sp_log_ansi = (lg_format (cf_logging config) \<noteq> Json \<and> lg_path (cf_logging config) = None),
           sp_max_level = level_filter_of (lg_level (cf_logging config)),
           sp_store = store, sp_daemon = cf_daemon config, sp_upgrade = cf_upgrade config,
           sp_threads = cf_worker_threads config, sp_h2 = True, sp_min_proto = V1_2, sp_max_proto = V1_3,
           sp_channel_capacity = 10,
           sp_services = [BackgroundServices, LoggerService, HttpService, HttpsService]\<rparr>))))))"

datatype background_task = RoutingTask | HealthTask | ConfigWatchTask | DockerTask | LetsEncryptTask

text \<open>
  The background services run as one task; the Docker client is built first, whether or not Docker is
  enabled.
\<close>

definition background_start :: "docker_ext \<Rightarrow> ConfigT \<Rightarrow> (string, background_task list) res" where
  "background_start D config =
     res_bind (label_service_new D config) (\<lambda>_.
       Ok [RoutingTask, HealthTask, ConfigWatchTask, DockerTask, LetsEncryptTask])"

section \<open>The configuration watcher\<close>

text \<open>\<open>exists\<close> is the file system; \<open>watch\<close> whether the watcher accepts the path.\<close>

definition watch_file_or_dir ::
  "string option \<Rightarrow> (string \<Rightarrow> bool) \<Rightarrow> (string \<Rightarrow> bool) \<Rightarrow> string \<Rightarrow> string list \<Rightarrow> (string, string list) res" where
  "watch_file_or_dir cwd exists watch path watched =
     (case path_absolute cwd path of
        None \<Rightarrow> Ok watched
      | Some absolute_path \<Rightarrow>
        if exists absolute_path
        then if watch absolute_path then Ok (watched @ [absolute_path])
             else Panic ''called `Result::unwrap()` on an `Err` value''
        else Ok watched)"

fun watch_all ::
  "string option \<Rightarrow> (string \<Rightarrow> bool) \<Rightarrow> (string \<Rightarrow> bool) \<Rightarrow> string list \<Rightarrow> string list \<Rightarrow> (string, string list) res" where
  "watch_all cwd exists watch [] watched = Ok watched"
| "watch_all cwd exists watch (p # ps) watched =
     res_bind (watch_file_or_dir cwd exists watch p watched) (watch_all cwd exists watch ps)"

definition watch_targets :: "ConfigT \<Rightarrow> string \<Rightarrow> string list" where
  "watch_targets config config_path =
     [path_join config_path ''proksi.hcl'', path_join config_path ''proksi.yaml''] @ ar_paths (cf_auto_reload config)"

text \<open>The paths that are polled; \<open>None\<close> when the watcher does not run. \<open>new_watcher\<close> is notify's \<open>PollWatcher::new\<close>.\<close>

definition config_watcher_start ::
  "(string, unit) res \<Rightarrow> string option \<Rightarrow> (string \<Rightarrow> bool) \<Rightarrow> (string \<Rightarrow> bool) \<Rightarrow> ConfigT \<Rightarrow>
   (string, string list option) res" where
  "config_watcher_start new_watcher cwd exists watch config =
     (if is_some_and (\<lambda>v. \<not> v) (ar_enabled (cf_auto_reload config)) then Ok None
      else case cf_config_path config of
        None \<Rightarrow> Ok None
      | Some config_path \<Rightarrow>
        res_bind (unwrap_res new_watcher) (\<lambda>_.
        res_bind (watch_all cwd exists watch (watch_targets config config_path) []) (\<lambda>watched.
          if unwrap_or 60 (ar_interval_secs (cf_auto_reload config)) = 0 then Panic ''`period` must be non-zero.''
          else Ok (Some watched))))"

text \<open>
  A change event: replacing the process by a new one with the same arguments, and, when that fails,
  a signal that ends this one.
\<close>

datatype reload_action = NoReload | ReplacedBy string "string list" | Terminated

definition handle_event ::
  "string option \<Rightarrow> string list \<Rightarrow> bool \<Rightarrow> (string, unit) res \<Rightarrow> (string, string list) res \<Rightarrow>
   (string, reload_action) res" where
  "handle_event current_exe args exec_works kill notif =
     (case notif of
        Ok paths \<Rightarrow>
          if \<not> list_ex (\<lambda>v. path_extension v = Some ''hcl'') paths then Ok NoReload
          else (case current_exe of
             None \<Rightarrow> Ok NoReload
           | Some cmd \<Rightarrow>
               if exec_works then Ok (ReplacedBy cmd (drop 1 args))
               else res_bind (unwrap_res kill) (\<lambda>_. Ok Terminated))
      | Err e \<Rightarrow> Ok NoReload
      | Panic m \<Rightarrow> Panic m)"

section \<open>Lemmas\<close>

lemma eq_ignore_ascii_hcl: "eq_ignore_ascii_case ''hcl'' ''hcl''"
  by (simp add: eq_ignore_ascii_case_def)

text \<open>An evaluator that never calls \<open>import\<close> gives the same result at every depth.\<close>

lemma context_depth_irrelevant:
  assumes "name \<noteq> ''import''"
  shows "get_hcl_context X d name = get_hcl_context X d' name"
  using assms by (simp add: get_hcl_context.simps)

definition example_server :: server_ext where
  "example_server = \<lparr>sn_redis_new = (\<lambda>_. True), sn_server_new = (\<lambda>_ _. Ok ()), sn_tls_with_callbacks = Ok (),
     sn_set_min_proto_version = (\<lambda>_. Ok ()), sn_set_max_proto_version = (\<lambda>_. Ok ())\<rparr>"

section \<open>Properties\<close>

text \<open>
  A configuration that passes validation does not always start: with the Redis store and no
  address for it, start-up panics.
\<close>

theorem validated_redis_store_without_url_panics:
  assumes "sc_store_type (cf_store c) = Redis" and "sc_redis_url (cf_store c) = None" and "config_ok c"
  shows "check_config c = Ok () \<and> (\<exists>m. main_setup X (Ok c) = Panic m)"
  using assms by (simp add: check_config_Ok main_setup_def choose_store_def)

theorem validated_redis_store_without_url_panics_witness:
  "\<exists>m. main_setup example_server (Ok (create_minimal_default_config\<lparr>cf_store := \<lparr>sc_store_type = Redis, sc_redis_url = None\<rparr>\<rparr>)) = Panic m"
proof -
  let ?c = "create_minimal_default_config\<lparr>cf_store := \<lparr>sc_store_type = Redis, sc_redis_url = None\<rparr>\<rparr>"
  have "config_ok ?c" using minimal_default_ok by (simp add: config_ok_def)
  from validated_redis_store_without_url_panics [OF _ _ this] show ?thesis by simp
qed

text \<open>
  Without a Docker client no background service starts, neither routing nor certificates nor
  health checks, even when Docker is switched off in the configuration.
\<close>

theorem no_background_service_without_docker:
  assumes "\<not> connect_to_docker D (unwrap_or [] (dk_endpoint (cf_docker config)))"
  shows "(\<exists>m. background_start D config = Panic m) \<and>
    docker_start_service D (config\<lparr>cf_docker := (cf_docker config)\<lparr>dk_enabled := Some False\<rparr>\<rparr>) rounds = ([], Ok ()) \<and>
    (\<exists>m. background_start D (config\<lparr>cf_docker := (cf_docker config)\<lparr>dk_enabled := Some False\<rparr>\<rparr>) = Panic m)"
  using assms by (simp add: background_start_def label_service_new_def docker_start_service_def)

theorem no_background_service_without_docker_witness:
  "\<exists>m. background_start (example_docker\<lparr>dke_connect_unix := (\<lambda>_. False), dke_connect_local := False\<rparr>)
     (default_Config\<lparr>cf_docker := \<lparr>dk_interval_secs = Some 15, dk_endpoint = Some ''unix:///x'', dk_enabled = Some False, dk_mode = Container\<rparr>\<rparr>) = Panic m"
  by (rule no_background_service_without_docker [THEN conjunct1])
    (simp add: connect_to_docker_def)

text \<open>
  A changed YAML file is watched but never reloads the configuration: events are acted on only
  when one of their paths is an HCL file.
\<close>

theorem yaml_change_is_ignored:
  "path_join config_path ''proksi.yaml'' \<in> set (watch_targets config config_path) \<and>
   handle_event current_exe args exec_works kill (Ok [path_join config_path ''proksi.yaml'']) = Ok NoReload"
proof -
  have "file_name (path_join config_path ''proksi.yaml'') = Some ''proksi.yaml''"
    by (rule file_name_join) simp_all
  then have "path_extension (path_join config_path ''proksi.yaml'') = Some ''yaml''"
    by (simp add: path_extension_def)
  then show ?thesis by (simp add: watch_targets_def handle_event_def)
qed

end
