(* ===== verification/Store_Refinement.thy ===== *)
theory Store_Refinement
  imports Lets_Encrypt
begin

text \<open>
  What the certificate store promises to its clients, as one specification: two maps, read and
  updated by the operations of the trait (\<open>stores/store_trait.rs\<close>), where a write either takes
  effect or fails and changes nothing. Every run of the Redis store and of the memory store is a run
  of the specification, by a forward simulation along \<open>abstraction\<close>; the two stores are therefore
  interchangeable as long as no write fails.
\<close>

section \<open>Operations and answers\<close>

datatype 'c store_op =
    GetCertificate string
  | SetCertificate string 'c
  | GetCertificates
  | GetChallenge string
  | SetChallenge string string string

datatype 'c store_answer =
    Found "(string, 'c option) res"
  | Listed "(string, string \<Rightarrow> 'c option) res"
  | Challenge "(string, (string \<times> string) option) res"
  | Written "(string, unit) res"

text \<open>A listing is observed through its lookups: its order is that of a hash map.\<close>

definition listing :: "(string, (string, 'c) hmap) res \<Rightarrow> (string, string \<Rightarrow> 'c option) res" where
  "listing r = (case r of Ok m \<Rightarrow> Ok (hm_get m) | Err e \<Rightarrow> Err e | Panic m \<Rightarrow> Panic m)"

fun run_op :: "('s, 'c) store_ops \<Rightarrow> 'c store_op \<Rightarrow> 's \<Rightarrow> 's \<times> 'c store_answer" where
  "run_op S (GetCertificate d) s = map_prod id Found (so_get_certificate S s d)"
| "run_op S (SetCertificate d c) s = map_prod id Written (so_set_certificate S s d c)"
| "run_op S GetCertificates s = map_prod id (\<lambda>r. Listed (listing r)) (so_get_certificates S s)"
| "run_op S (GetChallenge d) s = map_prod id Challenge (so_get_challenge S s d)"
| "run_op S (SetChallenge d t p) s = map_prod id Written (so_set_challenge S s d t p)"

fun run_ops :: "('s, 'c) store_ops \<Rightarrow> 'c store_op list \<Rightarrow> 's \<Rightarrow> 's \<times> 'c store_answer list" where
  "run_ops S [] s = (s, [])"
| "run_ops S (p # ps) s =
     (case run_op S p s of (s', a) \<Rightarrow> (case run_ops S ps s' of (s'', as) \<Rightarrow> (s'', a # as)))"

section \<open>The specification\<close>

record 'c store_spec =
  sp_certs :: "string \<Rightarrow> 'c option"
  sp_challenges :: "string \<Rightarrow> (string \<times> string) option"

inductive spec_step :: "'c store_op \<Rightarrow> 'c store_spec \<Rightarrow> 'c store_answer \<Rightarrow> 'c store_spec \<Rightarrow> bool" where
  get_cert: "spec_step (GetCertificate d) t (Found (Ok (sp_certs t d))) t"
| set_cert: "spec_step (SetCertificate d c) t (Written (Ok ())) (t\<lparr>sp_certs := (sp_certs t)(d \<mapsto> c)\<rparr>)"
| set_cert_fails: "r \<noteq> Ok () \<Longrightarrow> spec_step (SetCertificate d c) t (Written r) t"
| get_certs: "spec_step GetCertificates t (Listed (Ok (sp_certs t))) t"
| get_chal: "spec_step (GetChallenge d) t (Challenge (Ok (sp_challenges t d))) t"
| set_chal: "spec_step (SetChallenge d k p) t (Written (Ok ())) (t\<lparr>sp_challenges := (sp_challenges t)(d \<mapsto> (k, p))\<rparr>)"
| set_chal_fails: "r \<noteq> Ok () \<Longrightarrow> spec_step (SetChallenge d k p) t (Written r) t"

inductive_simps spec_step_simps [simp]:
  "spec_step (GetCertificate d) t a t'" "spec_step (SetCertificate d c) t a t'" "spec_step GetCertificates t a t'"
  "spec_step (GetChallenge d) t a t'" "spec_step (SetChallenge d k p) t a t'"

fun spec_run :: "'c store_op list \<Rightarrow> 'c store_spec \<Rightarrow> 'c store_answer list \<Rightarrow> 'c store_spec \<Rightarrow> bool" where
  "spec_run [] t [] t' \<longleftrightarrow> t' = t"
| "spec_run (p # ps) t (a # as) t' \<longleftrightarrow> (\<exists>u. spec_step p t a u \<and> spec_run ps u as t')"
| "spec_run _ _ _ _ \<longleftrightarrow> False"

text \<open>Without failed writes the specification is deterministic.\<close>

definition no_failed_write :: "'c store_answer list \<Rightarrow> bool" where
  "no_failed_write as \<longleftrightarrow> (\<forall>r. Written r \<in> set as \<longrightarrow> r = Ok ())"

lemma spec_step_deterministic:
  assumes "spec_step p t a u" and "spec_step p t b v" and "no_failed_write [a]" and "no_failed_write [b]"
  shows "a = b \<and> u = v"
  using assms by (cases p) (auto simp: no_failed_write_def)

lemma spec_run_deterministic:
  "spec_run ps t as u \<Longrightarrow> spec_run ps t bs v \<Longrightarrow> no_failed_write as \<Longrightarrow> no_failed_write bs \<Longrightarrow> as = bs \<and> u = v"
proof (induction ps t as u arbitrary: bs rule: spec_run.induct)
  case (1 t t')
  then show ?case by (cases bs) auto
next
  case (2 p ps t a as t')
  then obtain b bs' where bs: "bs = b # bs'" by (cases bs) auto
  obtain u1 v1 where steps: "spec_step p t a u1" "spec_run ps u1 as t'" "spec_step p t b v1" "spec_run ps v1 bs' v"
    using "2.prems" bs by auto
  have "no_failed_write [a]" "no_failed_write [b]" "no_failed_write as" "no_failed_write bs'"
    using "2.prems" bs by (auto simp: no_failed_write_def)
  with spec_step_deterministic [OF steps(1,3)] "2.IH" steps(2,4) bs show ?case by blast
qed auto

section \<open>The simulation\<close>

context acme_store
begin

definition abstraction :: "'s \<Rightarrow> ('k, 'x) Certificate store_spec" where
  "abstraction s = \<lparr>sp_certs = certs_of s, sp_challenges = challenges_of s\<rparr>"

lemma set_certificate_refines:
  assumes "inv s" and "so_set_certificate S s d c = (s', r)"
  shows "inv s' \<and> spec_step (SetCertificate d c) (abstraction s) (Written r) (abstraction s')"
proof (cases "r = Ok ()")
  case True
  with set_certificate_spec [OF assms(1)] assms(2) show ?thesis by (simp add: abstraction_def)
next
  case False
  with set_certificate_fails [OF assms(2)] assms(1) show ?thesis by simp
qed

lemma set_challenge_refines:
  assumes "inv s" and "so_set_challenge S s d t p = (s', r)"
  shows "inv s' \<and> spec_step (SetChallenge d t p) (abstraction s) (Written r) (abstraction s')"
proof (cases "r = Ok ()")
  case True
  with set_challenge_spec [OF assms(1)] assms(2) show ?thesis by (simp add: abstraction_def)
next
  case False
  with set_challenge_fails [OF assms(2)] assms(1) show ?thesis by simp
qed

lemma op_refines:
  assumes "inv s" and "run_op S q s = (s', a)"
  shows "inv s' \<and> spec_step q (abstraction s) a (abstraction s')"
proof (cases q)
  case (GetCertificate d)
  with get_certificate_spec [OF assms(1), of d] assms(2) show ?thesis by (auto simp: abstraction_def)
next
  case (SetCertificate d c)
  obtain s1 r where w: "so_set_certificate S s d c = (s1, r)" by fastforce
  with SetCertificate assms(2) have "s' = s1" "a = Written r" by auto
  with set_certificate_refines [OF assms(1) w] SetCertificate show ?thesis by simp
next
  case GetCertificates
  with get_certificates_spec [OF assms(1)] assms(2) show ?thesis by (auto simp: abstraction_def listing_def)
next
  case (GetChallenge d)
  with get_challenge_spec [OF assms(1), of d] assms(2) show ?thesis by (auto simp: abstraction_def)
next
  case (SetChallenge d t p)
  obtain s1 r where w: "so_set_challenge S s d t p = (s1, r)" by fastforce
  with SetChallenge assms(2) have "s' = s1" "a = Written r" by auto
  with set_challenge_refines [OF assms(1) w] SetChallenge show ?thesis by simp
qed

lemma run_refines:
  "inv s \<Longrightarrow> run_ops S ps s = (s', as) \<Longrightarrow> inv s' \<and> spec_run ps (abstraction s) as (abstraction s')"
proof (induction ps arbitrary: s as)
  case (Cons q ps)
  obtain s1 a where q: "run_op S q s = (s1, a)" by fastforce
  obtain s2 bs where rest: "run_ops S ps s1 = (s2, bs)" by fastforce
  have eq: "s' = s2" "as = a # bs" using Cons.prems(2) q rest by auto
  note step = op_refines [OF Cons.prems(1) q]
  from Cons.IH [of s1 bs] step rest eq show ?case by auto
qed simp

end

text \<open>A reliable store fails no write.\<close>

context reliable_store
begin

lemma run_op_no_failure:
  assumes "inv s" and "run_op S q s = (s', a)"
  shows "no_failed_write [a]"
proof (cases q)
  case (SetCertificate d c)
  obtain s1 where "so_set_certificate S s d c = (s1, Ok ())" using set_certificate_works [OF assms(1)] by blast
  with SetCertificate assms(2) show ?thesis by (auto simp: no_failed_write_def)
next
  case (SetChallenge d t p)
  obtain s1 where "so_set_challenge S s d t p = (s1, Ok ())" using set_challenge_works [OF assms(1)] by blast
  with SetChallenge assms(2) show ?thesis by (auto simp: no_failed_write_def)
qed (use assms(2) in \<open>auto simp: no_failed_write_def map_prod_def split: prod.splits\<close>)

lemma run_no_failure: "inv s \<Longrightarrow> run_ops S ps s = (s', as) \<Longrightarrow> no_failed_write as"
proof (induction ps arbitrary: s s' as)
  case Nil
  then show ?case by (simp add: no_failed_write_def)
next
  case (Cons q ps)
  obtain s1 a where q: "run_op S q s = (s1, a)" by fastforce
  obtain s2 bs where rest: "run_ops S ps s1 = (s2, bs)" by fastforce
  have "as = a # bs" using Cons.prems(2) q rest by auto
  moreover have "no_failed_write [a]" by (rule run_op_no_failure [OF Cons.prems(1) q])
  moreover have "no_failed_write bs" using Cons.IH [OF _ rest] op_refines [OF Cons.prems(1) q] by simp
  ultimately show ?case by (auto simp: no_failed_write_def)
qed

end

section \<open>A concrete run\<close>

lemma example_redis_run:
  "\<exists>s' a. run_ops (redis_ops example_pki) [SetCertificate ''a.com'' example_cert, GetCertificate ''a.com''] example_replica =
     (s', [Written (Ok ()), a])"
proof -
  obtain s1 where "redis_set_certificate example_pki example_replica ''a.com'' example_cert = (s1, Ok ())"
    using example_set_certificate by blast
  moreover obtain s2 r where "redis_get_certificate example_pki s1 ''a.com'' = (s2, r)" by fastforce
  ultimately show ?thesis by (simp add: redis_ops_def)
qed

lemma example_replica_empty:
  "redis_certs_of example_pki example_replica d = None" "redis_challenges_of example_pki example_replica d = None"
  by (simp_all add: redis_certs_of_def redis_challenges_of_def example_replica_def hm_get_def)

section \<open>Properties\<close>

text \<open>
  C13. Every run of the Redis store implements the specification: whatever operations are called, in
  whatever order, and whichever writes the server refuses, reads and listings answer with the
  last value that was written successfully.
\<close>

theorem redis_store_implements_specification:
  assumes "redis_inv P s" and "run_ops (redis_ops P) ps s = (s', as)"
  shows "spec_run ps \<lparr>sp_certs = redis_certs_of P s, sp_challenges = redis_challenges_of P s\<rparr> as
    \<lparr>sp_certs = redis_certs_of P s', sp_challenges = redis_challenges_of P s'\<rparr>"
  using redis_acme.run_refines [OF assms] by (simp add: redis_acme.abstraction_def)

theorem redis_store_implements_specification_witness:
  "\<exists>s' a. run_ops (redis_ops example_pki) [SetCertificate ''a.com'' example_cert, GetCertificate ''a.com''] example_replica =
       (s', [Written (Ok ()), a]) \<and> a = Found (Ok (Some example_cert))"
proof -
  obtain s' a where run: "run_ops (redis_ops example_pki) [SetCertificate ''a.com'' example_cert, GetCertificate ''a.com'']
      example_replica = (s', [Written (Ok ()), a])"
    using example_redis_run by blast
  from redis_store_implements_specification [OF example_replica_inv run] run show ?thesis by auto
qed

text \<open>
  C14. The two stores are interchangeable: started with the same contents, the memory store and a
  Redis store whose writes all succeed give the same answers to every sequence of operations.
\<close>

theorem memory_and_redis_agree:
  assumes "redis_inv P s" and "run_ops (redis_ops P) ps s = (s', as)" and "no_failed_write as"
    and "hm_get (ms_certs m) = redis_certs_of P s" and "hm_get (ms_challenges m) = redis_challenges_of P s"
    and "run_ops memory_ops ps m = (m', bs)"
  shows "bs = as \<and> hm_get (ms_certs m') = redis_certs_of P s' \<and> hm_get (ms_challenges m') = redis_challenges_of P s'"
proof -
  have r: "spec_run ps \<lparr>sp_certs = redis_certs_of P s, sp_challenges = redis_challenges_of P s\<rparr> as
      \<lparr>sp_certs = redis_certs_of P s', sp_challenges = redis_challenges_of P s'\<rparr>"
    using redis_acme.run_refines [OF assms(1,2)] by (simp add: redis_acme.abstraction_def)
  have m: "spec_run ps \<lparr>sp_certs = redis_certs_of P s, sp_challenges = redis_challenges_of P s\<rparr> bs
      \<lparr>sp_certs = hm_get (ms_certs m'), sp_challenges = hm_get (ms_challenges m')\<rparr>"
    using memory_acme.run_refines [OF TrueI assms(6)] assms(4,5) by (simp add: memory_acme.abstraction_def)
  have "no_failed_write bs" by (rule memory_acme.run_no_failure [OF TrueI assms(6)])
  from spec_run_deterministic [OF r m assms(3) this] show ?thesis by simp
qed

theorem memory_and_redis_agree_witness:
  "\<exists>m'. run_ops memory_ops [SetCertificate ''a.com'' example_cert, GetCertificate ''a.com''] memory_new =
     (m', snd (run_ops (redis_ops example_pki) [SetCertificate ''a.com'' example_cert, GetCertificate ''a.com''] example_replica))"
proof -
  let ?ps = "[SetCertificate ''a.com'' example_cert, GetCertificate ''a.com'']"
  obtain s' a where run: "run_ops (redis_ops example_pki) ?ps example_replica = (s', [Written (Ok ()), a])"
    using example_redis_run by blast
  have ok: "no_failed_write [Written (Ok ()), a]"
    using redis_acme.run_refines [OF example_replica_inv run] by (auto simp: no_failed_write_def)
  obtain m' bs where m: "run_ops memory_ops ?ps memory_new = (m', bs)" by fastforce
  have "bs = [Written (Ok ()), a]"
    using memory_and_redis_agree [OF example_replica_inv run ok _ _ m] example_replica_empty
    by (simp add: memory_new_def hm_get_def fun_eq_iff)
  with run m show ?thesis by simp
qed

end
