(* ===== verification/Session.thy ===== *)
theory Session
  imports Route_Store "HOL-Library.Sublist"
begin

text \<open>
  What a request handler sees and changes: pingora's \<open>Session\<close> (the request as data, and
  the list of what has been sent downstream), the header operations of the \<open>http\<close> and
  \<open>pingora\<close> crates (the parameter record \<open>hdr_ops\<close>), the router's per-request context
  (\<open>RouterContext\<close> of \<open>https_proxy.rs\<close>), and the plugin interface
  (\<open>MiddlewarePlugin\<close> of \<open>plugins/mod.rs\<close>) as locales.
\<close>

section \<open>Headers\<close>

text \<open>\<open>'h\<close> is a \<open>ResponseHeader\<close> or \<open>RequestHeader\<close>.\<close>

record 'h hdr_ops =
  ho_build :: "nat \<Rightarrow> 'h"
  ho_insert :: "'h \<Rightarrow> string \<Rightarrow> string \<Rightarrow> (string, 'h) res"
  ho_append :: "'h \<Rightarrow> string \<Rightarrow> string \<Rightarrow> (string, 'h) res"
  ho_remove :: "'h \<Rightarrow> string \<Rightarrow> 'h"
  ho_get :: "'h \<Rightarrow> string \<Rightarrow> string list"
  ho_status :: "'h \<Rightarrow> nat"
  ho_to_str :: "string \<Rightarrow> string option"

text \<open>
  What the crates document: \<open>insert_header\<close> replaces all values of a name,
  \<open>append_header\<close> adds one, \<open>remove_header\<close> drops all, names are compared without case,
  the status is not touched, and \<open>to_str\<close> gives the bytes of the value or fails.
\<close>

definition hdr_laws :: "'h hdr_ops \<Rightarrow> bool" where
  "hdr_laws H \<longleftrightarrow>
     (\<forall>v x. ho_to_str H v = Some x \<longrightarrow> x = v) \<and>
     (\<forall>n. ho_status H (ho_build H n) = n \<and> (\<forall>k. ho_get H (ho_build H n) k = [])) \<and>
     (\<forall>h k k'. to_lowercase k = to_lowercase k' \<longrightarrow> ho_get H h k = ho_get H h k') \<and>
     (\<forall>h k v h'. ho_insert H h k v = Ok h' \<longrightarrow> ho_status H h' = ho_status H h \<and>
        (\<forall>k'. ho_get H h' k' = (if to_lowercase k' = to_lowercase k then [v] else ho_get H h k'))) \<and>
     (\<forall>h k v h'. ho_append H h k v = Ok h' \<longrightarrow> ho_status H h' = ho_status H h \<and>
        (\<forall>k'. ho_get H h' k' =
           (if to_lowercase k' = to_lowercase k then ho_get H h k' @ [v] else ho_get H h k'))) \<and>
     (\<forall>h k. ho_status H (ho_remove H h k) = ho_status H h \<and>
        (\<forall>k'. ho_get H (ho_remove H h k) k' =
           (if to_lowercase k' = to_lowercase k then [] else ho_get H h k')))"

lemma hdr_build:
  "hdr_laws H \<Longrightarrow> ho_status H (ho_build H n) = n"
  "hdr_laws H \<Longrightarrow> ho_get H (ho_build H n) k = []"
  by (simp_all add: hdr_laws_def)

lemma hdr_insert:
  assumes "hdr_laws H" and "ho_insert H h k v = Ok h'"
  shows "ho_status H h' = ho_status H h"
    and "ho_get H h' k' = (if to_lowercase k' = to_lowercase k then [v] else ho_get H h k')"
  using assms unfolding hdr_laws_def by meson+

lemma hdr_append:
  assumes "hdr_laws H" and "ho_append H h k v = Ok h'"
  shows "ho_status H h' = ho_status H h"
    and "ho_get H h' k' =
      (if to_lowercase k' = to_lowercase k then ho_get H h k' @ [v] else ho_get H h k')"
  using assms unfolding hdr_laws_def by meson+

lemma hdr_remove:
  assumes "hdr_laws H"
  shows "ho_status H (ho_remove H h k) = ho_status H h"
    and "ho_get H (ho_remove H h k) k' =
      (if to_lowercase k' = to_lowercase k then [] else ho_get H h k')"
  using assms unfolding hdr_laws_def by meson+

text \<open>A concrete header block: the status and the fields in order, names in lower case.\<close>

definition example_hdr :: "(nat \<times> (string \<times> string) list) hdr_ops" where
  "example_hdr = \<lparr>
     ho_build = (\<lambda>n. (n, [])),
     ho_insert = (\<lambda>(n, fs) k v. Ok (n, filter (\<lambda>f. fst f \<noteq> to_lowercase k) fs @ [(to_lowercase k, v)])),
     ho_append = (\<lambda>(n, fs) k v. Ok (n, fs @ [(to_lowercase k, v)])),
     ho_remove = (\<lambda>(n, fs) k. (n, filter (\<lambda>f. fst f \<noteq> to_lowercase k) fs)),
     ho_get = (\<lambda>(n, fs) k. map snd (filter (\<lambda>f. fst f = to_lowercase k) fs)),
     ho_status = fst,
     ho_to_str = (\<lambda>v. if list_all (\<lambda>c. 32 \<le> (of_char c :: nat) \<and> (of_char c :: nat) < 127) v then Some v else None)\<rparr>"

lemma filter_other_name:
  "filter (\<lambda>f. fst f = a \<and> fst f \<noteq> b) fs = (if a = b then [] else filter (\<lambda>f. fst f = a) fs)"
  "filter (\<lambda>f. fst f \<noteq> b \<and> fst f = a) fs = (if a = b then [] else filter (\<lambda>f. fst f = a) fs)"
  by (auto simp: filter_empty_conv intro: filter_cong)

lemma example_hdr_laws: "hdr_laws example_hdr"
  unfolding hdr_laws_def by (auto simp: example_hdr_def filter_other_name)

section \<open>Sessions\<close>

datatype 'h sent =
    SentHeader 'h bool
  | SentBody string bool
  | SentError nat

text \<open>
  \<open>se_io n\<close> is the connection's error on the write number \<open>n\<close>, if it has one;
  \<open>se_cache\<close> is the storage the request was enabled to use, \<open>se_cache_max\<close> the size limit set for it.
\<close>

record 'h Session =
  se_method :: string
  se_uri_path :: string
  se_uri_query :: "string option"
  se_uri_host :: "string option"
  se_path_and_query :: "string option"
  se_uri_string :: string
  se_header :: "string \<Rightarrow> string option"
  se_headers_all :: "string \<Rightarrow> string list"
  se_io :: "nat \<Rightarrow> string option"
  se_cache :: "RouteCacheType option"
  se_cache_max :: "nat option"
  se_sent :: "'h sent list"

text \<open>\<open>RouterContext\<close>; \<open>rx_start\<close> is \<open>timings.request_filter_start\<close>, in milliseconds.\<close>

record 'lb RouterContext =
  rx_host :: string
  rx_route_container :: "'lb RouteStoreContainer"
  rx_upstream :: RouteUpstream
  rx_extensions :: "(string, string) hmap"
  rx_start :: nat

definition new_ctx :: "'lb \<Rightarrow> nat \<Rightarrow> 'lb RouterContext" where
  "new_ctx default_lb now = \<lparr>rx_host = [], rx_route_container = container_new default_lb,
     rx_upstream = default_RouteUpstream, rx_extensions = [], rx_start = now\<rparr>"

text \<open>The two \<open>&mut\<close> arguments of every filter.\<close>

type_synonym ('h, 'lb) rstate = "'h Session \<times> 'lb RouterContext"

section \<open>Writing downstream\<close>

text \<open>The errors of a proxy phase; writing fails with the connection's error.\<close>

datatype perr = HTTPStatus nat | PErr string

definition send_down :: "'h sent \<Rightarrow> ('h Session \<times> 'c, string, unit) act" where
  "send_down x = (\<lambda>(s, c). (case se_io s (length (se_sent s)) of
     Some e \<Rightarrow> (Err e, (s, c))
   | None \<Rightarrow> (Ok (), (s\<lparr>se_sent := se_sent s @ [x]\<rparr>, c))))"

definition write_response_header :: "'h \<Rightarrow> bool \<Rightarrow> ('h Session \<times> 'c, string, unit) act" where
  "write_response_header h e = send_down (SentHeader h e)"

definition write_response_body :: "string \<Rightarrow> bool \<Rightarrow> ('h Session \<times> 'c, string, unit) act" where
  "write_response_body b e = send_down (SentBody b e)"

definition respond_error :: "nat \<Rightarrow> ('h Session \<times> 'c, string, unit) act" where
  "respond_error n = send_down (SentError n)"

lemmas session_writes = write_response_header_def write_response_body_def respond_error_def

lemma send_down_cases:
  obtains e where "send_down x (s, c) = (Err e, (s, c))"
  | "send_down x (s, c) = (Ok (), (s\<lparr>se_sent := se_sent s @ [x]\<rparr>, c))"
  by (cases "se_io s (length (se_sent s))") (auto simp: send_down_def)

lemma send_down_fine:
  "se_io (fst st) = (\<lambda>_. None) \<Longrightarrow>
   send_down x st = (Ok (), ((fst st)\<lparr>se_sent := se_sent (fst st) @ [x]\<rparr>, snd st))"
  by (cases st) (simp add: send_down_def)

lemma send_down_Ok:
  "send_down x st = (Ok (), st') \<longleftrightarrow>
   se_io (fst st) (length (se_sent (fst st))) = None \<and>
   st' = ((fst st)\<lparr>se_sent := se_sent (fst st) @ [x]\<rparr>, snd st)"
  by (cases st) (auto simp: send_down_def split: option.splits)

text \<open>The host a request is for: the \<open>Host\<close> header, or the URI's (HTTP/2), or none.\<close>

definition get_host :: "'h hdr_ops \<Rightarrow> 'h Session \<Rightarrow> string" where
  "get_host H s =
     (case se_header s ''host'' of
        Some host \<Rightarrow> unwrap_or [] (ho_to_str H host)
      | None \<Rightarrow> unwrap_or [] (se_uri_host s))"

section \<open>What a plugin may change\<close>

text \<open>The request part of a session: everything but what has been sent.\<close>

definition same_request :: "'h Session \<Rightarrow> 'h Session \<Rightarrow> bool" where
  "same_request s s' \<longleftrightarrow> s'\<lparr>se_sent := se_sent s\<rparr> = s"

lemma same_request_refl [simp]: "same_request s s"
  by (simp add: same_request_def)

lemma same_request_iff:
  "same_request s s' \<longleftrightarrow> se_method s' = se_method s \<and> se_uri_path s' = se_uri_path s \<and>
   se_uri_query s' = se_uri_query s \<and> se_uri_host s' = se_uri_host s \<and>
   se_path_and_query s' = se_path_and_query s \<and> se_uri_string s' = se_uri_string s \<and>
   se_header s' = se_header s \<and> se_headers_all s' = se_headers_all s \<and>
   se_io s' = se_io s \<and> se_cache s' = se_cache s \<and> se_cache_max s' = se_cache_max s"
  by (cases s; cases s') (auto simp: same_request_def)

text \<open>
  The frame of a plugin: the request, the host and the route stay, and what was sent is only
  extended.
\<close>

definition plugin_frame :: "('h, 'lb) rstate \<Rightarrow> ('h, 'lb) rstate \<Rightarrow> bool" where
  "plugin_frame st st' \<longleftrightarrow> same_request (fst st) (fst st') \<and>
     prefix (se_sent (fst st)) (se_sent (fst st')) \<and>
     rx_host (snd st') = rx_host (snd st) \<and>
     rx_route_container (snd st') = rx_route_container (snd st) \<and>
     rx_upstream (snd st') = rx_upstream (snd st) \<and>
     rx_start (snd st') = rx_start (snd st)"

lemma plugin_frame_order: "reflp plugin_frame" "transp plugin_frame"
  by (auto simp: plugin_frame_def reflp_def transp_def same_request_iff intro: prefix_order.trans)

text \<open>
  A preorder on states that sending respects is kept by every filter that changes the state only
  by sending: the plugins' frames are proved once, for all such relations.
\<close>

locale write_frame =
  fixes R :: "('h, 'lb) rstate \<Rightarrow> ('h, 'lb) rstate \<Rightarrow> bool"
  assumes refl: "reflp R" and trans: "transp R" and send: "act_keeps R (send_down x)"
begin

lemmas keeps_intros =
  act_keeps_res [OF refl] act_keeps_bind [OF trans] act_keeps_then [OF trans] act_keeps_read send

end

definition same_ctx :: "('h, 'lb) rstate \<Rightarrow> ('h, 'lb) rstate \<Rightarrow> bool" where
  "same_ctx st st' \<longleftrightarrow> snd st' = snd st"

interpretation frame: write_frame plugin_frame
  by unfold_locales
    (auto simp: plugin_frame_order act_keeps_def send_down_def plugin_frame_def same_request_iff
      split: option.splits)

interpretation ctx_frame: write_frame same_ctx
  by unfold_locales
    (auto simp: same_ctx_def reflp_def transp_def act_keeps_def send_down_def split: option.splits)

text \<open>
  \<open>same_view\<close>: two states show a filter the same request and host, on a connection that takes
  every write. A stable filter gives the same result on both.
\<close>

definition same_view :: "('h, 'lb) rstate \<Rightarrow> ('h, 'lb) rstate \<Rightarrow> bool" where
  "same_view st st' \<longleftrightarrow> same_request (fst st) (fst st') \<and> rx_host (snd st') = rx_host (snd st) \<and>
     se_io (fst st) = (\<lambda>_. None)"

definition act_stable :: "(('h, 'lb) rstate, 'e, 'a) act \<Rightarrow> bool" where
  "act_stable m \<longleftrightarrow> (\<forall>st st'. same_view st st' \<longrightarrow>
     fst (m st') = fst (m st) \<and> same_view (snd (m st)) (snd (m st')))"

lemma act_stable_res: "act_stable (act_res r)"
  by (simp add: act_stable_def)

lemma act_stable_bind: "act_stable m \<Longrightarrow> (\<And>x. act_stable (f x)) \<Longrightarrow> act_stable (act_bind m f)"
  by (fastforce simp: act_stable_def act_bind_def split: prod.splits res.splits)

lemma act_stable_then: "act_stable m \<Longrightarrow> act_stable n \<Longrightarrow> act_stable (act_then m n)"
  unfolding act_then_def by (rule act_stable_bind)

lemma act_stable_read:
  "(\<And>s. act_stable (f s)) \<Longrightarrow> (\<And>st st'. same_view st st' \<Longrightarrow> f st' = f st) \<Longrightarrow> act_stable (act_read f)"
  by (simp add: act_stable_def)

lemma act_stable_send: "act_stable (send_down x)"
  by (simp add: act_stable_def send_down_def same_view_def same_request_iff case_prod_beta)

lemmas act_stable_intros =
  act_stable_res act_stable_bind act_stable_then act_stable_read act_stable_send

lemma same_viewD:
  assumes "same_view st st'"
  shows "se_header (fst st') = se_header (fst st)" "se_headers_all (fst st') = se_headers_all (fst st)"
    "se_uri_path (fst st') = se_uri_path (fst st)" "se_uri_query (fst st') = se_uri_query (fst st)"
    "se_uri_string (fst st') = se_uri_string (fst st)" "rx_host (snd st') = rx_host (snd st)"
  using assms by (simp_all add: same_view_def same_request_iff)

text \<open>
  The plugin interface of \<open>plugins/mod.rs\<close>: a plugin keeps the frame, and one that returns
  \<open>Ok(true)\<close>, "the request was already handled", has sent something. On a connection that
  takes every write, the verdict does not depend on what earlier plugins sent or stored.
\<close>

locale middleware_plugin =
  fixes filter_request :: "RoutePlugin \<Rightarrow> (('h, 'lb) rstate, string, bool) act"
  assumes frame: "act_keeps plugin_frame (filter_request p)"
    and handled_sent: "filter_request p st = (Ok True, st') \<Longrightarrow> se_sent (fst st') \<noteq> se_sent (fst st)"
    and stable: "act_stable (filter_request p)"
begin

lemma handled_extends:
  assumes "filter_request p st = (Ok True, st')"
  shows "\<exists>w. w \<noteq> [] \<and> se_sent (fst st') = se_sent (fst st) @ w"
  using act_keepsD [OF frame assms] handled_sent [OF assms]
  by (auto simp: plugin_frame_def prefix_def)

lemma same_request_after:
  "filter_request p st = (r, st') \<Longrightarrow> same_request (fst st) (fst st') \<and> rx_host (snd st') = rx_host (snd st)"
  using act_keepsD [OF frame] by (auto simp: plugin_frame_def)

end

text \<open>A strict plugin also sends nothing when it lets the request pass.\<close>

locale strict_plugin = middleware_plugin +
  assumes pass_silent: "filter_request p st = (Ok False, st') \<Longrightarrow> se_sent (fst st') = se_sent (fst st)"
begin

lemma sent_iff_handled:
  "filter_request p st = (Ok b, st') \<Longrightarrow> b \<longleftrightarrow> se_sent (fst st') \<noteq> se_sent (fst st)"
  using pass_silent handled_sent by (cases b) auto

end

end
