(* ===== verification/Basic_Auth.thy ===== *)
theory Basic_Auth
  imports Session
begin

text \<open>
  The basic authentication plugin (\<open>plugins/basic_auth/mod.rs\<close>) and the helper of
  \<open>plugins/mod.rs\<close>. The base64 decoder of openssl is the parameter \<open>b64\<close>; the header
  operations are the parameter \<open>H\<close>.
\<close>

section \<open>Operations\<close>

definition get_required_config :: "(string, json) hmap \<Rightarrow> string \<Rightarrow> (string, string) res" where
  "get_required_config plugin_config key =
     ok_or (''Missing or invalid '' @ key) (Option.bind (hm_get plugin_config key) as_str)"

definition auth_realm :: "string \<Rightarrow> string" where
  "auth_realm host =
     ''Basic realm='' @ [CHR 0x22] @ host @ [CHR 0x22] @ '', charset='' @ [CHR 0x22] @ ''UTF-8'' @ [CHR 0x22]"

definition respond_with_authenticate :: "'h hdr_ops \<Rightarrow> string \<Rightarrow> (string, 'h) res" where
  "respond_with_authenticate H host =
     ho_insert H (ho_build H 401) ''www-authenticate'' (auth_realm host)"

definition get_auth_config :: "(string, json) hmap \<Rightarrow> (string \<times> string) option" where
  "get_auth_config config =
     (case Option.bind (hm_get config ''user'') as_str of
        None \<Rightarrow> None
      | Some user \<Rightarrow> (case Option.bind (hm_get config ''pass'') as_str of
          None \<Rightarrow> None
        | Some pass \<Rightarrow> Some (user, pass)))"

definition validate_auth_header ::
  "(string \<Rightarrow> (string, string) res) \<Rightarrow> string \<Rightarrow> string \<Rightarrow> string \<Rightarrow> (string, bool) res" where
  "validate_auth_header b64 auth_header user pass =
     res_bind (b64 (trim_start_matches ''Basic '' auth_header)) (\<lambda>bytes.
     res_bind (ok_or ''invalid utf-8 sequence'' (from_utf8 bytes)) (\<lambda>decoded.
     (let (auth_user, auth_pass) = unwrap_or ([], []) (split_once (CHR '':'') decoded)
      in Ok (auth_user = user \<and> auth_pass = pass))))"

definition deny_with_authenticate :: "'h hdr_ops \<Rightarrow> (('h, 'lb) rstate, string, bool) act" where
  "deny_with_authenticate H = act_read (\<lambda>st.
     act_bind (act_res (respond_with_authenticate H (rx_host (snd st)))) (\<lambda>h.
     act_then (write_response_header h True) (act_res (Ok True))))"

definition basic_request_filter ::
  "'h hdr_ops \<Rightarrow> (string \<Rightarrow> (string, string) res) \<Rightarrow> RoutePlugin \<Rightarrow>
   (('h, 'lb) rstate, string, bool) act" where
  "basic_request_filter H b64 plugin = act_read (\<lambda>st.
     (case rp_config plugin of
        None \<Rightarrow> act_res (Ok False)
      | Some config \<Rightarrow>
        (case get_auth_config config of
           None \<Rightarrow> deny_with_authenticate H
         | Some (user, pass) \<Rightarrow>
           (case se_header (fst st) ''authorization'' of
              None \<Rightarrow> deny_with_authenticate H
            | Some header \<Rightarrow>
              (case ho_to_str H header of
                 None \<Rightarrow> act_res (Err ''failed to convert header to a str'')
               | Some auth_header \<Rightarrow>
                 if \<not> starts_with ''Basic '' auth_header then deny_with_authenticate H
                 else (case validate_auth_header b64 auth_header user pass of
                    Ok True \<Rightarrow> act_res (Ok False)
                  | Ok False \<Rightarrow> deny_with_authenticate H
                  | Err e \<Rightarrow> act_res (Err e)
                  | Panic m \<Rightarrow> act_res (Panic m)))))))"

text \<open>The other three methods of the trait do nothing for this plugin.\<close>

definition basic_upstream_request_filter :: "'h \<Rightarrow> (('h, 'lb) rstate, string, 'h) act" where
  "basic_upstream_request_filter upstream_request = act_res (Ok upstream_request)"

definition basic_response_filter :: "RoutePlugin \<Rightarrow> (('h, 'lb) rstate, string, bool) act" where
  "basic_response_filter plugin = act_res (Ok False)"

definition basic_upstream_response_filter :: "'h \<Rightarrow> (('h, 'lb) rstate, string, 'h) act" where
  "basic_upstream_response_filter upstream_response = act_res (Ok upstream_response)"

section \<open>The credentials a request has to carry\<close>

definition decodes_to :: "string \<Rightarrow> string \<Rightarrow> string \<Rightarrow> bool" where
  "decodes_to d user pass \<longleftrightarrow>
     CHR '':'' \<notin> set user \<and> d = user @ CHR '':'' # pass \<or>
     CHR '':'' \<notin> set d \<and> user = [] \<and> pass = []"

definition authorized :: "(string \<Rightarrow> (string, string) res) \<Rightarrow> string \<Rightarrow> string \<Rightarrow> string \<Rightarrow> bool" where
  "authorized b64 auth_header user pass \<longleftrightarrow>
     starts_with ''Basic '' auth_header \<and>
     (\<exists>d. b64 (trim_start_matches ''Basic '' auth_header) = Ok d \<and> from_utf8 d = Some d \<and>
          decodes_to d user pass)"

lemma split_user_pass:
  "(case unwrap_or ([], []) (split_once (CHR '':'') d) of (u, p) \<Rightarrow> u = user \<and> p = pass) \<longleftrightarrow>
   decodes_to d user pass"
proof (cases "split_once (CHR '':'') d")
  case None
  then have "CHR '':'' \<notin> set d" by (simp add: split_once_None_iff)
  with None show ?thesis
    by (auto simp: decodes_to_def)
next
  case (Some up)
  then obtain u p where up: "split_once (CHR '':'') d = Some (u, p)" by (cases up) auto
  then have "CHR '':'' \<in> set d" by (auto simp: split_once_def split: if_splits)
  then have "decodes_to d user pass \<longleftrightarrow> split_once (CHR '':'') d = Some (user, pass)"
    unfolding decodes_to_def split_once_Some_iff by blast
  with up show ?thesis by simp
qed

lemma validate_auth_header_True:
  "validate_auth_header b64 h user pass = Ok True \<longleftrightarrow>
   (\<exists>d. b64 (trim_start_matches ''Basic '' h) = Ok d \<and> from_utf8 d = Some d \<and> decodes_to d user pass)"
  using split_user_pass
  by (auto simp: validate_auth_header_def res_bind_Ok_iff ok_or_def Let_def case_prod_beta
      split: option.splits dest: from_utf8_SomeD)

section \<open>The plugin contract\<close>

context write_frame
begin

lemma deny_keeps: "act_keeps R (deny_with_authenticate H)"
  unfolding deny_with_authenticate_def session_writes by (intro keeps_intros)

lemma basic_keeps: "act_keeps R (basic_request_filter H b64 p)"
  unfolding basic_request_filter_def
  by (auto intro!: keeps_intros deny_keeps split: option.splits res.splits bool.splits)

end

lemma deny_stable: "act_stable (deny_with_authenticate H)"
  unfolding deny_with_authenticate_def session_writes
  by (intro act_stable_intros) (simp add: same_viewD)

lemma deny_result:
  "deny_with_authenticate H st = (Ok b, st') \<Longrightarrow> b \<and>
   (\<exists>h. respond_with_authenticate H (rx_host (snd st)) = Ok h \<and>
        se_sent (fst st') = se_sent (fst st) @ [SentHeader h True])"
  by (auto simp: deny_with_authenticate_def act_bind_Ok_iff session_writes send_down_Ok)

lemma basic_stable: "act_stable (basic_request_filter H b64 p)"
  unfolding basic_request_filter_def
proof (rule act_stable_read, goal_cases)
  case 1
  show ?case
    by (auto intro!: act_stable_intros deny_stable split: option.splits res.splits bool.splits)
next
  case 2
  then show ?case by (simp only: same_viewD)
qed

interpretation basic: strict_plugin "basic_request_filter H b64" for H b64
proof
  show "act_keeps plugin_frame (basic_request_filter H b64 p)" for p
    by (rule frame.basic_keeps)
  show "basic_request_filter H b64 p st = (Ok True, st') \<Longrightarrow> se_sent (fst st') \<noteq> se_sent (fst st)"
    for p st st'
    by (auto simp: basic_request_filter_def dest!: deny_result split: option.splits res.splits bool.splits if_splits)
  show "act_stable (basic_request_filter H b64 p)" for p
    by (rule basic_stable)
  show "basic_request_filter H b64 p st = (Ok False, st') \<Longrightarrow> se_sent (fst st') = se_sent (fst st)"
    for p st st'
    by (auto simp: basic_request_filter_def dest!: deny_result split: option.splits res.splits bool.splits if_splits)
qed

section \<open>A concrete codec and a concrete request\<close>

text \<open>Spaces and percent signs are escaped: a codec with the laws the plugin needs of base64.\<close>

definition example_enc :: "string \<Rightarrow> string" where
  "example_enc d =
     concat (map (\<lambda>c. if c = CHR '' '' then ''%s'' else if c = CHR ''%'' then ''%%'' else [c]) d)"

fun example_dec :: "string \<Rightarrow> (string, string) res" where
  "example_dec [] = Ok []"
| "example_dec [c] = (if c = CHR ''%'' then Err ''truncated'' else Ok [c])"
| "example_dec (a # b # r) =
     (if a = CHR ''%'' then res_bind (example_dec r) (\<lambda>d. Ok ((if b = CHR ''s'' then CHR '' '' else CHR ''%'') # d))
      else res_bind (example_dec (b # r)) (\<lambda>d. Ok (a # d)))"

lemma example_dec_other:
  "c \<noteq> CHR ''%'' \<Longrightarrow> example_dec (c # r) = res_bind (example_dec r) (\<lambda>d. Ok (c # d))"
  by (cases r) auto

lemma example_codec: "example_dec (example_enc d) = Ok d"
  by (induction d) (auto simp: example_enc_def example_dec_other)

lemma example_enc_no_space: "CHR '' '' \<notin> set (example_enc d)"
  by (induction d) (auto simp: example_enc_def)

definition example_session :: "'h Session" where
  "example_session = \<lparr>se_method = ''GET'', se_uri_path = ''/'', se_uri_query = None, se_uri_host = None,
     se_path_and_query = Some ''/'', se_uri_string = ''/'', se_header = (\<lambda>_. None),
     se_headers_all = (\<lambda>_. []), se_io = (\<lambda>_. None), se_cache = None, se_cache_max = None, se_sent = []\<rparr>"

definition example_ctx :: "unit RouterContext" where
  "example_ctx = (new_ctx () 0)\<lparr>rx_host := ''a.io''\<rparr>"

definition example_basic_plugin :: RoutePlugin where
  "example_basic_plugin = \<lparr>rp_name = ''basic_auth'',
     rp_config = Some [(''user'', JString ''u''), (''pass'', JString ''p'')]\<rparr>"

lemma example_auth_config:
  "get_auth_config [(''user'', JString ''u''), (''pass'', JString ''p'')] = Some (''u'', ''p'')"
  by (simp add: get_auth_config_def hm_get_def)

section \<open>Properties\<close>

text \<open>
  C27. The plugin lets a request pass, unchanged, exactly when it has no configuration or the
  request's \<open>Authorization\<close> header carries the configured user and password.
\<close>

theorem basic_auth_pass_iff:
  "basic_request_filter H b64 p st = (Ok False, st') \<longleftrightarrow>
   st' = st \<and>
   (rp_config p = None \<or>
    (\<exists>config user pass v h.
       rp_config p = Some config \<and> get_auth_config config = Some (user, pass) \<and>
       se_header (fst st) ''authorization'' = Some v \<and> ho_to_str H v = Some h \<and>
       authorized b64 h user pass))"
  by (auto simp: basic_request_filter_def authorized_def validate_auth_header_True [symmetric]
      dest!: deny_result split: option.splits res.splits bool.splits if_splits)

text \<open>
  When the plugin handles a request, the answer is one 401 header block with the challenge for
  the request's host, and nothing else.
\<close>

theorem basic_auth_denies_with_challenge:
  assumes "hdr_laws H" and "basic_request_filter H b64 p st = (Ok True, st')"
  shows "\<exists>h. se_sent (fst st') = se_sent (fst st) @ [SentHeader h True] \<and> ho_status H h = 401 \<and>
    ho_get H h ''WWW-Authenticate'' = [auth_realm (rx_host (snd st))]"
proof -
  have "deny_with_authenticate H st = (Ok True, st')"
    using assms(2)
    by (auto simp: basic_request_filter_def split: option.splits res.splits bool.splits if_splits)
  then obtain h where h: "respond_with_authenticate H (rx_host (snd st)) = Ok h"
    and sent: "se_sent (fst st') = se_sent (fst st) @ [SentHeader h True]"
    using deny_result by blast
  have names: "to_lowercase ''WWW-Authenticate'' = to_lowercase ''www-authenticate''"
    by (simp add: literal_simps)
  have "ho_status H h = 401" and "ho_get H h ''WWW-Authenticate'' = [auth_realm (rx_host (snd st))]"
    using h names by (simp_all add: respond_with_authenticate_def hdr_insert [OF assms(1)] hdr_build [OF assms(1)])
  with sent show ?thesis by blast
qed

text \<open>
  A client that encodes the configured credentials the standard way is let through, for every
  user name without a colon.
\<close>

theorem basic_auth_accepts_encoded:
  assumes "\<And>d. b64 (enc d) = Ok d" and "\<And>d. CHR '' '' \<notin> set (enc d)"
    and "rp_config p = Some config" and "get_auth_config config = Some (user, pass)"
    and "CHR '':'' \<notin> set user" and "from_utf8 (user @ CHR '':'' # pass) = Some (user @ CHR '':'' # pass)"
    and "se_header (fst st) ''authorization'' = Some (''Basic '' @ enc (user @ CHR '':'' # pass))"
    and "ho_to_str H (''Basic '' @ enc (user @ CHR '':'' # pass)) = Some (''Basic '' @ enc (user @ CHR '':'' # pass))"
  shows "basic_request_filter H b64 p st = (Ok False, st)"
proof -
  have trimmed: "trim_start_matches ''Basic '' (enc d) = enc d" for d
    using assms(2) [of d] by (intro trim_start_matches_id) (auto simp: starts_with_iff)
  have "trim_start_matches ''Basic '' (''Basic '' @ enc d) = enc d" for d
    using trim_start_matches_append [of "''Basic ''"] trimmed by simp
  then have "validate_auth_header b64 (''Basic '' @ enc (user @ CHR '':'' # pass)) user pass = Ok True"
    using assms(1,5,6) by (auto simp: validate_auth_header_True decodes_to_def)
  then show ?thesis
    using assms by (simp add: basic_request_filter_def)
qed

theorem basic_auth_denies_with_challenge_witness:
  "\<exists>h st'. basic_request_filter example_hdr example_dec example_basic_plugin (example_session, example_ctx) = (Ok True, st') \<and>
     se_sent (fst st') = [SentHeader h True] \<and> ho_status example_hdr h = 401"
proof -
  obtain st' where "basic_request_filter example_hdr example_dec example_basic_plugin (example_session, example_ctx) = (Ok True, st')"
    by (simp add: basic_request_filter_def example_basic_plugin_def example_session_def example_auth_config
        deny_with_authenticate_def respond_with_authenticate_def example_hdr_def session_writes
        send_down_def)
  then show ?thesis
    using basic_auth_denies_with_challenge [OF example_hdr_laws] by (fastforce simp: example_session_def)
qed

theorem basic_auth_accepts_encoded_witness:
  "basic_request_filter example_hdr example_dec example_basic_plugin
     (example_session\<lparr>se_header := (\<lambda>_. Some (''Basic '' @ example_enc ''u:p''))\<rparr>, example_ctx)
   = (Ok False, (example_session\<lparr>se_header := (\<lambda>_. Some (''Basic '' @ example_enc ''u:p''))\<rparr>, example_ctx))"
proof (rule basic_auth_accepts_encoded [where enc = example_enc and user = "''u''" and pass = "''p''"
      and config = "[(''user'', JString ''u''), (''pass'', JString ''p'')]"])
  show "ho_to_str example_hdr (''Basic '' @ example_enc (''u'' @ CHR '':'' # ''p'')) =
      Some (''Basic '' @ example_enc (''u'' @ CHR '':'' # ''p''))"
    by (simp add: example_hdr_def example_enc_def)
  show "from_utf8 (''u'' @ CHR '':'' # ''p'') = Some (''u'' @ CHR '':'' # ''p'')"
    by (simp add: from_utf8_ascii)
qed (simp_all add: example_codec example_enc_no_space example_basic_plugin_def example_auth_config)

end
