(* ===== verification/Oauth2_Users.thy ===== *)
theory Oauth2_Users
  imports Basic_Auth
begin

text \<open>
  The parts of the oauth2 plugin: query strings and validations (\<open>oauth2/shared.rs\<close>), users and
  providers (\<open>oauth2/provider.rs\<close>, \<open>github.rs\<close>, \<open>workos.rs\<close>), the token (\<open>jwt/mod.rs\<close>) and
  the cookie that carries it (\<open>oauth2/secure_cookie.rs\<close>).

  The crates it calls are the fields of \<open>oauth_ext\<close>: the clock (\<open>None\<close> before the epoch),
  ShortCrypt, jsonwebtoken (decoding checks the expiry, so it is given the time), the cookie
  crate, and the HTTP client with serde's deserialisers.
\<close>

section \<open>Data\<close>

record JwtClaims =
  jc_sub :: string
  jc_exp :: usize
  jc_iat :: usize
  jc_teams :: "string list"
  jc_ids :: "string list"

record OauthUser =
  ou_email :: string
  ou_team_ids :: "string list"
  ou_organization_ids :: "string list"
  ou_usernames :: "string list"

datatype OauthType = Github | Workos

fun display_OauthType :: "OauthType \<Rightarrow> string" where
  "display_OauthType Github = ''github''"
| "display_OauthType Workos = ''workos''"

record Provider =
  pv_typ :: OauthType
  pv_client_id :: string
  pv_client_secret :: string

record GithubTokenResponse =
  gt_error :: "string option"
  gt_access_token :: "string option"

record GithubEmailResponse =
  ge_email :: string
  ge_primary :: bool

record GithubUserResponse =
  gu_login :: string

record WorkosUserResponse =
  wu_email :: string

record WorkosTokenResponse =
  wt_user :: WorkosUserResponse

datatype SameSite = Lax

record CookieT =
  ck_name :: string
  ck_value :: string
  ck_secure :: bool
  ck_domain :: string
  ck_path :: string
  ck_expires :: "u64 option"
  ck_http_only :: bool
  ck_same_site :: SameSite

text \<open>A request of the HTTP client: method, URL, query, headers, bearer token, JSON body.\<close>

record http_request =
  hq_method :: string
  hq_url :: string
  hq_query :: "(string \<times> string) list"
  hq_headers :: "(string \<times> string) list"
  hq_bearer :: "string option"
  hq_json :: "json option"

record oauth_ext =
  ox_now :: "u64 option"
  ox_encrypt :: "string \<Rightarrow> string"
  ox_decrypt :: "string \<Rightarrow> string option"
  ox_jwt_encode :: "JwtClaims \<Rightarrow> string \<Rightarrow> (string, string) res"
  ox_jwt_decode :: "u64 option \<Rightarrow> string \<Rightarrow> string \<Rightarrow> (string, JwtClaims) res"
  ox_cookie_parse :: "string \<Rightarrow> (string \<times> string) option"
  ox_cookie_show :: "CookieT \<Rightarrow> string"
  ox_add_day :: "u64 option \<Rightarrow> u64 option"
  ox_send :: "http_request \<Rightarrow> (string, string) res"
  ox_github_token :: "string \<Rightarrow> (string, GithubTokenResponse) res"
  ox_github_user :: "string \<Rightarrow> (string, GithubUserResponse) res"
  ox_github_emails :: "string \<Rightarrow> (string, GithubEmailResponse list) res"
  ox_workos_token :: "string \<Rightarrow> (string, WorkosTokenResponse) res"

definition COOKIE_NAME :: string where
  "COOKIE_NAME = ''__Secure_Auth_PRK_JWT''"

section \<open>Query strings\<close>

definition query_pair :: "string \<Rightarrow> (string \<times> string) option" where
  "query_pair kv = (case split_on (CHR ''='') kv of k # v # _ \<Rightarrow> Some (k, v) | _ \<Rightarrow> None)"

definition from_string_to_query_params :: "string \<Rightarrow> (string, string) hmap" where
  "from_string_to_query_params value =
     fold (\<lambda>(k, v). hm_insert k v) (List.map_filter query_pair (split_on (CHR ''&'') value)) []"

section \<open>Validations\<close>

fun object_get :: "json \<Rightarrow> string \<Rightarrow> json option" where
  "object_get (JObject kvs) k = map_of kvs k"
| "object_get _ k = None"

text \<open>One round of the loop: \<open>Some b\<close> is \<open>return b\<close>, \<open>None\<close> goes on to the next validation.\<close>

definition check_validation :: "OauthUser \<Rightarrow> json \<Rightarrow> bool option" where
  "check_validation user validation =
     (case as_object validation of
        None \<Rightarrow> None
      | Some _ \<Rightarrow>
        (case Option.bind (object_get validation ''type'') as_str of
           None \<Rightarrow> None
         | Some validation_type \<Rightarrow>
           (case Option.bind (object_get validation ''value'') as_array of
              None \<Rightarrow> None
            | Some values \<Rightarrow>
              (let validation_values = List.map_filter as_str values in
               if validation_type = ''team_id''
               then Some (list_ex (\<lambda>v. v \<in> set (ou_team_ids user)) validation_values)
               else if validation_type = ''org_id''
               then Some (list_ex (\<lambda>v. v \<in> set (ou_organization_ids user)) validation_values)
               else if validation_type = ''email''
               then Some (ou_email user \<in> set validation_values)
               else if validation_type = ''username''
               then Some (list_ex (\<lambda>v. v \<in> set (ou_usernames user)) validation_values)
               else None))))"

fun run_validations :: "OauthUser \<Rightarrow> json list \<Rightarrow> bool" where
  "run_validations user [] = False"
| "run_validations user (v # vs) =
     (case check_validation user v of Some b \<Rightarrow> b | None \<Rightarrow> run_validations user vs)"

definition validate_user_from_provider :: "OauthUser \<Rightarrow> json option \<Rightarrow> bool" where
  "validate_user_from_provider user validations =
     (case Option.bind validations as_array of
        None \<Rightarrow> True
      | Some validations_array \<Rightarrow> run_validations user validations_array)"

section \<open>Tokens and cookies\<close>

definition user_of_claims :: "JwtClaims \<Rightarrow> OauthUser" where
  "user_of_claims claims = \<lparr>ou_email = jc_sub claims, ou_team_ids = jc_teams claims,
     ou_organization_ids = jc_ids claims, ou_usernames = []\<rparr>"

definition one_day_in_secs :: u64 where
  "one_day_in_secs = 86400"

definition jwt_claims_for :: "string \<Rightarrow> u64 \<Rightarrow> JwtClaims" where
  "jwt_claims_for sub since = \<lparr>jc_sub = sub, jc_exp = since + one_day_in_secs, jc_iat = since,
     jc_teams = [], jc_ids = []\<rparr>"

definition encode_jwt :: "oauth_ext \<Rightarrow> string \<Rightarrow> string \<Rightarrow> (string, string) res" where
  "encode_jwt X sub secret =
     (case ox_now X of
        None \<Rightarrow> Err ''second time provided was later than self''
      | Some since \<Rightarrow>
        if unat since + unat one_day_in_secs < 2 ^ 64
        then ox_jwt_encode X (jwt_claims_for sub since) secret
        else Panic ''called `Option::unwrap()` on a `None` value'')"

definition decode_jwt :: "oauth_ext \<Rightarrow> string \<Rightarrow> string \<Rightarrow> (string, JwtClaims) res" where
  "decode_jwt X token secret = ox_jwt_decode X (ox_now X) token secret"

definition extract_cookie_domain :: "string \<Rightarrow> string" where
  "extract_cookie_domain host =
     (let parts = split_on (CHR ''.'') host in
      if length parts \<le> 2 then host
      else join_with (CHR ''.'') (drop (length parts - 2) parts))"

definition create_secure_cookie ::
  "oauth_ext \<Rightarrow> OauthUser \<Rightarrow> string \<Rightarrow> string \<Rightarrow> (string, CookieT) res" where
  "create_secure_cookie X user jwt_secret host =
     res_bind (encode_jwt X (ou_email user) jwt_secret) (\<lambda>jwt_token.
     Ok \<lparr>ck_name = COOKIE_NAME, ck_value = jwt_token, ck_secure = True,
        ck_domain = extract_cookie_domain host, ck_path = ''/'',
        ck_expires = ox_add_day X (ox_now X), ck_http_only = True, ck_same_site = Lax\<rparr>)"

definition remove_secure_cookie :: "oauth_ext \<Rightarrow> string \<Rightarrow> CookieT" where
  "remove_secure_cookie X host =
     \<lparr>ck_name = COOKIE_NAME, ck_value = [], ck_secure = True,
      ck_domain = extract_cookie_domain host, ck_path = ''/'',
      ck_expires = ox_add_day X (ox_now X), ck_http_only = True, ck_same_site = Lax\<rparr>"

section \<open>Providers\<close>

definition GITHUB_API_URL :: string where
  "GITHUB_API_URL = ''https://api.github.com''"

definition GITHUB_OAUTH_URL :: string where
  "GITHUB_OAUTH_URL = ''https://github.com/login/oauth/authorize''"

definition GITHUB_OAUTH_TOKEN_URL :: string where
  "GITHUB_OAUTH_TOKEN_URL = ''https://github.com/login/oauth/access_token''"

definition WORKOS_API_URL :: string where
  "WORKOS_API_URL = ''https://api.workos.com/user_management/authorize''"

definition github_callback_url :: "string \<Rightarrow> string \<Rightarrow> string" where
  "github_callback_url client_id state =
     GITHUB_OAUTH_URL @ ''?client_id='' @ client_id @ ''&redirect_uri='' @ ''&state='' @ state @
     ''&scope=user:email&response_type=code''"

definition workos_callback_url :: "string \<Rightarrow> string \<Rightarrow> string" where
  "workos_callback_url client_id state =
     WORKOS_API_URL @ ''?client_id='' @ client_id @ ''&redirect_uri='' @ ''&state='' @ state @
     ''&provider=authkit&response_type=code''"

definition github_get_oauth_token ::
  "oauth_ext \<Rightarrow> string \<Rightarrow> string \<Rightarrow> string \<Rightarrow> (string, GithubTokenResponse) res" where
  "github_get_oauth_token X client_id client_secret code =
     res_bind (ox_send X \<lparr>hq_method = ''POST'', hq_url = GITHUB_OAUTH_TOKEN_URL,
        hq_query = [(''client_id'', client_id), (''client_secret'', client_secret), (''code'', code)],
        hq_headers = [(''accept'', ''application/json'')], hq_bearer = None, hq_json = None\<rparr>)
     (ox_github_token X)"

definition github_get :: "string \<Rightarrow> string \<Rightarrow> http_request" where
  "github_get path token = \<lparr>hq_method = ''GET'', hq_url = GITHUB_API_URL @ path, hq_query = [],
     hq_headers = [(''user-agent'', ''pingora/0.2.0'')], hq_bearer = Some token, hq_json = None\<rparr>"

definition github_get_user_info :: "oauth_ext \<Rightarrow> string \<Rightarrow> (string, GithubUserResponse) res" where
  "github_get_user_info X token =
     res_bind (ox_send X (github_get ''/user'' token)) (ox_github_user X)"

definition github_get_user_emails :: "oauth_ext \<Rightarrow> string \<Rightarrow> (string, GithubEmailResponse list) res" where
  "github_get_user_emails X token =
     res_bind (ox_send X (github_get ''/user/emails'' token)) (ox_github_emails X)"

definition github_get_oauth_user ::
  "oauth_ext \<Rightarrow> string \<Rightarrow> string \<Rightarrow> string \<Rightarrow> (string, OauthUser) res" where
  "github_get_oauth_user X client_id client_secret code =
     res_bind (github_get_oauth_token X client_id client_secret code) (\<lambda>token.
     (case gt_access_token token of
        None \<Rightarrow> Err ''Failed to get access token from Github''
      | Some access_token \<Rightarrow>
        res_bind (github_get_user_info X access_token) (\<lambda>user.
        res_bind (github_get_user_emails X access_token) (\<lambda>emails.
        (case find ge_primary emails of
           None \<Rightarrow> Panic ''called `Option::unwrap()` on a `None` value''
         | Some primary_email \<Rightarrow>
           Ok \<lparr>ou_email = ge_email primary_email, ou_team_ids = [], ou_organization_ids = [],
              ou_usernames = [gu_login user]\<rparr>)))))"

definition workos_get_oauth_user ::
  "oauth_ext \<Rightarrow> string \<Rightarrow> string \<Rightarrow> string \<Rightarrow> (string, OauthUser) res" where
  "workos_get_oauth_user X client_id client_secret code =
     res_bind (res_bind (ox_send X \<lparr>hq_method = ''POST'', hq_url = WORKOS_API_URL, hq_query = [],
        hq_headers = [], hq_bearer = None,
        hq_json = Some (JObject [(''client_id'', JString client_id),
          (''client_secret'', JString client_secret), (''code'', JString code),
          (''grant_type'', JString ''authorization_code''),
          (''user-agent'', JString ''pingora/0.2.0'')])\<rparr>) (ox_workos_token X)) (\<lambda>body.
     Ok \<lparr>ou_email = wu_email (wt_user body), ou_team_ids = [], ou_organization_ids = [],
        ou_usernames = []\<rparr>)"

definition get_oauth_callback_url :: "Provider \<Rightarrow> string \<Rightarrow> string" where
  "get_oauth_callback_url p state =
     (case pv_typ p of
        Github \<Rightarrow> github_callback_url (pv_client_id p) state
      | Workos \<Rightarrow> workos_callback_url (pv_client_id p) state)"

definition get_oauth_user :: "oauth_ext \<Rightarrow> Provider \<Rightarrow> string \<Rightarrow> (string, OauthUser) res" where
  "get_oauth_user X p code =
     (case pv_typ p of
        Github \<Rightarrow> github_get_oauth_user X (pv_client_id p) (pv_client_secret p) code
      | Workos \<Rightarrow> workos_get_oauth_user X (pv_client_id p) (pv_client_secret p) code)"

section \<open>Lemmas\<close>

lemma hm_get_fold_insert:
  "hm_get (fold (\<lambda>(k, v). hm_insert k v) kvs m) k =
   (case map_of (rev kvs) k of Some v \<Rightarrow> Some v | None \<Rightarrow> hm_get m k)"
  by (induction kvs arbitrary: m) (auto simp: map_add_def split: option.splits)

lemma query_pair_encoded:
  "CHR ''='' \<notin> set k \<Longrightarrow> CHR ''='' \<notin> set v \<Longrightarrow> query_pair (k @ CHR ''='' # v) = Some (k, v)"
  by (simp add: query_pair_def split_on_append)

text \<open>A query string written from pairs whose texts need no escaping.\<close>

definition plain_pair :: "string \<times> string \<Rightarrow> bool" where
  "plain_pair kv \<longleftrightarrow> {CHR ''='', CHR ''&''} \<inter> (set (fst kv) \<union> set (snd kv)) = {}"

definition write_query :: "(string \<times> string) list \<Rightarrow> string" where
  "write_query kvs = join_with (CHR ''&'') (map (\<lambda>(k, v). k @ CHR ''='' # v) kvs)"

lemma map_filter_query_pairs:
  "list_all plain_pair kvs \<Longrightarrow>
   List.map_filter query_pair (map (\<lambda>(k, v). k @ CHR ''='' # v) kvs) = kvs"
  by (induction kvs) (auto simp: List.map_filter_simps query_pair_encoded plain_pair_def)

lemma query_params_written:
  assumes "list_all plain_pair kvs" and "kvs \<noteq> []"
  shows "hm_get (from_string_to_query_params (write_query kvs)) k = map_of (rev kvs) k"
proof -
  have "split_on (CHR ''&'') (write_query kvs) = map (\<lambda>(k, v). k @ CHR ''='' # v) kvs"
    unfolding write_query_def using assms
    by (intro split_on_join_with) (auto simp: list_all_iff plain_pair_def)
  then show ?thesis
    using map_filter_query_pairs [OF assms(1)]
    by (simp add: from_string_to_query_params_def hm_get_fold_insert split: option.splits)
qed

text \<open>
  What a validation asks, read off its JSON: an object whose \<open>type\<close> names an attribute of the user
  and whose \<open>value\<close> is an array; it accepts the user when the array has one of the attribute's values.
\<close>

definition user_attributes :: "OauthUser \<Rightarrow> (string \<times> string list) list" where
  "user_attributes user = [(''team_id'', ou_team_ids user), (''org_id'', ou_organization_ids user),
     (''email'', [ou_email user]), (''username'', ou_usernames user)]"

definition asks :: "json \<Rightarrow> string \<Rightarrow> json list \<Rightarrow> bool" where
  "asks validation t values \<longleftrightarrow>
     (\<exists>kvs. validation = JObject kvs \<and> map_of kvs ''type'' = Some (JString t) \<and>
       map_of kvs ''value'' = Some (JArray values) \<and> t \<in> {''team_id'', ''org_id'', ''email'', ''username''})"

definition accepts :: "OauthUser \<Rightarrow> string \<Rightarrow> json list \<Rightarrow> bool" where
  "accepts user t values \<longleftrightarrow>
     (\<exists>as. map_of (user_attributes user) t = Some as \<and> (\<exists>a\<in>set as. JString a \<in> set values))"

lemma json_shapes:
  "as_str j = Some t \<longleftrightarrow> j = JString t" "as_array j = Some vs \<longleftrightarrow> j = JArray vs"
  "as_object j = Some kvs \<longleftrightarrow> j = JObject kvs"
  by (cases j; simp)+

lemma strings_of: "s \<in> set (List.map_filter as_str vs) \<longleftrightarrow> JString s \<in> set vs"
  by (induction vs) (auto simp: List.map_filter_simps json_shapes split: option.splits)

lemma check_validation_eq:
  "check_validation user v = Some b \<longleftrightarrow> (\<exists>t values. asks v t values \<and> b = accepts user t values)"
proof (cases "\<exists>kvs t values. v = JObject kvs \<and> map_of kvs ''type'' = Some (JString t) \<and>
    map_of kvs ''value'' = Some (JArray values)")
  case True
  then obtain kvs t vs where v: "v = JObject kvs" "map_of kvs ''type'' = Some (JString t)"
    "map_of kvs ''value'' = Some (JArray vs)" by blast
  have accept: "list_ex (\<lambda>v. v \<in> set as) (List.map_filter as_str vs) \<longleftrightarrow> (\<exists>a\<in>set as. JString a \<in> set vs)" for as
    by (auto simp: list_ex_iff strings_of)
  have asks: "asks v t' vs' \<longleftrightarrow>
      t' = t \<and> vs' = vs \<and> t \<in> {''team_id'', ''org_id'', ''email'', ''username''}" for t' vs'
    using v by (auto simp: asks_def)
  show ?thesis
    unfolding asks using v(2,3)
    by (auto simp: v(1) check_validation_def Let_def accept strings_of accepts_def user_attributes_def)
next
  case False
  then have "check_validation user v = None"
    by (cases v) (auto simp: check_validation_def json_shapes bind_eq_Some_conv split: option.splits)
  moreover from False have "\<not> asks v t vs" for t vs by (auto simp: asks_def)
  ultimately show ?thesis by simp
qed

lemma check_validation_None: "check_validation user v = None \<longleftrightarrow> (\<nexists>t values. asks v t values)"
proof -
  have "check_validation user v \<noteq> None \<longleftrightarrow> (\<exists>b t values. asks v t values \<and> b = accepts user t values)"
    unfolding check_validation_eq [symmetric] by simp
  then show ?thesis by blast
qed

lemma run_validations_first:
  "run_validations user vs \<longleftrightarrow>
   (\<exists>xs v ys. vs = xs @ v # ys \<and> list_all (\<lambda>x. check_validation user x = None) xs \<and>
      check_validation user v = Some True)"
proof
  show "run_validations user vs \<Longrightarrow> \<exists>xs v ys. vs = xs @ v # ys \<and>
      list_all (\<lambda>x. check_validation user x = None) xs \<and> check_validation user v = Some True"
  proof (induction vs)
    case (Cons w ws)
    show ?case
    proof (cases "check_validation user w")
      case None
      with Cons obtain xs v ys where "ws = xs @ v # ys"
        "list_all (\<lambda>x. check_validation user x = None) xs" "check_validation user v = Some True"
        by auto
      with None have "w # ws = (w # xs) @ v # ys \<and>
          list_all (\<lambda>x. check_validation user x = None) (w # xs) \<and> check_validation user v = Some True"
        by simp
      then show ?thesis by blast
    next
      case (Some b)
      with Cons.prems have "w # ws = [] @ w # ws \<and>
          list_all (\<lambda>x. check_validation user x = None) [] \<and> check_validation user w = Some True"
        by simp
      then show ?thesis by blast
    qed
  qed simp
next
  have "run_validations user (xs @ v # ys)"
    if "list_all (\<lambda>x. check_validation user x = None) xs" "check_validation user v = Some True" for xs v ys
    using that by (induction xs) auto
  then show "\<exists>xs v ys. vs = xs @ v # ys \<and> list_all (\<lambda>x. check_validation user x = None) xs \<and>
      check_validation user v = Some True \<Longrightarrow> run_validations user vs"
    by blast
qed

section \<open>Properties\<close>

text \<open>
  Reading a query string back: for pairs whose texts contain neither separator, looking a key up
  in the parsed parameters gives the value of its last pair, and nothing for other keys.
\<close>

theorem query_params_roundtrip:
  assumes "list_all plain_pair kvs" and "kvs \<noteq> []"
  shows "hm_get (from_string_to_query_params (write_query kvs)) k = map_of (rev kvs) k"
  by (rule query_params_written [OF assms])

theorem query_params_roundtrip_witness:
  "hm_get (from_string_to_query_params (write_query [(''code'', ''c1''), (''state'', ''s1'')])) ''state'' = Some ''s1''"
  by (subst query_params_roundtrip) (simp_all add: plain_pair_def)

text \<open>
  C33. When the validations of the configuration are a list, a user is authorized exactly when the
  first validation of it that asks something accepts the user: one that is an object with a
  \<open>value\<close> array and the \<open>type\<close> \<open>team_id\<close>, \<open>org_id\<close>, \<open>email\<close> or \<open>username\<close>, and the array has
  one of the user's values of that attribute. The validations after it are never consulted, and a
  list in which none asks anything authorizes nobody. Without a list (no validations, or another
  kind of JSON value) everybody is authorized.
\<close>

theorem first_recognised_validation_decides:
  "validate_user_from_provider user validations \<longleftrightarrow>
   (\<nexists>vs. validations = Some (JArray vs)) \<or>
   (\<exists>xs v ys t values. validations = Some (JArray (xs @ v # ys)) \<and>
      (\<forall>x\<in>set xs. \<nexists>t values. asks x t values) \<and> asks v t values \<and> accepts user t values)"
proof (cases "\<exists>vs. validations = Some (JArray vs)")
  case True
  then obtain vs where vs: "validations = Some (JArray vs)" by blast
  then show ?thesis
    by (simp add: validate_user_from_provider_def run_validations_first list_all_iff check_validation_None
        check_validation_eq)
next
  case False
  then have "Option.bind validations as_array = None"
    by (cases "Option.bind validations as_array") (auto simp: bind_eq_Some_conv json_shapes)
  with False show ?thesis by (simp add: validate_user_from_provider_def)
qed

theorem first_recognised_validation_decides_witness:
  "validate_user_from_provider \<lparr>ou_email = ''a'', ou_team_ids = [], ou_organization_ids = [], ou_usernames = []\<rparr>
     (Some (JArray [JNull, JObject [(''type'', JString ''email''), (''value'', JArray [JString ''a''])]]))"
proof -
  let ?user = "\<lparr>ou_email = ''a'', ou_team_ids = [], ou_organization_ids = [], ou_usernames = []\<rparr>"
  let ?v = "JObject [(''type'', JString ''email''), (''value'', JArray [JString ''a''])]"
  have asks: "asks ?v ''email'' [JString ''a'']" and none: "\<forall>x\<in>set [JNull]. \<nexists>t values. asks x t values"
    by (simp_all add: asks_def)
  have accepts: "accepts ?user ''email'' [JString ''a'']"
    by (simp add: accepts_def user_attributes_def)
  have list: "Some (JArray [JNull, ?v]) = Some (JArray ([JNull] @ ?v # []))" by simp
  show ?thesis
    by (rule first_recognised_validation_decides [THEN iffD2]) (use asks none accepts list in blast)
qed

text \<open>
  The cookie keeps the email address only: whoever holds it is rejected by a validation of user
  names, team ids or organization ids, whatever it lists.
\<close>

theorem cookie_user_fails_other_validations:
  "list_all (\<lambda>t. \<not> validate_user_from_provider (user_of_claims (jwt_claims_for email since))
      (Some (JArray (JObject [(''type'', JString t), (''value'', JArray values)] # vs))))
    [''username'', ''team_id'', ''org_id'']"
  by (simp add: validate_user_from_provider_def check_validation_def user_of_claims_def
      jwt_claims_for_def list_ex_iff)

text \<open>
  The domain of the cookie is the host itself when it has at most two labels and its last two
  labels otherwise.
\<close>

theorem cookie_domain_last_labels:
  assumes "CHR ''.'' \<notin> set b" and "CHR ''.'' \<notin> set c"
  shows "extract_cookie_domain (a @ CHR ''.'' # b @ CHR ''.'' # c) = b @ CHR ''.'' # c \<and>
    extract_cookie_domain (b @ CHR ''.'' # c) = b @ CHR ''.'' # c \<and> extract_cookie_domain b = b"
proof -
  have bc: "split_on (CHR ''.'') (b @ CHR ''.'' # c) = [b, c]"
    using assms by (simp add: split_on_append)
  have "split_on (CHR ''.'') (a @ CHR ''.'' # b @ CHR ''.'' # c) = split_on (CHR ''.'') a @ [b, c]"
    using bc by (simp add: split_on_append_general)
  then have "extract_cookie_domain (a @ CHR ''.'' # b @ CHR ''.'' # c) = b @ CHR ''.'' # c"
    by (cases "split_on (CHR ''.'') a") (simp_all add: extract_cookie_domain_def)
  with assms bc show ?thesis by (simp add: extract_cookie_domain_def)
qed

theorem cookie_domain_last_labels_witness:
  "extract_cookie_domain (''a.b'' @ CHR ''.'' # ''example'' @ CHR ''.'' # ''com'') = ''example.com''"
  using cookie_domain_last_labels [of "''example''" "''com''" "''a.b''"] by simp

end
