(* ===== verification/Oauth2.thy ===== *)
theory Oauth2
  imports Oauth2_Users
begin

text \<open>
  The oauth2 plugin (\<open>plugins/oauth2/mod.rs\<close>): the login redirect, the provider's callback
  and the check of the cookie on every other request. A filter works on the pair of session and
  context; \<open>H\<close> are the header operations, \<open>X\<close> the crates and services (\<open>oauth_ext\<close>).
\<close>

section \<open>Operations\<close>

definition unwrap_panic :: string where
  "unwrap_panic = ''called `unwrap()` on an error value''"

definition get_current_timestamp :: "oauth_ext \<Rightarrow> (string, u64) res" where
  "get_current_timestamp X = (case ox_now X of Some t \<Rightarrow> Ok t | None \<Rightarrow> Panic unwrap_panic)"

definition is_authorized :: "OauthUser \<Rightarrow> json option \<Rightarrow> bool" where
  "is_authorized user validations = validate_user_from_provider user validations"

definition NO_STORE :: string where
  "NO_STORE = ''no-store, no-cache, must-revalidate, max-age=0''"

definition respond_header :: "(string, 'h) res \<Rightarrow> (('h, 'lb) rstate, string, bool) act" where
  "respond_header r =
     act_bind (act_res r) (\<lambda>h. act_then (write_response_header h True) (act_res (Ok True)))"

definition redirect_header :: "'h hdr_ops \<Rightarrow> string \<Rightarrow> (string, 'h) res" where
  "redirect_header H url =
     res_bind (ho_append H (ho_build H 307) ''location'' url) (\<lambda>h.
     ho_append H h ''cache-control'' NO_STORE)"

definition redirect_to_oauth_callback ::
  "'h hdr_ops \<Rightarrow> oauth_ext \<Rightarrow> Provider \<Rightarrow> (('h, 'lb) rstate, string, bool) act" where
  "redirect_to_oauth_callback H X oauth_provider = act_read (\<lambda>st.
     act_bind (act_res (get_current_timestamp X)) (\<lambda>now.
       (let state = show_u64 now @ '';'' @ se_uri_string (fst st);
            state = ox_encrypt X state
        in respond_header (redirect_header H (get_oauth_callback_url oauth_provider state)))))"

definition unauthorized_response :: "'h hdr_ops \<Rightarrow> (('h, 'lb) rstate, string, bool) act" where
  "unauthorized_response H = respond_header (Ok (ho_build H 401))"

fun find_secure_jwt ::
  "'h hdr_ops \<Rightarrow> oauth_ext \<Rightarrow> string list \<Rightarrow> string option \<Rightarrow> (string, string option) res" where
  "find_secure_jwt H X [] secure_jwt = Ok secure_jwt"
| "find_secure_jwt H X (cookie # cookies) secure_jwt =
     (case ho_to_str H cookie of
        None \<Rightarrow> Panic unwrap_panic
      | Some cookie_str \<Rightarrow>
        (case ox_cookie_parse X cookie_str of
           None \<Rightarrow> find_secure_jwt H X cookies secure_jwt
         | Some (name, value) \<Rightarrow>
           find_secure_jwt H X cookies (if name = COOKIE_NAME then Some value else secure_jwt)))"

definition validate_cookie ::
  "'h hdr_ops \<Rightarrow> oauth_ext \<Rightarrow> string \<Rightarrow> json option \<Rightarrow> (('h, 'lb) rstate, string, bool) act" where
  "validate_cookie H X jwt_secret validations = act_read (\<lambda>st.
     act_bind (act_res (find_secure_jwt H X (se_headers_all (fst st) ''cookie'') None)) (\<lambda>secure_jwt.
       (case secure_jwt of
          None \<Rightarrow> act_res (Ok False)
        | Some token \<Rightarrow>
          (case decode_jwt X token jwt_secret of
             Err e \<Rightarrow> act_res (Ok False)
           | Panic m \<Rightarrow> act_res (Panic m)
           | Ok claims \<Rightarrow>
             if \<not> is_authorized (user_of_claims claims) validations then unauthorized_response H
             else act_res (Ok True)))))"

definition parse_provider :: "(string, json) hmap \<Rightarrow> (string, OauthType) res" where
  "parse_provider plugin_config =
     res_bind (ok_or ''Missing or invalid provider'' (Option.bind (hm_get plugin_config ''provider'') as_str))
     (\<lambda>provider.
        if provider = ''github'' then Ok Github
        else if provider = ''workos'' then Ok Workos
        else Err ''Provider not found in the plugin configuration'')"

definition callback_header ::
  "'h hdr_ops \<Rightarrow> oauth_ext \<Rightarrow> OauthUser \<Rightarrow> string \<Rightarrow> string \<Rightarrow> string \<Rightarrow> (string, 'h) res" where
  "callback_header H X user jwt_secret host current_address =
     res_bind (create_secure_cookie X user jwt_secret host) (\<lambda>jwt_cookie.
     res_bind (ho_insert H (ho_build H 302) ''set-cookie'' (ox_cookie_show X jwt_cookie)) (\<lambda>h.
     res_bind (ho_insert H h ''location'' current_address) (\<lambda>h.
     ho_insert H h ''cache-control'' NO_STORE)))"

text \<open>
  The state of a callback, decrypted: \<open>None\<close> where the code answers 401, a panic where it
  unwraps a state without a timestamp. The sum is Rust's, on \<open>u64\<close>.
\<close>

definition read_state :: "oauth_ext \<Rightarrow> string \<Rightarrow> (string, string option) res" where
  "read_state X state =
     (case ox_decrypt X state of
        None \<Rightarrow> Ok None
      | Some encrypted \<Rightarrow>
        (case from_utf8 encrypted of
           None \<Rightarrow> Ok None
         | Some redirect_from_state \<Rightarrow>
           (case split_once (CHR '';'') redirect_from_state of
              None \<Rightarrow> Panic unwrap_panic
            | Some (timestamp, current_address) \<Rightarrow>
              (case parse_u64 timestamp of
                 None \<Rightarrow> Panic unwrap_panic
               | Some timestamp \<Rightarrow>
                 res_bind (get_current_timestamp X) (\<lambda>now.
                 if timestamp + 120 < now then Ok None else Ok (Some current_address))))))"

definition exchange_code ::
  "'h hdr_ops \<Rightarrow> oauth_ext \<Rightarrow> Provider \<Rightarrow> string \<Rightarrow> json option \<Rightarrow> string \<Rightarrow> string option \<Rightarrow>
   (('h, 'lb) rstate, string, bool) act" where
  "exchange_code H X oauth_provider jwt_secret validations code redirect = act_read (\<lambda>st.
     (case redirect of
        None \<Rightarrow> unauthorized_response H
      | Some current_address \<Rightarrow>
        (case get_oauth_user X oauth_provider code of
           Err err \<Rightarrow> unauthorized_response H
         | Panic m \<Rightarrow> act_res (Panic m)
         | Ok user \<Rightarrow>
           if \<not> is_authorized user validations then unauthorized_response H
           else respond_header (callback_header H X user jwt_secret (rx_host (snd st)) current_address))))"

definition oauth_callback ::
  "'h hdr_ops \<Rightarrow> oauth_ext \<Rightarrow> Provider \<Rightarrow> string \<Rightarrow> json option \<Rightarrow> (('h, 'lb) rstate, string, bool) act" where
  "oauth_callback H X oauth_provider jwt_secret validations = act_read (\<lambda>st.
     (case se_uri_query (fst st) of
        None \<Rightarrow> unauthorized_response H
      | Some query \<Rightarrow>
        (let query_params = from_string_to_query_params query in
         case hm_get query_params ''code'' of
           None \<Rightarrow> unauthorized_response H
         | Some code \<Rightarrow>
           (case hm_get query_params ''state'' of
              None \<Rightarrow> unauthorized_response H
            | Some state \<Rightarrow>
              act_bind (act_res (read_state X state))
                (exchange_code H X oauth_provider jwt_secret validations code)))))"

definition callback_path :: "OauthType \<Rightarrow> string" where
  "callback_path provider = ''/__/oauth/'' @ display_OauthType provider @ ''/callback''"

record oauth_config =
  oc_provider :: Provider
  oc_jwt_secret :: string
  oc_validations :: "json option"

definition parse_oauth_config :: "(string, json) hmap \<Rightarrow> (string, oauth_config) res" where
  "parse_oauth_config plugin_config =
     res_bind (parse_provider plugin_config) (\<lambda>provider.
     res_bind (get_required_config plugin_config ''client_id'') (\<lambda>client_id.
     res_bind (get_required_config plugin_config ''client_secret'') (\<lambda>client_secret.
     res_bind (get_required_config plugin_config ''jwt_secret'') (\<lambda>jwt_secret.
     Ok \<lparr>oc_provider = \<lparr>pv_typ = provider, pv_client_id = client_id, pv_client_secret = client_secret\<rparr>,
        oc_jwt_secret = jwt_secret, oc_validations = hm_get plugin_config ''validations''\<rparr>))))"

definition oauth2_request_filter ::
  "'h hdr_ops \<Rightarrow> oauth_ext \<Rightarrow> RoutePlugin \<Rightarrow> (('h, 'lb) rstate, string, bool) act" where
  "oauth2_request_filter H X plugin = act_read (\<lambda>st.
     (case rp_config plugin of
        None \<Rightarrow> act_res (Ok False)
      | Some plugin_config \<Rightarrow>
        act_bind (act_res (parse_oauth_config plugin_config)) (\<lambda>c.
          if se_uri_path (fst st) = callback_path (pv_typ (oc_provider c))
          then oauth_callback H X (oc_provider c) (oc_jwt_secret c) (oc_validations c)
          else act_bind (validate_cookie H X (oc_jwt_secret c) (oc_validations c)) (\<lambda>valid.
            if valid then act_res (Ok False)
            else redirect_to_oauth_callback H X (oc_provider c)))))"

text \<open>The other three methods of the trait do nothing for this plugin.\<close>

definition oauth2_upstream_request_filter :: "'h \<Rightarrow> (('h, 'lb) rstate, string, 'h) act" where
  "oauth2_upstream_request_filter upstream_request = act_res (Ok upstream_request)"

definition oauth2_upstream_response_filter :: "'h \<Rightarrow> (('h, 'lb) rstate, string, 'h) act" where
  "oauth2_upstream_response_filter upstream_response = act_res (Ok upstream_response)"

definition oauth2_response_filter :: "RoutePlugin \<Rightarrow> (('h, 'lb) rstate, string, bool) act" where
  "oauth2_response_filter plugin = act_res (Ok False)"

section \<open>The plugin contract\<close>

context write_frame
begin

lemma respond_header_keeps: "act_keeps R (respond_header r)"
  unfolding respond_header_def session_writes by (intro keeps_intros)

lemma redirect_keeps: "act_keeps R (redirect_to_oauth_callback H X p)"
  unfolding redirect_to_oauth_callback_def
  by (auto simp: Let_def intro!: keeps_intros respond_header_keeps)

lemma unauthorized_keeps: "act_keeps R (unauthorized_response H)"
  by (simp add: unauthorized_response_def respond_header_keeps)

lemma validate_cookie_keeps: "act_keeps R (validate_cookie H X js vs)"
  unfolding validate_cookie_def
  by (auto intro!: keeps_intros unauthorized_keeps split: option.splits res.splits)

lemma exchange_keeps: "act_keeps R (exchange_code H X p js vs code r)"
  unfolding exchange_code_def
  by (auto intro!: keeps_intros unauthorized_keeps respond_header_keeps
      split: option.splits res.splits)

lemma callback_keeps: "act_keeps R (oauth_callback H X p js vs)"
  unfolding oauth_callback_def
  by (auto simp: Let_def intro!: keeps_intros unauthorized_keeps exchange_keeps
      split: option.splits)

lemma oauth2_keeps: "act_keeps R (oauth2_request_filter H X p)"
  unfolding oauth2_request_filter_def
  by (auto intro!: keeps_intros callback_keeps validate_cookie_keeps redirect_keeps
      split: option.splits)

end

lemma respond_header_Ok:
  "respond_header r st = (Ok b, st') \<longleftrightarrow>
   b \<and> (\<exists>h. r = Ok h \<and> se_io (fst st) (length (se_sent (fst st))) = None \<and>
      st' = ((fst st)\<lparr>se_sent := se_sent (fst st) @ [SentHeader h True]\<rparr>, snd st))"
  by (auto simp: respond_header_def session_writes act_bind_Ok_iff send_down_Ok)

lemma respond_header_stable: "act_stable (respond_header r)"
  unfolding respond_header_def session_writes by (intro act_stable_intros)

lemma unauthorized_stable: "act_stable (unauthorized_response H)"
  by (simp add: unauthorized_response_def respond_header_stable)

lemma redirect_stable: "act_stable (redirect_to_oauth_callback H X p)"
  unfolding redirect_to_oauth_callback_def Let_def
  by (intro act_stable_intros respond_header_stable) (simp only: same_viewD)

lemma validate_cookie_stable: "act_stable (validate_cookie H X js vs)"
  unfolding validate_cookie_def
proof (rule act_stable_read, goal_cases)
  case 1
  show ?case
    by (auto intro!: act_stable_intros unauthorized_stable split: option.splits res.splits)
next
  case 2
  then show ?case by (simp only: same_viewD)
qed

lemma exchange_stable: "act_stable (exchange_code H X p js vs code r)"
  unfolding exchange_code_def
proof (rule act_stable_read, goal_cases)
  case 1
  show ?case
    by (auto intro!: act_stable_intros unauthorized_stable respond_header_stable
      split: option.splits res.splits)
next
  case 2
  then show ?case by (simp only: same_viewD)
qed

lemma callback_stable: "act_stable (oauth_callback H X p js vs)"
  unfolding oauth_callback_def
proof (rule act_stable_read, goal_cases)
  case 1
  show ?case
    by (auto simp: Let_def intro!: act_stable_intros unauthorized_stable exchange_stable
      split: option.splits)
next
  case 2
  then show ?case by (simp only: same_viewD)
qed

lemma oauth2_stable: "act_stable (oauth2_request_filter H X p)"
  unfolding oauth2_request_filter_def
proof (rule act_stable_read, goal_cases)
  case 1
  show ?case
    by (auto intro!: act_stable_intros callback_stable validate_cookie_stable redirect_stable
      split: option.splits)
next
  case 2
  then show ?case by (simp only: same_viewD)
qed

text \<open>How each step can end.\<close>

lemma unauthorized_Ok:
  "unauthorized_response H st = (Ok b, st') \<longleftrightarrow>
   b \<and> se_io (fst st) (length (se_sent (fst st))) = None \<and>
   st' = ((fst st)\<lparr>se_sent := se_sent (fst st) @ [SentHeader (ho_build H 401) True]\<rparr>, snd st)"
  by (simp add: unauthorized_response_def respond_header_Ok)

lemma redirect_Ok:
  "redirect_to_oauth_callback H X p st = (Ok b, st') \<Longrightarrow> b \<and>
   (\<exists>now h. ox_now X = Some now \<and>
      redirect_header H (get_oauth_callback_url p (ox_encrypt X (show_u64 now @ '';'' @ se_uri_string (fst st)))) = Ok h \<and>
      se_sent (fst st') = se_sent (fst st) @ [SentHeader h True])"
  by (auto simp: redirect_to_oauth_callback_def get_current_timestamp_def act_bind_Ok_iff respond_header_Ok
      Let_def split: option.splits)

lemma validate_cookie_Ok:
  assumes "validate_cookie H X js vs st = (Ok b, st')"
  shows "\<not> b \<and> st' = st \<or>
    b \<and> (\<exists>token claims. find_secure_jwt H X (se_headers_all (fst st) ''cookie'') None = Ok (Some token) \<and>
       decode_jwt X token js = Ok claims \<and>
       (if is_authorized (user_of_claims claims) vs then st' = st
        else unauthorized_response H st = (Ok True, st')))"
proof -
  obtain j where j: "find_secure_jwt H X (se_headers_all (fst st) ''cookie'') None = Ok j"
    using assms by (auto simp: validate_cookie_def act_bind_Ok_iff)
  show ?thesis
  proof (cases j)
    case None
    with assms j show ?thesis by (auto simp: validate_cookie_def)
  next
    case (Some token)
    with assms j show ?thesis
      by (auto simp: validate_cookie_def unauthorized_Ok split: res.splits if_splits)
  qed
qed

lemma validate_cookie_token:
  assumes "find_secure_jwt H X (se_headers_all (fst st) ''cookie'') None = Ok (Some token)"
    and "decode_jwt X token js = Ok claims"
  shows "validate_cookie H X js vs st =
    (if is_authorized (user_of_claims claims) vs then (Ok True, st) else unauthorized_response H st)"
  using assms by (simp add: validate_cookie_def)

lemma exchange_Ok:
  assumes "exchange_code H X p js vs code r st = (Ok b, st')"
  shows "b \<and> (unauthorized_response H st = (Ok True, st') \<or>
    (\<exists>address user h. r = Some address \<and> get_oauth_user X p code = Ok user \<and> is_authorized user vs \<and>
       callback_header H X user js (rx_host (snd st)) address = Ok h \<and>
       se_sent (fst st') = se_sent (fst st) @ [SentHeader h True]))"
  using assms
  by (auto simp: exchange_code_def unauthorized_Ok respond_header_Ok split: option.splits res.splits if_splits)

lemma callback_Ok:
  assumes "oauth_callback H X p js vs st = (Ok b, st')"
  shows "b \<and> (unauthorized_response H st = (Ok True, st') \<or>
    (\<exists>query code state address user h. se_uri_query (fst st) = Some query \<and>
       hm_get (from_string_to_query_params query) ''code'' = Some code \<and>
       hm_get (from_string_to_query_params query) ''state'' = Some state \<and>
       read_state X state = Ok (Some address) \<and>
       get_oauth_user X p code = Ok user \<and> is_authorized user vs \<and>
       callback_header H X user js (rx_host (snd st)) address = Ok h \<and>
       se_sent (fst st') = se_sent (fst st) @ [SentHeader h True]))"
  using assms
  by (auto simp: oauth_callback_def act_bind_Ok_iff unauthorized_Ok Let_def split: option.splits
      dest!: exchange_Ok)

lemma callback_handles:
  "oauth_callback H X p js vs st = (Ok b, st') \<Longrightarrow> b \<and> se_sent (fst st') \<noteq> se_sent (fst st)"
  by (auto simp: unauthorized_Ok dest!: callback_Ok)

lemma oauth2_handled_sent:
  assumes "oauth2_request_filter H X p st = (Ok True, st')"
  shows "se_sent (fst st') \<noteq> se_sent (fst st)"
  using assms
  by (auto simp: oauth2_request_filter_def act_bind_Ok_iff split: option.splits if_splits
      dest!: callback_handles redirect_Ok validate_cookie_Ok)

interpretation oauth2: middleware_plugin "oauth2_request_filter H X" for H X
  by unfold_locales (rule frame.oauth2_keeps oauth2_handled_sent oauth2_stable; assumption?)+

section \<open>The state that travels through the provider\<close>

lemma read_state_Some:
  "read_state X state = Ok (Some address) \<longleftrightarrow>
   (\<exists>ts t now. ox_decrypt X state = Some (ts @ CHR '';'' # address) \<and>
      from_utf8 (ts @ CHR '';'' # address) = Some (ts @ CHR '';'' # address) \<and>
      CHR '';'' \<notin> set ts \<and> parse_u64 ts = Some t \<and> ox_now X = Some now \<and> \<not> t + 120 < now)"
proof
  assume r: "read_state X state = Ok (Some address)"
  then obtain d where d: "ox_decrypt X state = Some d" "from_utf8 d = Some d"
    by (auto simp: read_state_def split: option.splits dest: from_utf8_SomeD)
  with r obtain ts t now where "split_once (CHR '';'') d = Some (ts, address)" "parse_u64 ts = Some t"
    "ox_now X = Some now" "\<not> t + 120 < now"
    by (auto simp: read_state_def res_bind_Ok_iff get_current_timestamp_def split: option.splits if_splits)
  with d show "\<exists>ts t now. ox_decrypt X state = Some (ts @ CHR '';'' # address) \<and>
      from_utf8 (ts @ CHR '';'' # address) = Some (ts @ CHR '';'' # address) \<and>
      CHR '';'' \<notin> set ts \<and> parse_u64 ts = Some t \<and> ox_now X = Some now \<and> \<not> t + 120 < now"
    by (metis split_once_Some_iff)
qed (auto simp: read_state_def get_current_timestamp_def split_once_append)

lemma state_not_expired:
  fixes t0 now :: u64
  assumes "unat now \<le> unat t0 + 120" and "unat t0 + 120 < 2 ^ 64"
  shows "\<not> t0 + 120 < now"
proof -
  have "unat (t0 + 120) = unat t0 + 120"
    using assms(2) by (simp add: unat_word_ariths)
  with assms(1) show ?thesis by (simp add: word_less_nat_alt)
qed

lemma read_written_state:
  assumes "\<And>m. ox_decrypt X (ox_encrypt X0 m) = Some m"
    and "from_utf8 (show_u64 t0 @ '';'' @ address) = Some (show_u64 t0 @ '';'' @ address)"
    and "ox_now X = Some now" and "unat now \<le> unat t0 + 120" and "unat t0 + 120 < 2 ^ 64"
  shows "read_state X (ox_encrypt X0 (show_u64 t0 @ '';'' @ address)) = Ok (Some address)"
proof -
  have "CHR '';'' \<notin> set (show_u64 t0)"
    unfolding show_u64_def by (rule show_nat_no_char) auto
  moreover have "parse_u64 (show_u64 t0) = Some t0" by (rule parse_show_u64)
  ultimately show ?thesis
    unfolding read_state_Some using assms state_not_expired [OF assms(4,5)] by fastforce
qed

lemma login_header_names:
  "to_lowercase ''set-cookie'' \<noteq> to_lowercase ''location''"
  "to_lowercase ''set-cookie'' \<noteq> to_lowercase ''cache-control''"
  "to_lowercase ''location'' \<noteq> to_lowercase ''cache-control''"
  by (simp_all add: literal_simps)

text \<open>The header of a redirect to the provider.\<close>

lemma redirect_header_Ok:
  assumes "hdr_laws H" and "redirect_header H url = Ok h"
  shows "ho_status H h = 307 \<and> ho_get H h ''location'' = [url] \<and> ho_get H h ''set-cookie'' = []"
proof -
  note names = login_header_names
  obtain h1 where h1: "ho_append H (ho_build H 307) ''location'' url = Ok h1"
    and h: "ho_append H h1 ''cache-control'' NO_STORE = Ok h"
    using assms(2) by (auto simp: redirect_header_def res_bind_Ok_iff)
  show ?thesis
    using hdr_append [OF assms(1) h] hdr_append [OF assms(1) h1] hdr_build [OF assms(1)] names
    by simp
qed

text \<open>The header of a successful login.\<close>

lemma callback_header_Ok:
  assumes "hdr_laws H" and "callback_header H X user js host address = Ok h"
  shows "\<exists>cookie. create_secure_cookie X user js host = Ok cookie \<and> ho_status H h = 302 \<and>
    ho_get H h ''set-cookie'' = [ox_cookie_show X cookie] \<and> ho_get H h ''location'' = [address]"
proof -
  note names = login_header_names
  obtain cookie h1 h2 where c: "create_secure_cookie X user js host = Ok cookie"
    and h1: "ho_insert H (ho_build H 302) ''set-cookie'' (ox_cookie_show X cookie) = Ok h1"
    and h2: "ho_insert H h1 ''location'' address = Ok h2"
    and h: "ho_insert H h2 ''cache-control'' NO_STORE = Ok h"
    using assms(2) by (auto simp: callback_header_def res_bind_Ok_iff)
  have "ho_status H h = 302"
    using hdr_insert(1) [OF assms(1) h] hdr_insert(1) [OF assms(1) h2] hdr_insert(1) [OF assms(1) h1]
      hdr_build(1) [OF assms(1)] by simp
  moreover have "ho_get H h ''set-cookie'' = [ox_cookie_show X cookie]" "ho_get H h ''location'' = [address]"
    using hdr_insert(2) [OF assms(1) h, of "''set-cookie''"] hdr_insert(2) [OF assms(1) h, of "''location''"]
      hdr_insert(2) [OF assms(1) h2, of "''set-cookie''"] hdr_insert(2) [OF assms(1) h2, of "''location''"]
      hdr_insert(2) [OF assms(1) h1, of "''set-cookie''"] names
    by simp_all
  ultimately show ?thesis using c by blast
qed

lemma login_result:
  assumes "hdr_laws H" and "\<And>m. ox_decrypt X (ox_encrypt X0 m) = Some m"
    and "rp_config p = Some config" and "parse_oauth_config config = Ok c"
    and "se_uri_path (fst st) = callback_path (pv_typ (oc_provider c))"
    and "state = ox_encrypt X0 (show_u64 t0 @ '';'' @ page)"
    and "se_uri_query (fst st) = Some (write_query [(''code'', code), (''state'', state)])"
    and "plain_pair (''code'', code)" and "plain_pair (''state'', state)"
    and "from_utf8 (show_u64 t0 @ '';'' @ page) = Some (show_u64 t0 @ '';'' @ page)"
    and "ox_now X = Some now" and "unat now \<le> unat t0 + 120" and "unat t0 + 120 < 2 ^ 64"
    and "get_oauth_user X (oc_provider c) code = Ok user" and "is_authorized user (oc_validations c)"
    and "callback_header H X user (oc_jwt_secret c) (rx_host (snd st)) page = Ok h"
    and "se_io (fst st) (length (se_sent (fst st))) = None"
  shows "oauth2_request_filter H X p st =
      (Ok True, ((fst st)\<lparr>se_sent := se_sent (fst st) @ [SentHeader h True]\<rparr>, snd st)) \<and>
    ho_status H h = 302 \<and> ho_get H h ''location'' = [page] \<and>
    (\<exists>cookie. create_secure_cookie X user (oc_jwt_secret c) (rx_host (snd st)) = Ok cookie \<and>
       ho_get H h ''set-cookie'' = [ox_cookie_show X cookie])"
proof -
  have params: "hm_get (from_string_to_query_params (write_query [(''code'', code), (''state'', state)])) k =
      map_of [(''state'', state), (''code'', code)] k" for k
    using query_params_written [of "[(''code'', code), (''state'', state)]"] assms(8,9) by simp
  have "read_state X state = Ok (Some page)"
    unfolding assms(6) by (rule read_written_state [OF assms(2,10-13)])
  moreover have "exchange_code H X (oc_provider c) (oc_jwt_secret c) (oc_validations c) code (Some page) st =
      (Ok True, ((fst st)\<lparr>se_sent := se_sent (fst st) @ [SentHeader h True]\<rparr>, snd st))"
    using assms(14-17) by (simp add: exchange_code_def respond_header_Ok)
  ultimately have "oauth2_request_filter H X p st =
      (Ok True, ((fst st)\<lparr>se_sent := se_sent (fst st) @ [SentHeader h True]\<rparr>, snd st))"
    using assms(3-5,7) by (simp add: oauth2_request_filter_def oauth_callback_def params)
  with callback_header_Ok [OF assms(1,16)] show ?thesis by blast
qed

section \<open>A concrete provider\<close>

text \<open>Every code is exchanged for bob; a token is its subject; the time is 1000.\<close>

definition example_oauth :: oauth_ext where
  "example_oauth = \<lparr>ox_now = Some 1000, ox_encrypt = example_enc, ox_decrypt = (\<lambda>m. res_ok (example_dec m)),
     ox_jwt_encode = (\<lambda>c _. Ok (jc_sub c)), ox_jwt_decode = (\<lambda>_ token _. Ok (jwt_claims_for token 0)),
     ox_cookie_parse = split_once (CHR ''=''), ox_cookie_show = ck_value, ox_add_day = (\<lambda>t. t),
     ox_send = (\<lambda>_. Ok []), ox_github_token = (\<lambda>_. Err []), ox_github_user = (\<lambda>_. Err []),
     ox_github_emails = (\<lambda>_. Err []), ox_workos_token = (\<lambda>_. Ok \<lparr>wt_user = \<lparr>wu_email = ''bob''\<rparr>\<rparr>)\<rparr>"

definition example_validations :: json where
  "example_validations = JArray [JObject [(''type'', JString ''email''), (''value'', JArray [JString ''bob''])]]"

definition example_oauth_config :: "(string, json) hmap" where
  "example_oauth_config = [(''provider'', JString ''workos''), (''client_id'', JString ''i''),
     (''client_secret'', JString ''s''), (''jwt_secret'', JString ''j''), (''validations'', example_validations)]"

definition example_oauth_parsed :: oauth_config where
  "example_oauth_parsed = \<lparr>oc_provider = \<lparr>pv_typ = Workos, pv_client_id = ''i'', pv_client_secret = ''s''\<rparr>,
     oc_jwt_secret = ''j'', oc_validations = Some example_validations\<rparr>"

definition example_callback :: "(nat \<times> (string \<times> string) list, unit) rstate" where
  "example_callback = (example_session\<lparr>se_uri_path := callback_path Workos,
     se_uri_query := Some (write_query [(''code'', ''c''), (''state'', example_enc ''950;/p'')])\<rparr>, example_ctx)"

definition example_plugin :: RoutePlugin where
  "example_plugin = \<lparr>rp_name = ''oauth2'', rp_config = Some example_oauth_config\<rparr>"

definition example_user :: "string \<Rightarrow> OauthUser" where
  "example_user email = \<lparr>ou_email = email, ou_team_ids = [], ou_organization_ids = [], ou_usernames = []\<rparr>"

lemma example_oauth_parses: "parse_oauth_config example_oauth_config = Ok example_oauth_parsed"
  by (simp add: parse_oauth_config_def example_oauth_config_def parse_provider_def get_required_config_def
      hm_get_def example_oauth_parsed_def)

lemma example_user_authorized: "is_authorized (example_user email) (Some example_validations) \<longleftrightarrow> email = ''bob''"
  by (simp add: is_authorized_def validate_user_from_provider_def example_validations_def check_validation_def
      example_user_def List.map_filter_simps)

lemma example_exchange: "get_oauth_user example_oauth (oc_provider example_oauth_parsed) code = Ok (example_user ''bob'')"
  by (simp add: get_oauth_user_def example_oauth_parsed_def workos_get_oauth_user_def example_oauth_def
      example_user_def)

lemma example_state: "show_u64 950 @ '';'' @ ''/p'' = ''950;/p''"
  by (simp add: show_u64_def show_nat.simps char_of_eq_iff)

lemma example_insert: "\<exists>h'. ho_insert example_hdr h k v = Ok h'"
  by (cases h) (simp add: example_hdr_def)

lemma example_encode: "encode_jwt example_oauth sub secret = Ok sub"
  by (simp add: encode_jwt_def example_oauth_def one_day_in_secs_def jwt_claims_for_def)

lemma example_header:
  "\<exists>h. callback_header example_hdr example_oauth (example_user ''bob'') js host address = Ok h"
proof -
  have "\<exists>c. create_secure_cookie example_oauth (example_user ''bob'') js host = Ok c"
    by (simp add: create_secure_cookie_def example_encode)
  then show ?thesis
    using example_insert by (metis callback_header_def res_bind.simps(1))
qed

lemma example_cookie:
  "create_secure_cookie example_oauth (example_user ''bob'') js host = Ok c \<Longrightarrow>
   ox_cookie_show example_oauth c = ''bob''"
proof -
  have show_value: "ox_cookie_show example_oauth = ck_value" by (simp add: example_oauth_def)
  show "create_secure_cookie example_oauth (example_user ''bob'') js host = Ok c \<Longrightarrow> ?thesis"
    unfolding show_value by (auto simp: create_secure_cookie_def example_encode example_user_def)
qed

lemma example_login_facts:
  "ox_decrypt example_oauth (ox_encrypt example_oauth m) = Some m"
  "from_utf8 (show_u64 950 @ '';'' @ ''/p'') = Some (show_u64 950 @ '';'' @ ''/p'')"
  "plain_pair (''code'', ''c'')" "plain_pair (''state'', example_enc ''950;/p'')"
  "is_authorized (example_user ''bob'') (oc_validations example_oauth_parsed)"
  "example_enc ''950;/p'' = ox_encrypt example_oauth (show_u64 950 @ '';'' @ ''/p'')"
  "rp_config example_plugin = Some example_oauth_config"
  "se_uri_path (fst example_callback) = callback_path (pv_typ (oc_provider example_oauth_parsed))"
  "se_uri_query (fst example_callback) = Some (write_query [(''code'', ''c''), (''state'', example_enc ''950;/p'')])"
  "ox_now example_oauth = Some 1000" "unat (1000 :: u64) \<le> unat (950 :: u64) + 120"
  "unat (950 :: u64) + 120 < 2 ^ 64"
  "se_io (fst example_callback) (length (se_sent (fst example_callback))) = None"
proof -
  show "from_utf8 (show_u64 950 @ '';'' @ ''/p'') = Some (show_u64 950 @ '';'' @ ''/p'')"
    unfolding example_state by (simp add: from_utf8_ascii)
  show "plain_pair (''code'', ''c'')" "plain_pair (''state'', example_enc ''950;/p'')"
    by (simp_all add: plain_pair_def example_enc_def)
  show "example_enc ''950;/p'' = ox_encrypt example_oauth (show_u64 950 @ '';'' @ ''/p'')"
    unfolding example_state by (simp add: example_oauth_def)
qed (simp_all add: example_oauth_def example_codec example_oauth_parsed_def example_user_authorized
    example_plugin_def example_callback_def example_session_def)

lemma example_login:
  "\<exists>h. oauth2_request_filter example_hdr example_oauth example_plugin example_callback =
      (Ok True, ((fst example_callback)\<lparr>se_sent := se_sent (fst example_callback) @ [SentHeader h True]\<rparr>,
         snd example_callback)) \<and>
    ho_get example_hdr h ''set-cookie'' = [''bob'']"
proof -
  obtain h where h: "callback_header example_hdr example_oauth (example_user ''bob'')
      (oc_jwt_secret example_oauth_parsed) (rx_host (snd example_callback)) ''/p'' = Ok h"
    using example_header by blast
  note login_result [OF example_hdr_laws example_login_facts(1,7) example_oauth_parses
      example_login_facts(8,6,9,3,4,2,10-12) example_exchange example_login_facts(5) h example_login_facts(13)]
  then show ?thesis using example_cookie by metis
qed

section \<open>Properties\<close>

text \<open>
  C28. The oauth2 plugin lets a request pass exactly when it has no configuration, or its configuration
  parses and the request is not for the callback path and carries a cookie whose token decodes with
  the configured secret. When the
  token's user is not authorized, a 401 header has been written by then.
\<close>

theorem oauth2_pass_iff:
  "oauth2_request_filter H X p st = (Ok False, st') \<longleftrightarrow>
   rp_config p = None \<and> st' = st \<or>
   (\<exists>config c token claims. rp_config p = Some config \<and> parse_oauth_config config = Ok c \<and>
      se_uri_path (fst st) \<noteq> callback_path (pv_typ (oc_provider c)) \<and>
      find_secure_jwt H X (se_headers_all (fst st) ''cookie'') None = Ok (Some token) \<and>
      decode_jwt X token (oc_jwt_secret c) = Ok claims \<and>
      (if is_authorized (user_of_claims claims) (oc_validations c) then st' = st
       else unauthorized_response H st = (Ok True, st')))" (is "?L \<longleftrightarrow> ?R")
proof
  assume ?L
  then show ?R
    by (auto simp: oauth2_request_filter_def act_bind_Ok_iff split: option.splits if_splits
        dest!: callback_handles redirect_Ok validate_cookie_Ok)
next
  assume ?R
  then show ?L
  proof (elim disjE conjE exE)
    fix config c token claims
    assume a: "rp_config p = Some config" "parse_oauth_config config = Ok c"
      "se_uri_path (fst st) \<noteq> callback_path (pv_typ (oc_provider c))"
      and "find_secure_jwt H X (se_headers_all (fst st) ''cookie'') None = Ok (Some token)"
      "decode_jwt X token (oc_jwt_secret c) = Ok claims"
      "if is_authorized (user_of_claims claims) (oc_validations c) then st' = st
       else unauthorized_response H st = (Ok True, st')"
    then have "validate_cookie H X (oc_jwt_secret c) (oc_validations c) st = (Ok True, st')"
      by (simp add: validate_cookie_token split: if_splits)
    with a show ?L by (simp add: oauth2_request_filter_def)
  qed (simp add: oauth2_request_filter_def)
qed

text \<open>
  C5. The plugin sets its cookie only in answer to a callback whose state it issued at most 120
  seconds earlier (in 64-bit arithmetic) and whose code the provider exchanged for an authorized
  user; the answer sends the browser back to the address stored in the state.
\<close>

theorem oauth2_cookie_only_for_authorized_user:
  assumes "hdr_laws H"
    and "rp_config p = Some config" and "parse_oauth_config config = Ok c"
    and "oauth2_request_filter H X p st = (Ok b, st')"
    and "se_sent (fst st') = se_sent (fst st) @ [SentHeader h e]" and "ho_get H h ''set-cookie'' \<noteq> []"
  shows "\<exists>query code state ts t now address user cookie.
    se_uri_path (fst st) = callback_path (pv_typ (oc_provider c)) \<and>
    se_uri_query (fst st) = Some query \<and>
    hm_get (from_string_to_query_params query) ''code'' = Some code \<and>
    hm_get (from_string_to_query_params query) ''state'' = Some state \<and>
    ox_decrypt X state = Some (ts @ CHR '';'' # address) \<and> parse_u64 ts = Some t \<and>
    ox_now X = Some now \<and> \<not> t + 120 < now \<and>
    get_oauth_user X (oc_provider c) code = Ok user \<and> is_authorized user (oc_validations c) \<and>
    create_secure_cookie X user (oc_jwt_secret c) (rx_host (snd st)) = Ok cookie \<and>
    ho_get H h ''set-cookie'' = [ox_cookie_show X cookie] \<and> ho_get H h ''location'' = [address]"
proof -
  have no401: "h \<noteq> ho_build H 401" using assms(6) hdr_build(2) [OF assms(1)] by auto
  have path: "se_uri_path (fst st) = callback_path (pv_typ (oc_provider c))"
  proof (rule ccontr)
    assume "se_uri_path (fst st) \<noteq> callback_path (pv_typ (oc_provider c))"
    with assms no401 redirect_header_Ok [OF assms(1)] show False
      by (auto simp: oauth2_request_filter_def act_bind_Ok_iff unauthorized_Ok split: if_splits
          dest!: redirect_Ok validate_cookie_Ok)
  qed
  with assms(2-4) have "oauth_callback H X (oc_provider c) (oc_jwt_secret c) (oc_validations c) st = (Ok b, st')"
    by (simp add: oauth2_request_filter_def)
  from callback_Ok [OF this] no401 assms(5) obtain query code state address user where
    q: "se_uri_query (fst st) = Some query" "hm_get (from_string_to_query_params query) ''code'' = Some code"
      "hm_get (from_string_to_query_params query) ''state'' = Some state"
      "get_oauth_user X (oc_provider c) code = Ok user" "is_authorized user (oc_validations c)"
    and r: "read_state X state = Ok (Some address)"
    and h: "callback_header H X user (oc_jwt_secret c) (rx_host (snd st)) address = Ok h"
    by (auto simp: unauthorized_Ok)
  show ?thesis
    using path q r [unfolded read_state_Some] callback_header_Ok [OF assms(1) h] by blast
qed

theorem oauth2_cookie_only_for_authorized_user_witness:
  "\<exists>h code user. ho_get example_hdr h ''set-cookie'' = [''bob''] \<and>
     get_oauth_user example_oauth (oc_provider example_oauth_parsed) code = Ok user \<and>
     is_authorized user (oc_validations example_oauth_parsed)"
proof -
  obtain h where h: "oauth2_request_filter example_hdr example_oauth example_plugin example_callback =
      (Ok True, ((fst example_callback)\<lparr>se_sent := se_sent (fst example_callback) @ [SentHeader h True]\<rparr>,
         snd example_callback))"
    "ho_get example_hdr h ''set-cookie'' = [''bob'']"
    using example_login by blast
  note oauth2_cookie_only_for_authorized_user [OF example_hdr_laws example_login_facts(7) example_oauth_parses
      h(1), of h True]
  then have "\<exists>code user. get_oauth_user example_oauth (oc_provider example_oauth_parsed) code = Ok user \<and>
      is_authorized user (oc_validations example_oauth_parsed)"
    using h(2) by auto
  with h(2) show ?thesis by blast
qed

lemma callback_url_inj: "get_oauth_callback_url p s = get_oauth_callback_url p s' \<Longrightarrow> s = s'"
  by (cases "pv_typ p") (simp_all add: get_oauth_callback_url_def github_callback_url_def workos_callback_url_def)

text \<open>A request that is not a callback and is answered with a header that has a location was redirected to the provider.\<close>

lemma redirected_state:
  assumes "hdr_laws H" and "rp_config p = Some config" and "parse_oauth_config config = Ok c"
    and "se_uri_path (fst st) \<noteq> callback_path (pv_typ (oc_provider c))"
    and "oauth2_request_filter H X p st = (Ok b, st')" and "se_sent (fst st') = se_sent (fst st) @ [SentHeader h e]"
    and "ho_get H h ''location'' = [get_oauth_callback_url (oc_provider c) state]" and "ox_now X = Some now"
  shows "state = ox_encrypt X (show_u64 now @ '';'' @ se_uri_string (fst st))"
proof -
  have no401: "h \<noteq> ho_build H 401" using assms(7) hdr_build(2) [OF assms(1)] by auto
  obtain valid st1 where v: "validate_cookie H X (oc_jwt_secret c) (oc_validations c) st = (Ok valid, st1)"
    and r: "(if valid then act_res (Ok False) else redirect_to_oauth_callback H X (oc_provider c)) st1 = (Ok b, st')"
    using assms(2-5) by (auto simp: oauth2_request_filter_def act_bind_Ok_iff)
  have "\<not> valid"
    using validate_cookie_Ok [OF v] r no401 assms(6) by (auto simp: unauthorized_Ok split: if_splits)
  with validate_cookie_Ok [OF v] r have "redirect_to_oauth_callback H X (oc_provider c) st = (Ok b, st')" by auto
  from redirect_Ok [OF this] assms(6,8) have
    "redirect_header H (get_oauth_callback_url (oc_provider c) (ox_encrypt X (show_u64 now @ '';'' @ se_uri_string (fst st)))) = Ok h"
    by auto
  from redirect_header_Ok [OF assms(1) this] assms(7) show ?thesis by (auto dest: callback_url_inj)
qed

text \<open>
  C17. Logging in returns the user to the page asked for. A request without a valid cookie is
  redirected to the provider with a state; when the provider sends the browser back with this state
  and a code that it exchanges for an authorized user, at most 120 seconds later, the answer is a 302 to
  the address of the first request with the user's cookie.
\<close>

theorem oauth2_login_returns_to_page:
  assumes "hdr_laws H" and "\<And>m. ox_decrypt X (ox_encrypt X0 m) = Some m"
    and "rp_config p = Some config" and "parse_oauth_config config = Ok c"
    and "se_uri_path (fst st0) \<noteq> callback_path (pv_typ (oc_provider c))" and "ox_now X0 = Some t0"
    and "oauth2_request_filter H X0 p st0 = (Ok b, st0')" and "se_sent (fst st0') = se_sent (fst st0) @ [SentHeader h0 e]"
    and "ho_get H h0 ''location'' = [get_oauth_callback_url (oc_provider c) state]"
    and "se_uri_path (fst st) = callback_path (pv_typ (oc_provider c))"
    and "se_uri_query (fst st) = Some (write_query [(''code'', code), (''state'', state)])"
    and "plain_pair (''code'', code)" and "plain_pair (''state'', state)"
    and "from_utf8 (show_u64 t0 @ '';'' @ se_uri_string (fst st0)) = Some (show_u64 t0 @ '';'' @ se_uri_string (fst st0))"
    and "ox_now X = Some now" and "unat now \<le> unat t0 + 120" and "unat t0 + 120 < 2 ^ 64"
    and "get_oauth_user X (oc_provider c) code = Ok user" and "is_authorized user (oc_validations c)"
    and "callback_header H X user (oc_jwt_secret c) (rx_host (snd st)) (se_uri_string (fst st0)) = Ok h"
    and "se_io (fst st) (length (se_sent (fst st))) = None"
  shows "oauth2_request_filter H X p st =
      (Ok True, ((fst st)\<lparr>se_sent := se_sent (fst st) @ [SentHeader h True]\<rparr>, snd st)) \<and>
    ho_status H h = 302 \<and> ho_get H h ''location'' = [se_uri_string (fst st0)] \<and>
    (\<exists>cookie. create_secure_cookie X user (oc_jwt_secret c) (rx_host (snd st)) = Ok cookie \<and>
       ho_get H h ''set-cookie'' = [ox_cookie_show X cookie])"
proof -
  have "state = ox_encrypt X0 (show_u64 t0 @ '';'' @ se_uri_string (fst st0))"
    by (rule redirected_state [OF assms(1,3,4,5,7-9,6)])
  from login_result [OF assms(1,2,3,4,10) this assms(11-21)] show ?thesis .
qed

text \<open>Asking for \<open>/p\<close> without a cookie at time 950, and coming back at time 1000.\<close>

theorem oauth2_login_returns_to_page_witness:
  "\<exists>h0 h. fst (oauth2_request_filter example_hdr (example_oauth\<lparr>ox_now := Some 950\<rparr>) example_plugin
      (example_session\<lparr>se_uri_string := ''/p''\<rparr>, example_ctx)) = Ok True \<and>
    ho_get example_hdr h0 ''location'' = [get_oauth_callback_url (oc_provider example_oauth_parsed) (example_enc ''950;/p'')] \<and>
    fst (oauth2_request_filter example_hdr example_oauth example_plugin example_callback) = Ok True \<and>
    ho_get example_hdr h ''location'' = [''/p'']"
proof -
  let ?X0 = "example_oauth\<lparr>ox_now := Some 950\<rparr>"
  let ?st0 = "(example_session\<lparr>se_uri_string := ''/p''\<rparr>, example_ctx) :: (nat \<times> (string \<times> string) list, unit) rstate"
  let ?url = "get_oauth_callback_url (oc_provider example_oauth_parsed) (example_enc ''950;/p'')"
  have app: "\<exists>h'. ho_append example_hdr h k v = Ok h'" for h k v by (cases h) (simp add: example_hdr_def)
  obtain h1 where h1: "ho_append example_hdr (ho_build example_hdr 307) ''location'' ?url = Ok h1" using app by blast
  obtain h0 where "ho_append example_hdr h1 ''cache-control'' NO_STORE = Ok h0" using app by blast
  with h1 have h0: "redirect_header example_hdr ?url = Ok h0" by (simp add: redirect_header_def)
  have loc: "ho_get example_hdr h0 ''location'' = [?url]" using redirect_header_Ok [OF example_hdr_laws h0] by simp
  have enc: "ox_encrypt ?X0 (show_u64 950 @ '';'' @ ''/p'') = example_enc ''950;/p''"
    unfolding example_state by (simp add: example_oauth_def)
  have path: "se_uri_path (fst ?st0) \<noteq> callback_path (pv_typ (oc_provider example_oauth_parsed))"
    by (simp add: example_session_def callback_path_def)
  have "validate_cookie example_hdr ?X0 (oc_jwt_secret example_oauth_parsed) (oc_validations example_oauth_parsed) ?st0 = (Ok False, ?st0)"
    by (simp add: validate_cookie_def example_session_def)
  moreover have "redirect_to_oauth_callback example_hdr ?X0 (oc_provider example_oauth_parsed) ?st0 =
      (Ok True, ((fst ?st0)\<lparr>se_sent := se_sent (fst ?st0) @ [SentHeader h0 True]\<rparr>, snd ?st0))"
    using h0 by (simp add: redirect_to_oauth_callback_def get_current_timestamp_def Let_def enc [simplified] respond_header_Ok example_session_def)
  ultimately have run: "oauth2_request_filter example_hdr ?X0 example_plugin ?st0 =
      (Ok True, ((fst ?st0)\<lparr>se_sent := se_sent (fst ?st0) @ [SentHeader h0 True]\<rparr>, snd ?st0))"
    unfolding oauth2_request_filter_def act_read_def example_login_facts(7) option.case example_oauth_parses
    using path by (simp add: act_bind_def)
  have dec: "ox_decrypt example_oauth (ox_encrypt ?X0 m) = Some m" for m using example_login_facts(1) by (simp add: example_oauth_def)
  obtain h where h: "callback_header example_hdr example_oauth (example_user ''bob'')
      (oc_jwt_secret example_oauth_parsed) (rx_host (snd example_callback)) (se_uri_string (fst ?st0)) = Ok h"
    using example_header by blast
  have utf: "from_utf8 (show_u64 950 @ '';'' @ se_uri_string (fst ?st0)) = Some (show_u64 950 @ '';'' @ se_uri_string (fst ?st0))"
    using example_login_facts(2) by simp
  have now: "ox_now ?X0 = Some 950" by simp
  have sent: "se_sent (fst ((fst ?st0)\<lparr>se_sent := se_sent (fst ?st0) @ [SentHeader h0 True]\<rparr>, snd ?st0)) =
      se_sent (fst ?st0) @ [SentHeader h0 True]" by simp
  note oauth2_login_returns_to_page [OF example_hdr_laws dec example_login_facts(7) example_oauth_parses path now run sent loc
      example_login_facts(8,9,3,4) utf example_login_facts(10-12) example_exchange example_login_facts(5) h example_login_facts(13)]
  then show ?thesis using run loc by (intro exI [of _ h0] exI [of _ h]) simp
qed

text \<open>
  C37. A request whose token decodes but whose user the validations reject is answered with a 401
  header and still passed on to the upstream: the plugin returns \<open>Ok(false)\<close>.
\<close>

theorem oauth2_unauthorized_is_forwarded:
  assumes "rp_config p = Some config" and "parse_oauth_config config = Ok c"
    and "se_uri_path (fst st) \<noteq> callback_path (pv_typ (oc_provider c))"
    and "find_secure_jwt H X (se_headers_all (fst st) ''cookie'') None = Ok (Some token)"
    and "decode_jwt X token (oc_jwt_secret c) = Ok claims"
    and "\<not> is_authorized (user_of_claims claims) (oc_validations c)"
    and "se_io (fst st) (length (se_sent (fst st))) = None"
  shows "oauth2_request_filter H X p st =
    (Ok False, ((fst st)\<lparr>se_sent := se_sent (fst st) @ [SentHeader (ho_build H 401) True]\<rparr>, snd st))"
proof -
  have "validate_cookie H X (oc_jwt_secret c) (oc_validations c) st =
      (Ok True, ((fst st)\<lparr>se_sent := se_sent (fst st) @ [SentHeader (ho_build H 401) True]\<rparr>, snd st))"
    using validate_cookie_token [OF assms(4,5)] assms(6,7) by (simp add: unauthorized_Ok)
  with assms(1-3) show ?thesis by (simp add: oauth2_request_filter_def)
qed

theorem oauth2_unauthorized_is_forwarded_witness:
  "fst (oauth2_request_filter example_hdr example_oauth example_plugin
     (example_session\<lparr>se_headers_all := (\<lambda>_. [''__Secure_Auth_PRK_JWT=eve''])\<rparr>, example_ctx)) = Ok False"
proof -
  have f: "find_secure_jwt example_hdr example_oauth [''__Secure_Auth_PRK_JWT=eve''] None = Ok (Some ''eve'')"
    by (simp add: example_hdr_def example_oauth_def split_once_def COOKIE_NAME_def)
  have "\<not> is_authorized (user_of_claims (jwt_claims_for ''eve'' 0)) (oc_validations example_oauth_parsed)"
    using example_user_authorized [of "''eve''"]
    by (simp add: user_of_claims_def jwt_claims_for_def example_user_def example_oauth_parsed_def)
  from oauth2_unauthorized_is_forwarded [OF _ example_oauth_parses _ _ _ this,
      of example_plugin "(example_session\<lparr>se_headers_all := (\<lambda>_. [''__Secure_Auth_PRK_JWT=eve''])\<rparr>, example_ctx)"
        example_hdr example_oauth "''eve''"]
  show ?thesis
    using f by (simp add: example_plugin_def example_session_def decode_jwt_def example_oauth_def
        callback_path_def example_oauth_parsed_def)
qed

end
