(* ===== verification/Request_Id.thy ===== *)
theory Request_Id
  imports Session
begin

text \<open>
  The request id plugin (\<open>plugins/request_id/mod.rs\<close>): a fresh id per request, kept in the
  context's extensions and copied to the request to the upstream and to its response. The id
  generated for the request is the parameter \<open>uuid\<close>.
\<close>

definition REQUEST_ID_KEY :: string where
  "REQUEST_ID_KEY = ''request_id_header''"

definition request_id_request_filter :: "string \<Rightarrow> RoutePlugin \<Rightarrow> (('h, 'lb) rstate, string, bool) act" where
  "request_id_request_filter uuid plugin =
     act_then (act_modify (\<lambda>(s, c). (s, c\<lparr>rx_extensions := hm_insert REQUEST_ID_KEY uuid (rx_extensions c)\<rparr>)))
       (act_res (Ok False))"

definition request_id_upstream_request_filter ::
  "'h hdr_ops \<Rightarrow> 'h \<Rightarrow> 'lb RouterContext \<Rightarrow> (string, 'h) res" where
  "request_id_upstream_request_filter H upstream_request c =
     (case hm_get (rx_extensions c) REQUEST_ID_KEY of
        Some request_id \<Rightarrow> ho_insert H upstream_request ''x-request-id'' request_id
      | None \<Rightarrow> Ok upstream_request)"

definition request_id_upstream_response_filter ::
  "'h hdr_ops \<Rightarrow> 'h \<Rightarrow> 'lb RouterContext \<Rightarrow> (string, 'h) res" where
  "request_id_upstream_response_filter H upstream_response c =
     (case hm_get (rx_extensions c) REQUEST_ID_KEY of
        Some request_id \<Rightarrow> ho_insert H upstream_response ''x-request-id'' request_id
      | None \<Rightarrow> Ok upstream_response)"

definition request_id_response_filter :: "RoutePlugin \<Rightarrow> (('h, 'lb) rstate, string, bool) act" where
  "request_id_response_filter plugin =
     act_then (act_modify (\<lambda>(s, c). (s, c\<lparr>rx_extensions := []\<rparr>))) (act_res (Ok False))"

lemma request_id_result:
  "request_id_request_filter uuid p st =
   (Ok False, (fst st, (snd st)\<lparr>rx_extensions := hm_insert REQUEST_ID_KEY uuid (rx_extensions (snd st))\<rparr>))"
  by (simp add: request_id_request_filter_def case_prod_beta)

interpretation request_id: strict_plugin "request_id_request_filter uuid" for uuid
  by unfold_locales
    (auto simp: act_keeps_def act_stable_def request_id_result plugin_frame_def same_view_def)

end
