(* ===== verification/Middleware.thy ===== *)
theory Middleware
  imports Oauth2 Request_Id
begin

text \<open>
  Running the plugins of a route (\<open>proxy_server/middleware.rs\<close>). The plugins are the
  entries of a hash map, so the loops are over a list whose order is arbitrary. \<open>E\<close> holds what
  the plugins depend on.
\<close>

record 'h plugin_env =
  pe_hdr :: "'h hdr_ops"
  pe_b64 :: "string \<Rightarrow> (string, string) res"
  pe_oauth :: oauth_ext
  pe_uuid :: string

section \<open>Operations\<close>

text \<open>\<open>is_ok_and(|v| v)\<close> and \<open>ok()\<close> on a plugin's result: an error counts as \<open>false\<close>.\<close>

definition act_is_ok_and :: "('s, 'e, bool) act \<Rightarrow> ('s, 'e, bool) act" where
  "act_is_ok_and m s = (case m s of
     (Ok b, s') \<Rightarrow> (Ok b, s')
   | (Err e, s') \<Rightarrow> (Ok False, s')
   | (Panic p, s') \<Rightarrow> (Panic p, s'))"

definition act_ignore :: "('s, 'e, 'a) act \<Rightarrow> ('s, 'e, bool) act" where
  "act_ignore m s = (case m s of
     (Ok b, s') \<Rightarrow> (Ok False, s')
   | (Err e, s') \<Rightarrow> (Ok False, s')
   | (Panic p, s') \<Rightarrow> (Panic p, s'))"

fun run_request_plugin :: "'h plugin_env \<Rightarrow> string \<times> RoutePlugin \<Rightarrow> (('h, 'lb) rstate, string, bool) act" where
  "run_request_plugin E (name, value) =
     (if name = ''oauth2'' then act_is_ok_and (oauth2_request_filter (pe_hdr E) (pe_oauth E) value)
      else if name = ''request_id'' then act_ignore (request_id_request_filter (pe_uuid E) value)
      else if name = ''basic_auth'' then act_is_ok_and (basic_request_filter (pe_hdr E) (pe_b64 E) value)
      else act_res (Ok False))"

fun execute_request_plugins ::
  "'h plugin_env \<Rightarrow> (string, RoutePlugin) hmap \<Rightarrow> (('h, 'lb) rstate, string, bool) act" where
  "execute_request_plugins E [] = act_res (Ok False)"
| "execute_request_plugins E (p # ps) =
     act_bind (run_request_plugin E p) (\<lambda>handled.
       if handled then act_res (Ok True) else execute_request_plugins E ps)"

fun response_plugins_loop :: "(string, RoutePlugin) hmap \<Rightarrow> (('h, 'lb) rstate, string, unit) act" where
  "response_plugins_loop [] = act_res (Ok ())"
| "response_plugins_loop ((name, value) # ps) =
     (if name = ''oauth2''
      then act_bind (act_is_ok_and (oauth2_response_filter value)) (\<lambda>handled.
        if handled then act_res (Ok ()) else response_plugins_loop ps)
      else response_plugins_loop ps)"

definition execute_response_plugins :: "(('h, 'lb) rstate, string, unit) act" where
  "execute_response_plugins = act_read (\<lambda>(s, c). response_plugins_loop (co_plugins (rx_route_container c)))"

fun upstream_request_loop :: "'h hdr_ops \<Rightarrow> string list \<Rightarrow> 'lb RouterContext \<Rightarrow> 'h \<Rightarrow> 'h" where
  "upstream_request_loop H [] c h = h"
| "upstream_request_loop H (name # names) c h = upstream_request_loop H names c
     (if name = ''request_id'' then unwrap_or h (res_ok (request_id_upstream_request_filter H h c)) else h)"

definition execute_upstream_request_plugins :: "'h hdr_ops \<Rightarrow> 'lb RouterContext \<Rightarrow> 'h \<Rightarrow> 'h" where
  "execute_upstream_request_plugins H c upstream_request =
     upstream_request_loop H (map fst (co_plugins (rx_route_container c))) c upstream_request"

fun upstream_response_loop :: "'h hdr_ops \<Rightarrow> string list \<Rightarrow> 'lb RouterContext \<Rightarrow> 'h \<Rightarrow> 'h" where
  "upstream_response_loop H [] c h = h"
| "upstream_response_loop H (name # names) c h = upstream_response_loop H names c
     (if name = ''request_id'' then unwrap_or h (res_ok (request_id_upstream_response_filter H h c)) else h)"

definition execute_upstream_response_plugins :: "'h hdr_ops \<Rightarrow> 'lb RouterContext \<Rightarrow> 'h \<Rightarrow> 'h" where
  "execute_upstream_response_plugins H c upstream_response =
     upstream_response_loop H (map fst (co_plugins (rx_route_container c))) c upstream_response"

section \<open>Lemmas\<close>

lemma act_is_ok_and_state: "snd (act_is_ok_and m s) = snd (m s)"
  by (simp add: act_is_ok_and_def split: prod.splits res.splits)

lemma act_ignore_state: "snd (act_ignore m s) = snd (m s)"
  by (simp add: act_ignore_def split: prod.splits res.splits)

lemma act_is_ok_and_result:
  "fst (act_is_ok_and m s) = (case fst (m s) of Ok b \<Rightarrow> Ok b | Err e \<Rightarrow> Ok False | Panic p \<Rightarrow> Panic p)"
  by (simp add: act_is_ok_and_def split: prod.splits res.splits)

lemma act_ignore_result:
  "fst (act_ignore m s) = (case fst (m s) of Ok b \<Rightarrow> Ok False | Err e \<Rightarrow> Ok False | Panic p \<Rightarrow> Panic p)"
  by (simp add: act_ignore_def split: prod.splits res.splits)

lemma wrapped_keeps:
  "act_keeps R m \<Longrightarrow> act_keeps R (act_is_ok_and m)"
  "act_keeps R m \<Longrightarrow> act_keeps R (act_ignore m)"
  by (simp_all add: act_keeps_def act_is_ok_and_state act_ignore_state)

lemma wrapped_stable:
  "act_stable m \<Longrightarrow> act_stable (act_is_ok_and m)"
  "act_stable m \<Longrightarrow> act_stable (act_ignore m)"
  by (simp_all add: act_stable_def act_is_ok_and_state act_ignore_state act_is_ok_and_result act_ignore_result)

lemma wrapped_True:
  "act_is_ok_and m s = (Ok True, s') \<longleftrightarrow> m s = (Ok True, s')"
  "act_ignore m s \<noteq> (Ok True, s')"
  by (auto simp: act_is_ok_and_def act_ignore_def split: prod.splits res.splits)

text \<open>Every plugin the loop can run meets the contract, so the loop's step does.\<close>

lemma step_keeps: "act_keeps plugin_frame (run_request_plugin E p)"
  by (cases p) (simp add: wrapped_keeps frame.keeps_intros oauth2.frame request_id.frame basic.frame
      del: act_simps)

lemma step_stable: "act_stable (run_request_plugin E p)"
  by (cases p) (simp add: wrapped_stable act_stable_intros oauth2.stable request_id.stable basic.stable
      del: act_simps)

lemma step_handled: "run_request_plugin E p st = (Ok True, st') \<Longrightarrow> se_sent (fst st') \<noteq> se_sent (fst st)"
  by (cases p) (auto simp: wrapped_True split: if_splits dest: oauth2.handled_sent basic.handled_sent)

interpretation step: middleware_plugin "\<lambda>v. run_request_plugin E (name, v)" for E name
  by unfold_locales (fact step_keeps step_stable | rule step_handled, assumption)+

lemma execute_keeps: "act_keeps plugin_frame (execute_request_plugins E ps)"
proof (induction ps)
  case (Cons p ps)
  then show ?case
    by (auto intro!: frame.keeps_intros step_keeps simp del: act_simps)
qed (simp add: frame.keeps_intros del: act_simps)

lemma same_view_frame:
  "same_view st0 st \<Longrightarrow> act_keeps plugin_frame m \<Longrightarrow> m st = (r, st') \<Longrightarrow> same_view st0 st'"
  using act_keepsD [of plugin_frame m st r st']
  by (auto simp: same_view_def plugin_frame_def same_request_iff)

lemma step_no_err: "fst (run_request_plugin E p st) \<noteq> Err e"
  by (cases p) (auto simp: act_is_ok_and_def act_ignore_def split: prod.splits res.splits)

text \<open>The verdict of one plugin on the request as it arrived.\<close>

definition plugin_verdict :: "'h plugin_env \<Rightarrow> ('h, 'lb) rstate \<Rightarrow> string \<times> RoutePlugin \<Rightarrow> (string, bool) res" where
  "plugin_verdict E st p = fst (run_request_plugin E p st)"

lemma execute_verdict:
  assumes "same_view st0 st" and "\<And>p m. p \<in> set ps \<Longrightarrow> plugin_verdict E st0 p \<noteq> Panic m"
  shows "fst (execute_request_plugins E ps st) = Ok (\<exists>p\<in>set ps. plugin_verdict E st0 p = Ok True)"
  using assms
proof (induction ps arbitrary: st)
  case (Cons p ps)
  obtain r st1 where run: "run_request_plugin E p st = (r, st1)" by (rule prod.exhaust)
  have r: "r = plugin_verdict E st0 p"
    using step_stable [of E p] Cons.prems(1) run unfolding act_stable_def plugin_verdict_def
    by (metis fst_conv)
  have view: "same_view st0 st1"
    using same_view_frame [OF Cons.prems(1) step_keeps run] .
  consider (ok) b where "r = Ok b" | (panic) m where "r = Panic m"
    using step_no_err [of E p st] run by (cases r) auto
  then show ?case
  proof cases
    case ok
    then show ?thesis
      using run r Cons.IH [OF view] Cons.prems(2) by (cases b) (auto simp: act_bind_def)
  qed (use r Cons.prems(2) in auto)
qed simp

lemma execute_answered:
  assumes "execute_request_plugins E ps st = (Ok True, st')"
  shows "\<exists>w. w \<noteq> [] \<and> se_sent (fst st') = se_sent (fst st) @ w"
  using assms
proof (induction ps arbitrary: st)
  case (Cons p ps)
  then obtain b st1 where run: "run_request_plugin E p st = (Ok b, st1)"
    and rest: "(if b then act_res (Ok True) else execute_request_plugins E ps) st1 = (Ok True, st')"
    by (auto simp: act_bind_Ok_iff)
  obtain u where u: "se_sent (fst st1) = se_sent (fst st) @ u"
    using act_keepsD [OF step_keeps run] by (auto simp: plugin_frame_def prefix_def)
  show ?case
  proof (cases b)
    case True
    with rest have "st1 = st'" by simp
    moreover from True run have "se_sent (fst st1) \<noteq> se_sent (fst st)" by (intro step_handled) simp
    ultimately show ?thesis using u by auto
  next
    case False
    with rest have "execute_request_plugins E ps st1 = (Ok True, st')" by simp
    from Cons.IH [OF this] u show ?thesis by auto
  qed
qed simp

text \<open>The request id survives the plugins that run after it.\<close>

lemma step_request_id:
  assumes "run_request_plugin E p st = (r, st')"
  shows "snd st' = (if fst p = ''request_id''
      then (snd st)\<lparr>rx_extensions := hm_insert REQUEST_ID_KEY (pe_uuid E) (rx_extensions (snd st))\<rparr>
      else snd st)"
proof -
  have "same_ctx st (snd (basic_request_filter H b64 v st))" "same_ctx st (snd (oauth2_request_filter H X v st))"
    for H b64 v X
    using ctx_frame.basic_keeps ctx_frame.oauth2_keeps unfolding act_keeps_def by blast+
  then show ?thesis
    using arg_cong [OF assms, of snd]
    by (cases p) (auto simp: act_is_ok_and_state act_ignore_state request_id_result same_ctx_def split: if_splits)
qed

lemma execute_request_id:
  assumes "execute_request_plugins E ps st = (Ok False, st')"
    and "''request_id'' \<in> fst ` set ps \<or> hm_get (rx_extensions (snd st)) REQUEST_ID_KEY = Some (pe_uuid E)"
  shows "hm_get (rx_extensions (snd st')) REQUEST_ID_KEY = Some (pe_uuid E)"
  using assms
proof (induction ps arbitrary: st)
  case (Cons p ps)
  then obtain st1 where run: "run_request_plugin E p st = (Ok False, st1)"
    and rest: "execute_request_plugins E ps st1 = (Ok False, st')"
    by (auto simp: act_bind_Ok_iff split: if_splits)
  have "''request_id'' \<in> fst ` set ps \<or> hm_get (rx_extensions (snd st1)) REQUEST_ID_KEY = Some (pe_uuid E)"
    using Cons.prems(2) step_request_id [OF run] by (auto split: if_splits)
  then show ?case by (rule Cons.IH [OF rest])
qed simp

lemma upstream_request_loop_id:
  assumes "hdr_laws H" and "hm_get (rx_extensions c) REQUEST_ID_KEY = Some i"
    and "\<And>h. \<exists>h'. ho_insert H h ''x-request-id'' i = Ok h'"
  shows "''request_id'' \<in> set names \<or> ho_get H h ''x-request-id'' = [i] \<Longrightarrow>
    ho_get H (upstream_request_loop H names c h) ''x-request-id'' = [i]"
proof (induction names arbitrary: h)
  case (Cons n ns)
  obtain h' where h': "ho_insert H h ''x-request-id'' i = Ok h'" using assms(3) by blast
  then have "ho_get H h' ''x-request-id'' = [i]" by (simp add: hdr_insert [OF assms(1)])
  with Cons h' assms(2) show ?case
    by (cases "n = ''request_id''") (auto simp: request_id_upstream_request_filter_def)
qed simp

text \<open>Without the plugin on the route neither loop touches the id.\<close>

lemma execute_without_request_id:
  assumes "execute_request_plugins E ps st = (Ok False, st')" and "''request_id'' \<notin> fst ` set ps"
  shows "rx_extensions (snd st') = rx_extensions (snd st)"
  using assms
proof (induction ps arbitrary: st)
  case (Cons p ps)
  then obtain st1 where run: "run_request_plugin E p st = (Ok False, st1)"
    and rest: "execute_request_plugins E ps st1 = (Ok False, st')"
    by (auto simp: act_bind_Ok_iff split: if_splits)
  then show ?case
    using Cons.IH [OF rest] Cons.prems(2) step_request_id [OF run] by (auto split: if_splits)
qed simp

lemma upstream_request_loop_without_id:
  "''request_id'' \<notin> set names \<Longrightarrow> upstream_request_loop H names c h = h"
  by (induction names) auto

section \<open>A concrete environment\<close>

definition example_env :: "(nat \<times> (string \<times> string) list) plugin_env" where
  "example_env = \<lparr>pe_hdr = example_hdr, pe_b64 = example_dec, pe_oauth = example_oauth, pe_uuid = ''id''\<rparr>"

lemma example_verdict:
  "plugin_verdict example_env (example_session, example_ctx) (''basic_auth'', example_basic_plugin) = Ok True"
  by (simp add: plugin_verdict_def act_is_ok_and_result basic_request_filter_def example_basic_plugin_def
      example_auth_config example_session_def deny_with_authenticate_def respond_with_authenticate_def
      example_hdr_def session_writes send_down_def example_env_def)

text \<open>A configured basic_auth plugin lets only its credentials pass.\<close>

lemma basic_auth_blocks:
  assumes "fst (execute_request_plugins E ps st) = Ok False" and "se_io (fst st) = (\<lambda>_. None)"
    and "\<And>p m. p \<in> set ps \<Longrightarrow> plugin_verdict E st p \<noteq> Panic m"
    and "(''basic_auth'', p) \<in> set ps" and "rp_config p = Some config"
    and "get_auth_config config = Some (user, pass)"
    and "se_header (fst st) ''authorization'' = Some v" and "ho_to_str (pe_hdr E) v = Some h"
    and "validate_auth_header (pe_b64 E) h user pass = Ok b"
    and "\<exists>a. respond_with_authenticate (pe_hdr E) (rx_host (snd st)) = Ok a"
  shows "authorized (pe_b64 E) h user pass"
proof (rule ccontr)
  assume no: "\<not> authorized (pe_b64 E) h user pass"
  have view: "same_view st st" using assms(2) by (simp add: same_view_def)
  have "fst (deny_with_authenticate (pe_hdr E) st) = Ok True"
    using assms(2,10) by (auto simp: deny_with_authenticate_def session_writes send_down_fine)
  then have "fst (basic_request_filter (pe_hdr E) (pe_b64 E) p st) = Ok True"
    using no assms(5-9) by (auto simp: basic_request_filter_def authorized_def validate_auth_header_True [symmetric]
        split: bool.splits)
  then have "plugin_verdict E st (''basic_auth'', p) = Ok True"
    by (simp add: plugin_verdict_def act_is_ok_and_result)
  with execute_verdict [OF view assms(3)] assms(1,4) show False by auto
qed

section \<open>Properties\<close>

text \<open>
  C18. On a connection that takes every write, whether the plugins of a route handle a request does
  not depend on the order in which the hash map yields them: they do exactly when one of them does
  on the request as it arrived.
\<close>

theorem plugin_order_irrelevant:
  assumes "se_io (fst st) = (\<lambda>_. None)" and "set ps = set ps'"
    and "\<And>p m. p \<in> set ps \<Longrightarrow> plugin_verdict E st p \<noteq> Panic m"
  shows "fst (execute_request_plugins E ps st) = fst (execute_request_plugins E ps' st) \<and>
    fst (execute_request_plugins E ps st) = Ok (\<exists>p\<in>set ps. plugin_verdict E st p = Ok True)"
proof -
  have "same_view st st" using assms(1) by (simp add: same_view_def)
  then have "fst (execute_request_plugins E qs st) = Ok (\<exists>p\<in>set qs. plugin_verdict E st p = Ok True)"
    if "set qs = set ps" for qs
    using that assms(3) by (intro execute_verdict) auto
  then show ?thesis using assms(2) by simp
qed

theorem plugin_order_irrelevant_witness:
  "fst (execute_request_plugins example_env
      [(''basic_auth'', example_basic_plugin), (''request_id'', example_basic_plugin)] (example_session, example_ctx)) = Ok True"
proof -
  let ?E = example_env
  let ?st = "(example_session :: (nat \<times> (string \<times> string) list) Session, example_ctx)"
  let ?ps = "[(''basic_auth'', example_basic_plugin), (''request_id'', example_basic_plugin)]"
  note b = example_verdict
  have r: "plugin_verdict ?E ?st (''request_id'', example_basic_plugin) = Ok False"
    by (simp add: plugin_verdict_def act_ignore_result request_id_result example_env_def)
  have io: "se_io (fst ?st) = (\<lambda>_. None)" by (simp add: example_session_def)
  have np: "p \<in> set ?ps \<Longrightarrow> plugin_verdict ?E ?st p \<noteq> Panic m" for p m
    using b r by auto
  have "fst (execute_request_plugins ?E ?ps ?st) = Ok (\<exists>p\<in>set ?ps. plugin_verdict ?E ?st p = Ok True)"
    using plugin_order_irrelevant [OF io HOL.refl np] by (rule conjunct2)
  then show ?thesis using b by (simp del: execute_request_plugins.simps)
qed

text \<open>When the plugins handle a request, a response has been sent to the client.\<close>

theorem handled_request_was_answered:
  assumes "execute_request_plugins E ps st = (Ok True, st')"
  shows "\<exists>w. w \<noteq> [] \<and> se_sent (fst st') = se_sent (fst st) @ w"
  by (rule execute_answered [OF assms])

theorem handled_request_was_answered_witness:
  "\<exists>st' w. execute_request_plugins example_env
      [(''basic_auth'', example_basic_plugin)] (example_session, example_ctx) = (Ok True, st') \<and>
     se_sent (fst st') = w \<and> w \<noteq> []"
proof -
  obtain st' where st': "execute_request_plugins
      example_env
      [(''basic_auth'', example_basic_plugin)] (example_session, example_ctx) = (Ok True, st')"
    using example_verdict unfolding plugin_verdict_def
    by (cases "run_request_plugin example_env (''basic_auth'', example_basic_plugin) (example_session, example_ctx)")
      (auto simp: act_bind_def example_env_def simp del: run_request_plugin.simps)
  from handled_request_was_answered [OF this] st' show ?thesis by (auto simp: example_session_def)
qed

text \<open>
  C2. A route with a configured basic authentication plugin forwards a request only with the
  configured credentials, provided the plugin could read the header the request carries (it has
  one, it is text, and a Basic header decodes).
\<close>

theorem basic_auth_gate:
  assumes "fst (execute_request_plugins E ps st) = Ok False" and "se_io (fst st) = (\<lambda>_. None)"
    and "\<And>p m. p \<in> set ps \<Longrightarrow> plugin_verdict E st p \<noteq> Panic m"
    and "(''basic_auth'', p) \<in> set ps" and "rp_config p = Some config"
    and "get_auth_config config = Some (user, pass)"
    and "se_header (fst st) ''authorization'' = Some v" and "ho_to_str (pe_hdr E) v = Some h"
    and "validate_auth_header (pe_b64 E) h user pass = Ok b"
    and "\<exists>a. respond_with_authenticate (pe_hdr E) (rx_host (snd st)) = Ok a"
  shows "authorized (pe_b64 E) h user pass"
  by (rule basic_auth_blocks [OF assms])

theorem basic_auth_gate_witness:
  "authorized example_dec (''Basic '' @ example_enc ''u:p'') ''u'' ''p''"
proof -
  let ?h = "''Basic '' @ example_enc ''u:p''"
  let ?st = "(example_session\<lparr>se_header := (\<lambda>_. Some ?h)\<rparr>, example_ctx)"
  have visible: "ho_to_str example_hdr ?h = Some ?h" by (simp add: example_hdr_def example_enc_def)
  have pre: "starts_with ''Basic '' ?h" by simp
  have val: "validate_auth_header example_dec ?h ''u'' ''p'' = Ok True"
    by (simp add: validate_auth_header_True trim_start_matches.simps example_enc_def from_utf8_ascii decodes_to_def)
  have basic: "basic_request_filter example_hdr example_dec example_basic_plugin ?st = (Ok False, ?st)"
    by (simp add: basic_request_filter_def example_basic_plugin_def example_auth_config visible val pre del: append.simps)
  have run: "run_request_plugin example_env (''basic_auth'', example_basic_plugin) ?st = (Ok False, ?st)"
    by (simp add: basic act_is_ok_and_def example_env_def del: append.simps)
  have "authorized (pe_b64 example_env) ?h ''u'' ''p''"
  proof (rule basic_auth_gate [where ps = "[(''basic_auth'', example_basic_plugin)]" and st = ?st
        and p = example_basic_plugin and config = "[(''user'', JString ''u''), (''pass'', JString ''p'')]" and b = True])
    show "fst (execute_request_plugins example_env [(''basic_auth'', example_basic_plugin)] ?st) = Ok False"
      using run by (simp add: act_bind_def del: run_request_plugin.simps append.simps)
    show "plugin_verdict example_env ?st p \<noteq> Panic m" if "p \<in> set [(''basic_auth'', example_basic_plugin)]" for p m
      using that run by (simp add: plugin_verdict_def del: run_request_plugin.simps append.simps)
    show "\<exists>a. respond_with_authenticate (pe_hdr example_env) (rx_host (snd ?st)) = Ok a"
      by (simp only: respond_with_authenticate_def example_env_def plugin_env.select_convs example_insert)
    show "ho_to_str (pe_hdr example_env) ?h = Some ?h" "validate_auth_header (pe_b64 example_env) ?h ''u'' ''p'' = Ok True"
      using visible val by (simp_all only: example_env_def plugin_env.select_convs)
  qed (simp_all add: example_session_def example_basic_plugin_def example_auth_config)
  then show ?thesis by (simp only: example_env_def plugin_env.select_convs)
qed

text \<open>
  C38. A request whose Basic header does not decode is forwarded by the loop although it carries no
  credentials: the plugin's error counts as "not handled".
\<close>

theorem undecodable_credentials_are_forwarded:
  assumes "rp_config p = Some config" and "get_auth_config config = Some (user, pass)"
    and "se_header (fst st) ''authorization'' = Some v" and "ho_to_str (pe_hdr E) v = Some h"
    and "starts_with ''Basic '' h" and "pe_b64 E (trim_start_matches ''Basic '' h) = Err e"
  shows "execute_request_plugins E [(''basic_auth'', p)] st = (Ok False, st) \<and>
    \<not> authorized (pe_b64 E) h user pass"
proof -
  have "validate_auth_header (pe_b64 E) h user pass = Err e"
    using assms(6) by (simp add: validate_auth_header_def)
  then have "run_request_plugin E (''basic_auth'', p) st = (Ok False, st)"
    using assms(1-5) by (simp add: basic_request_filter_def act_is_ok_and_def)
  then show ?thesis
    using assms(6) by (simp add: authorized_def act_bind_def del: run_request_plugin.simps)
qed

theorem undecodable_credentials_are_forwarded_witness:
  "fst (execute_request_plugins example_env
     [(''basic_auth'', example_basic_plugin)]
     (example_session\<lparr>se_header := (\<lambda>_. Some ''Basic %'')\<rparr>, example_ctx)) = Ok False"
proof -
  have visible: "ho_to_str example_hdr ''Basic %'' = Some ''Basic %''" by (simp add: example_hdr_def)
  have odd: "example_dec (trim_start_matches ''Basic '' ''Basic %'') = Err ''truncated''"
    by (simp add: trim_start_matches.simps)
  have pre: "starts_with ''Basic '' ''Basic %''" by simp
  have "execute_request_plugins example_env
     [(''basic_auth'', example_basic_plugin)]
     (example_session\<lparr>se_header := (\<lambda>_. Some ''Basic %'')\<rparr>, example_ctx) =
     (Ok False, (example_session\<lparr>se_header := (\<lambda>_. Some ''Basic %'')\<rparr>, example_ctx)) \<and>
     \<not> authorized (pe_b64 example_env)
         ''Basic %'' ''u'' ''p''"
    by (rule undecodable_credentials_are_forwarded [OF _ example_auth_config,
          where v = "''Basic %''" and h = "''Basic %''"])
      (simp_all add: example_basic_plugin_def example_env_def visible odd pre del: trim_start_matches.simps)
  then show ?thesis by simp
qed

text \<open>
  On a route with the request id plugin, a forwarded request reaches the upstream with exactly
  one \<open>x-request-id\<close> header, the id generated for this request.
\<close>

theorem request_id_reaches_upstream:
  assumes "hdr_laws (pe_hdr E)" and "\<And>h. \<exists>h'. ho_insert (pe_hdr E) h ''x-request-id'' (pe_uuid E) = Ok h'"
    and "execute_request_plugins E ps st = (Ok False, st')" and "''request_id'' \<in> fst ` set ps"
    and "co_plugins (rx_route_container c) = ps" and "rx_extensions c = rx_extensions (snd st')"
  shows "ho_get (pe_hdr E) (execute_upstream_request_plugins (pe_hdr E) c upstream_request) ''x-request-id'' =
    [pe_uuid E]"
proof -
  have "hm_get (rx_extensions c) REQUEST_ID_KEY = Some (pe_uuid E)"
    using execute_request_id [OF assms(3)] assms(4,6) by simp
  moreover have "''request_id'' \<in> set (map fst (co_plugins (rx_route_container c)))"
    using assms(4,5) by simp
  ultimately show ?thesis
    unfolding execute_upstream_request_plugins_def
    by (intro upstream_request_loop_id [OF assms(1) _ assms(2)] disjI1)
qed

theorem request_id_reaches_upstream_witness:
  "ho_get example_hdr (execute_upstream_request_plugins example_hdr
     (example_ctx\<lparr>rx_route_container := (container_new ())\<lparr>co_plugins := [(''request_id'', example_basic_plugin)]\<rparr>,
        rx_extensions := [(REQUEST_ID_KEY, ''id'')]\<rparr>) (0, [])) ''x-request-id'' = [''id'']"
proof -
  let ?E = example_env
  let ?ps = "[(''request_id'', example_basic_plugin)]"
  have run: "execute_request_plugins ?E ?ps (example_session, example_ctx) =
      (Ok False, (example_session, example_ctx\<lparr>rx_extensions := [(REQUEST_ID_KEY, ''id'')]\<rparr>))"
    by (simp add: act_ignore_def act_bind_def request_id_result example_ctx_def new_ctx_def hm_insert_def example_env_def)
  have h: "pe_hdr example_env = example_hdr" "pe_uuid example_env = ''id''" by (simp_all add: example_env_def)
  show ?thesis
    by (rule request_id_reaches_upstream [OF _ _ run, unfolded h, OF example_hdr_laws example_insert]) simp_all
qed

end
