(* ===== verification/Router.thy ===== *)
theory Router
  imports Middleware
begin

text \<open>
  The HTTPS proxy's request life cycle (\<open>proxy_server/https_proxy.rs\<close>, \<open>proxy_server/mod.rs\<close>):
  finding the route, running the plugins, enabling the cache, choosing the upstream and editing the
  headers. The crates are the fields of \<open>router_ext\<close>: the search of a path tree, the round-robin
  selection (the address it returns for this call), name resolution, base64 and freshness.
\<close>

section \<open>Data\<close>

datatype socket_addr = Inet string u16 | UnixAddr string

record ('lb, 'm) router_ext =
  re_path_find :: "path_tree \<Rightarrow> string \<Rightarrow> bool"
  re_select :: "'lb \<Rightarrow> socket_addr option"
  re_resolve :: "string \<Rightarrow> (string \<times> u16) list option"
  re_b64_encode :: "string \<Rightarrow> string"
  re_is_fresh :: "'m \<Rightarrow> nat \<Rightarrow> bool"

record TcpKeepalive =
  tk_count :: nat
  tk_idle :: nat
  tk_interval :: nat
  tk_user_timeout :: nat

datatype ALPN = ALPN_H1 | ALPN_H2 | ALPN_H2H1

text \<open>\<open>PeerOptions\<close>, durations in seconds; options left at pingora's "none" are not repeated.\<close>

record PeerOptions =
  po_tcp_fast_open :: bool
  po_verify_hostname :: bool
  po_read_timeout :: "nat option"
  po_connection_timeout :: "nat option"
  po_tcp_recv_buf :: "nat option"
  po_tcp_keepalive :: "TcpKeepalive option"
  po_total_connection_timeout :: "nat option"
  po_idle_timeout :: "nat option"
  po_write_timeout :: "nat option"
  po_verify_cert :: bool
  po_alpn :: ALPN
  po_h2_ping_interval :: "nat option"
  po_max_h2_streams :: nat
  po_second_keyshare :: bool

definition default_peer_opts :: PeerOptions where
  "default_peer_opts = \<lparr>po_tcp_fast_open = True, po_verify_hostname = True, po_read_timeout = Some 360,
     po_connection_timeout = Some 10, po_tcp_recv_buf = Some (1024 * 8),
     po_tcp_keepalive = Some \<lparr>tk_count = 10, tk_idle = 60, tk_interval = 30, tk_user_timeout = 0\<rparr>,
     po_total_connection_timeout = Some 20, po_idle_timeout = Some 360, po_write_timeout = Some 60,
     po_verify_cert = False, po_alpn = ALPN_H2H1, po_h2_ping_interval = Some 60, po_max_h2_streams = 2,
     po_second_keyshare = True\<rparr>"

record HttpPeer =
  hp_address :: socket_addr
  hp_tls :: bool
  hp_sni :: string
  hp_options :: PeerOptions

record CacheKey =
  ky_namespace :: string
  ky_primary :: string
  ky_user_tag :: string

text \<open>\<open>CacheMeta::new\<close>: fresh until, created (seconds), the two stale periods, the header.\<close>

record 'h CacheMeta =
  cm_fresh_until :: nat
  cm_created :: nat
  cm_stale_while_revalidate :: u32
  cm_stale_if_error :: u32
  cm_header :: 'h

datatype NoCacheReason = NeverEnabled | Custom string

datatype 'h RespCacheable = Cacheable "'h CacheMeta" | Uncacheable NoCacheReason

section \<open>Finding the route\<close>

definition host_without_port :: "'h hdr_ops \<Rightarrow> 'h Session \<Rightarrow> string" where
  "host_without_port H s = hd (split_on (CHR '':'') (get_host H s))"

definition respond_404 :: "(('h, 'lb) rstate, perr, bool) act" where
  "respond_404 st = (case respond_error 404 st of
     (Ok _, st') \<Rightarrow> (Ok True, st')
   | (Err e, st') \<Rightarrow> (Err (PErr e), st')
   | (Panic m, st') \<Rightarrow> (Panic m, st'))"

definition path_rejected :: "('lb, 'm) router_ext \<Rightarrow> 'lb RouteStoreContainer \<Rightarrow> string \<Rightarrow> bool" where
  "path_rejected X rc path =
     (case co_path_matcher rc of Some pattern \<Rightarrow> \<not> re_path_find X pattern path | None \<Rightarrow> False)"

text \<open>What follows the plugins: the cache is enabled and the route is stored in the context.\<close>

definition enable_cache ::
  "'lb RouteStoreContainer \<Rightarrow> ('h, 'lb) rstate \<Rightarrow> cache_routing \<Rightarrow> ('h, 'lb) rstate \<times> cache_routing" where
  "enable_cache rc st crt =
     (case co_cache rc of
        Some cache \<Rightarrow>
          (if unwrap_or False (rc_enabled cache)
           then (((fst st)\<lparr>se_cache := Some (rc_cache_type cache)\<rparr>, snd st),
                 insert_cache_routing (rx_host (snd st)) (rc_path cache) False crt)
           else (st, crt))
      | None \<Rightarrow> (st, crt))"

definition router_request_filter ::
  "'h plugin_env \<Rightarrow> ('lb, 'm) router_ext \<Rightarrow> 'lb RouteStore \<Rightarrow>
   ('h, 'lb) rstate \<Rightarrow> cache_routing \<Rightarrow> (perr, bool) res \<times> ('h, 'lb) rstate \<times> cache_routing" where
  "router_request_filter E X routes st crt =
     (let host = host_without_port (pe_hdr E) (fst st);
          st = (fst st, (snd st)\<lparr>rx_host := host\<rparr>)
      in case get_route_by_key routes host of
           None \<Rightarrow> (case respond_404 st of (r, st') \<Rightarrow> (r, st', crt))
         | Some route_container \<Rightarrow>
           if path_rejected X route_container (se_uri_path (fst st))
           then (case respond_404 st of (r, st') \<Rightarrow> (r, st', crt))
           else (case execute_request_plugins E (co_plugins route_container) st of
                   (Panic m, st') \<Rightarrow> (Panic m, st', crt)
                 | (Err e, st') \<Rightarrow>
                     (case enable_cache route_container st' crt of ((s, c), crt') \<Rightarrow>
                        (Ok False, (s, c\<lparr>rx_route_container := route_container\<rparr>), crt'))
                 | (Ok handled, st') \<Rightarrow>
                     if handled then (Ok True, st', crt)
                     else (case enable_cache route_container st' crt of ((s, c), crt') \<Rightarrow>
                        (Ok False, (s, c\<lparr>rx_route_container := route_container\<rparr>), crt'))))"

section \<open>Choosing the upstream\<close>

definition upstream_resolves ::
  "('lb, 'm) router_ext \<Rightarrow> string \<Rightarrow> u16 \<Rightarrow> RouteUpstream \<Rightarrow> (perr, bool) res" where
  "upstream_resolves X ip port u =
     (case re_resolve X (ru_ip u @ '':'' @ show_u16 (ru_port u)) of
        None \<Rightarrow> Panic ''called `Result::unwrap()` on an `Err` value''
      | Some addrs \<Rightarrow> Ok ((ip, port) \<in> set addrs))"

fun find_upstream ::
  "('lb, 'm) router_ext \<Rightarrow> string \<Rightarrow> u16 \<Rightarrow> RouteUpstream list \<Rightarrow> (perr, RouteUpstream option) res" where
  "find_upstream X ip port [] = Ok None"
| "find_upstream X ip port (u # us) =
     res_bind (upstream_resolves X ip port u) (\<lambda>b.
     if b then Ok (Some u) else find_upstream X ip port us)"

definition limit_cache :: "'h Session \<Rightarrow> 'h Session" where
  "limit_cache s = (if se_cache s \<noteq> None then s\<lparr>se_cache_max := Some (100 * 1024 * 1024)\<rparr> else s)"

definition upstream_peer ::
  "('lb, 'm) router_ext \<Rightarrow> (('h, 'lb) rstate, perr, HttpPeer) act" where
  "upstream_peer X st =
     (let s = limit_cache (fst st); c = snd st; rc = rx_route_container c in
      case re_select X (co_load_balancer rc) of
        None \<Rightarrow> (Err (HTTPStatus 503), (s, c))
      | Some (UnixAddr p) \<Rightarrow> (Err (HTTPStatus 503), (s, c))
      | Some (Inet ip port) \<Rightarrow>
        (case find_upstream X ip port (co_upstreams rc) of
           Panic m \<Rightarrow> (Panic m, (s, c))
         | Err e \<Rightarrow> (Err e, (s, c))
         | Ok None \<Rightarrow> (Err (HTTPStatus 503), (s, c))
         | Ok (Some upstream) \<Rightarrow>
             (Ok \<lparr>hp_address = Inet ip port, hp_tls = (port = 443),
                 hp_sni = unwrap_or [] (ru_sni upstream), hp_options = default_peer_opts\<rparr>,
              (s, c\<lparr>rx_upstream := upstream\<rparr>))))"

section \<open>Editing headers\<close>

fun insert_headers :: "'h hdr_ops \<Rightarrow> (string \<times> string) list \<Rightarrow> ('h, perr, unit) act" where
  "insert_headers H [] = act_res (Ok ())"
| "insert_headers H ((name, value) # rest) = (\<lambda>h.
     (case ho_insert H h name value of
        Ok h' \<Rightarrow> insert_headers H rest h'
      | Err e \<Rightarrow> (Err (PErr e), h)
      | Panic m \<Rightarrow> (Panic m, h)))"

definition remove_headers :: "'h hdr_ops \<Rightarrow> string list \<Rightarrow> 'h \<Rightarrow> 'h" where
  "remove_headers H names h = fold (\<lambda>name h. ho_remove H h name) names h"

definition cache_headers ::
  "'h hdr_ops \<Rightarrow> 'h Session \<Rightarrow> 'lb RouterContext \<Rightarrow> nat \<Rightarrow> ('h, perr, unit) act" where
  "cache_headers H s c elapsed =
     (case hm_get (rx_extensions c) ''cache_state'' of
        Some cache_state \<Rightarrow>
          (if se_cache s \<noteq> None
           then insert_headers H [(''cache-status'', cache_state), (''cache-duration'', show_nat elapsed)]
           else act_res (Ok ()))
      | None \<Rightarrow> act_res (Ok ()))"

text \<open>\<open>elapsed\<close> is the time since the context was made, in milliseconds.\<close>

definition router_response_filter ::
  "'h hdr_ops \<Rightarrow> 'h Session \<Rightarrow> 'lb RouterContext \<Rightarrow> nat \<Rightarrow> ('h, perr, unit) act" where
  "router_response_filter H s c elapsed =
     (let rc = rx_route_container c in
      act_then (insert_headers H (co_host_header_add rc))
      (act_then (act_modify (remove_headers H (co_host_header_remove rc)))
      (act_then (cache_headers H s c elapsed)
      (act_res (map_err PErr (fst (execute_response_plugins (s, c))))))))"

fun add_upstream_headers :: "'h hdr_ops \<Rightarrow> RouteHeaderAdd list \<Rightarrow> 'h \<Rightarrow> 'h" where
  "add_upstream_headers H [] h = h"
| "add_upstream_headers H (a # rest) h =
     add_upstream_headers H rest (unwrap_or h (res_ok (ho_insert H h (rha_name a) (rha_value a))))"

definition router_upstream_request_filter :: "'h hdr_ops \<Rightarrow> 'lb RouterContext \<Rightarrow> 'h \<Rightarrow> 'h" where
  "router_upstream_request_filter H c upstream_request =
     execute_upstream_request_plugins H c
       (case Option.bind (ru_headers (rx_upstream c)) rh_add of
          Some add \<Rightarrow> add_upstream_headers H add upstream_request
        | None \<Rightarrow> upstream_request)"

definition router_upstream_response_filter :: "'h hdr_ops \<Rightarrow> 'lb RouterContext \<Rightarrow> 'h \<Rightarrow> 'h" where
  "router_upstream_response_filter H c upstream_response =
     execute_upstream_response_plugins H c upstream_response"

section \<open>Caching\<close>

definition cache_key_callback ::
  "('lb, 'm) router_ext \<Rightarrow> 'h Session \<Rightarrow> 'lb RouterContext \<Rightarrow> CacheKey" where
  "cache_key_callback X s c =
     \<lparr>ky_namespace = rx_host c, ky_primary = re_b64_encode X (unwrap_or ''/'' (se_path_and_query s)),
      ky_user_tag = []\<rparr>"

definition set_extension :: "string \<Rightarrow> string \<Rightarrow> 'lb RouterContext \<Rightarrow> 'lb RouterContext" where
  "set_extension k v c = c\<lparr>rx_extensions := hm_insert k v (rx_extensions c)\<rparr>"

definition router_cache_miss :: "'lb RouterContext \<Rightarrow> 'lb RouterContext" where
  "router_cache_miss c = set_extension ''cache_state'' ''fwd=miss'' c"

datatype ForcedInvalidationKind = ForceExpired

definition cache_hit_filter ::
  "('lb, 'm) router_ext \<Rightarrow> nat \<Rightarrow> 'm \<Rightarrow> 'lb RouterContext \<Rightarrow> ForcedInvalidationKind option \<times> 'lb RouterContext" where
  "cache_hit_filter X now meta c =
     (if \<not> re_is_fresh X meta now
      then (Some ForceExpired, set_extension ''cache_state'' ''expired'' c)
      else (None, set_extension ''cache_state'' ''hit'' c))"

definition CACHEABLE_METHODS :: "string list" where
  "CACHEABLE_METHODS = [''GET'', ''HEAD'']"

text \<open>A \<open>SystemTime\<close> holds its seconds in an \<open>i64\<close>; \<open>now\<close> is read twice.\<close>

definition response_cache_filter ::
  "'h Session \<Rightarrow> 'h \<Rightarrow> 'lb RouterContext \<Rightarrow> nat \<Rightarrow> nat \<Rightarrow> (perr, 'h RespCacheable) res" where
  "response_cache_filter s resp c now1 now2 =
     (case co_cache (rx_route_container c) of
        None \<Rightarrow> Ok (Uncacheable NeverEnabled)
      | Some cache \<Rightarrow>
        if se_method s \<notin> set CACHEABLE_METHODS
        then Ok (Uncacheable (Custom ''method or status not cacheable''))
        else if now1 + unat (rc_expires_in_secs cache) < 2 ^ 63
        then Ok (Cacheable \<lparr>cm_fresh_until = now1 + unat (rc_expires_in_secs cache), cm_created = now2,
               cm_stale_while_revalidate = rc_stale_while_revalidate_secs cache,
               cm_stale_if_error = rc_stale_if_error_secs cache, cm_header = resp\<rparr>)
        else Panic ''called `Option::unwrap()` on a `None` value'')"

definition connected_to_upstream :: "bool \<Rightarrow> string \<Rightarrow> 'lb RouterContext \<Rightarrow> 'lb RouterContext" where
  "connected_to_upstream reused peer_address c =
     set_extension ''peer'' peer_address
       (set_extension ''reused'' (if reused then ''true'' else ''false'') c)"

section \<open>Lemmas\<close>

lemma execute_no_err: "fst (execute_request_plugins E ps st) \<noteq> Err e"
proof (induction ps arbitrary: st)
  case (Cons p ps)
  show ?case
    using step_no_err [of E p st e] Cons.IH
    by (auto simp: act_bind_def split: prod.splits res.splits)
qed simp

lemma respond_404_fine:
  "se_io (fst st) (length (se_sent (fst st))) = None \<Longrightarrow>
   respond_404 st = (Ok True, ((fst st)\<lparr>se_sent := se_sent (fst st) @ [SentError 404]\<rparr>, snd st))"
  by (cases st) (simp add: respond_404_def session_writes send_down_def)

lemma respond_404_handled: "fst (respond_404 st) \<noteq> Ok False"
  by (simp add: respond_404_def split: prod.splits res.splits)

lemma enable_cache_keeps:
  "enable_cache rc st crt = (st', crt') \<Longrightarrow> snd st' = snd st \<and> se_sent (fst st') = se_sent (fst st)"
  by (auto simp: enable_cache_def split: option.splits if_splits)

text \<open>What becomes of the cache paths: a path that is there stays, the route's is entered otherwise.\<close>

definition registered :: "string \<Rightarrow> RouteCache option \<Rightarrow> cache_routing \<Rightarrow> string \<Rightarrow> string option" where
  "registered host cache crt h =
     (case cache of
        Some rc \<Rightarrow>
          (if h = host \<and> rc_enabled rc = Some True \<and> get_cache_routing_by_key crt host = None
           then Some (rc_path rc) else get_cache_routing_by_key crt h)
      | None \<Rightarrow> get_cache_routing_by_key crt h)"

lemma enable_cache_registers:
  assumes "enable_cache rc st crt = ((s, c), crt')"
  shows "get_cache_routing_by_key crt' h = registered (rx_host (snd st)) (co_cache rc) crt h"
    and "se_cache s = (case co_cache rc of
       Some cache \<Rightarrow> if rc_enabled cache = Some True then Some (rc_cache_type cache) else se_cache (fst st)
     | None \<Rightarrow> se_cache (fst st))"
  using assms
  by (auto simp: enable_cache_def registered_def insert_cache_routing_def get_cache_routing_by_key_def
      unwrap_or_def split: option.splits if_splits)

lemma find_upstream_Some:
  "find_upstream X ip port us = Ok (Some u) \<Longrightarrow>
   u \<in> set us \<and> (\<exists>addrs. re_resolve X (ru_ip u @ '':'' @ show_u16 (ru_port u)) = Some addrs \<and> (ip, port) \<in> set addrs)"
  by (induction us) (auto simp: res_bind_Ok_iff upstream_resolves_def split: if_splits option.splits)

lemma find_upstream_total:
  "(\<And>u. u \<in> set us \<Longrightarrow> re_resolve X (ru_ip u @ '':'' @ show_u16 (ru_port u)) \<noteq> None) \<Longrightarrow>
   \<exists>r. find_upstream X ip port us = Ok r"
  by (induction us) (auto simp: upstream_resolves_def split: option.splits)

lemma insert_headers_get:
  assumes "hdr_laws H" and "insert_headers H kvs h = (Ok (), h')"
  shows "ho_get H h' k =
    (case map_of (rev (map (\<lambda>(n, v). (to_lowercase n, v)) kvs)) (to_lowercase k) of
       Some v \<Rightarrow> [v] | None \<Rightarrow> ho_get H h k)"
  using assms(2)
proof (induction kvs arbitrary: h)
  case (Cons kv kvs)
  obtain n v where kv: "kv = (n, v)" by fastforce
  with Cons.prems obtain h1 where h1: "ho_insert H h n v = Ok h1" and r: "insert_headers H kvs h1 = (Ok (), h')"
    by (auto split: res.splits)
  from Cons.IH [OF r] show ?case
    unfolding kv by (simp add: hdr_insert [OF assms(1) h1] map_add_def split: option.splits)
qed simp

lemma insert_headers_status:
  assumes "hdr_laws H" and "insert_headers H kvs h = (Ok (), h')"
  shows "ho_status H h' = ho_status H h"
  using assms(2)
proof (induction kvs arbitrary: h)
  case (Cons kv kvs)
  obtain n v where kv: "kv = (n, v)" by fastforce
  with Cons.prems obtain h1 where h1: "ho_insert H h n v = Ok h1" and r: "insert_headers H kvs h1 = (Ok (), h')"
    by (auto split: res.splits)
  from Cons.IH [OF r] hdr_insert(1) [OF assms(1) h1] show ?case by simp
qed simp

lemma remove_headers_get:
  assumes "hdr_laws H"
  shows "ho_get H (remove_headers H names h) k =
    (if to_lowercase k \<in> to_lowercase ` set names then [] else ho_get H h k)"
  unfolding remove_headers_def
  by (induction names arbitrary: h) (auto simp: hdr_remove [OF assms])

lemma cache_headers_get:
  assumes "hdr_laws H" and "cache_headers H s c elapsed h = (Ok (), h')"
  shows "ho_get H h' k =
    (case hm_get (rx_extensions c) ''cache_state'' of
       None \<Rightarrow> ho_get H h k
     | Some cache_state \<Rightarrow>
         if se_cache s = None then ho_get H h k
         else if to_lowercase k = ''cache-status'' then [cache_state]
         else if to_lowercase k = ''cache-duration'' then [show_nat elapsed]
         else ho_get H h k)"
proof -
  have low: "to_lowercase ''cache-status'' = ''cache-status''" "to_lowercase ''cache-duration'' = ''cache-duration''"
    by (simp_all add: literal_simps)
  show ?thesis
  proof (cases "hm_get (rx_extensions c) ''cache_state'' = None \<or> se_cache s = None")
    case True
    with assms(2) show ?thesis by (auto simp: cache_headers_def split: option.splits)
  next
    case False
    then obtain cs where cs: "hm_get (rx_extensions c) ''cache_state'' = Some cs" "se_cache s \<noteq> None" by auto
    with assms(2) have "insert_headers H [(''cache-status'', cs), (''cache-duration'', show_nat elapsed)] h = (Ok (), h')"
      by (simp add: cache_headers_def del: insert_headers.simps)
    from insert_headers_get [OF assms(1) this, of k] cs show ?thesis
      by (auto simp: low)
  qed
qed

text \<open>The state the plugins see, and the filter on each branch.\<close>

definition with_host :: "'h hdr_ops \<Rightarrow> ('h, 'lb) rstate \<Rightarrow> ('h, 'lb) rstate" where
  "with_host H st = (fst st, (snd st)\<lparr>rx_host := host_without_port H (fst st)\<rparr>)"

lemma with_host_simps [simp]:
  "fst (with_host H st) = fst st"
  "rx_host (snd (with_host H st)) = host_without_port H (fst st)"
  by (simp_all add: with_host_def)

lemma router_not_found:
  assumes "case get_route_by_key routes (host_without_port (pe_hdr E) (fst st)) of
      None \<Rightarrow> True | Some rc \<Rightarrow> path_rejected X rc (se_uri_path (fst st))"
  shows "router_request_filter E X routes st crt =
    (case respond_404 (with_host (pe_hdr E) st) of (r, st') \<Rightarrow> (r, st', crt))"
  using assms by (auto simp: router_request_filter_def Let_def with_host_def split: option.splits)

lemma router_found:
  assumes "get_route_by_key routes (host_without_port (pe_hdr E) (fst st)) = Some rc"
    and "\<not> path_rejected X rc (se_uri_path (fst st))"
    and "execute_request_plugins E (co_plugins rc) (with_host (pe_hdr E) st) = (r, st1)"
  shows "router_request_filter E X routes st crt = (case r of
     Panic m \<Rightarrow> (Panic m, st1, crt)
   | Err e \<Rightarrow> (case enable_cache rc st1 crt of ((s, c), crt') \<Rightarrow>
        (Ok False, (s, c\<lparr>rx_route_container := rc\<rparr>), crt'))
   | Ok handled \<Rightarrow> if handled then (Ok True, st1, crt)
       else (case enable_cache rc st1 crt of ((s, c), crt') \<Rightarrow>
        (Ok False, (s, c\<lparr>rx_route_container := rc\<rparr>), crt')))"
  using assms by (simp add: router_request_filter_def Let_def with_host_def)

lemma router_pass:
  assumes "get_route_by_key routes (host_without_port (pe_hdr E) (fst st)) = Some rc"
    and "\<not> path_rejected X rc (se_uri_path (fst st))"
    and "execute_request_plugins E (co_plugins rc) (with_host (pe_hdr E) st) = (Ok False, st1)"
  shows "\<exists>s crt'. enable_cache rc st1 crt = ((s, snd st1), crt') \<and>
    router_request_filter E X routes st crt = (Ok False, (s, (snd st1)\<lparr>rx_route_container := rc\<rparr>), crt')"
proof -
  obtain s c crt' where e: "enable_cache rc st1 crt = ((s, c), crt')"
    by (metis prod.exhaust)
  with enable_cache_keeps have "c = snd st1" by fastforce
  with e router_found [OF assms] show ?thesis by simp
qed

lemma router_forward_cases:
  assumes "router_request_filter E X routes st crt = (Ok False, st', crt')"
  obtains rc st1 where "get_route_by_key routes (host_without_port (pe_hdr E) (fst st)) = Some rc"
    "\<not> path_rejected X rc (se_uri_path (fst st))"
    "execute_request_plugins E (co_plugins rc) (with_host (pe_hdr E) st) = (Ok False, st1)"
    "snd st' = (snd st1)\<lparr>rx_route_container := rc\<rparr>" "se_sent (fst st') = se_sent (fst st1)"
proof -
  have n: "\<not> (case get_route_by_key routes (host_without_port (pe_hdr E) (fst st)) of
      None \<Rightarrow> True | Some rc \<Rightarrow> path_rejected X rc (se_uri_path (fst st)))"
  proof
    assume "case get_route_by_key routes (host_without_port (pe_hdr E) (fst st)) of
      None \<Rightarrow> True | Some rc \<Rightarrow> path_rejected X rc (se_uri_path (fst st))"
    from router_not_found [OF this, of crt] assms respond_404_handled [of "with_host (pe_hdr E) st"]
    show False by (auto split: prod.splits)
  qed
  then obtain rc where rc: "get_route_by_key routes (host_without_port (pe_hdr E) (fst st)) = Some rc"
    "\<not> path_rejected X rc (se_uri_path (fst st))"
    by (auto split: option.splits)
  obtain r st1 where x: "execute_request_plugins E (co_plugins rc) (with_host (pe_hdr E) st) = (r, st1)"
    by (rule prod.exhaust)
  have "r = Ok False"
    using router_found [OF rc x, of crt] assms execute_no_err [of E "co_plugins rc" "with_host (pe_hdr E) st"] x
    by (cases r) (auto split: if_splits)
  with x have x: "execute_request_plugins E (co_plugins rc) (with_host (pe_hdr E) st) = (Ok False, st1)"
    by simp
  from router_pass [OF rc x, of crt] assms enable_cache_keeps show thesis
    by (intro that [OF rc x]) fastforce+
qed

section \<open>A concrete router\<close>

definition example_router :: "(unit, unit) router_ext" where
  "example_router = \<lparr>re_path_find = (\<lambda>_ _. True), re_select = (\<lambda>_. Some (Inet ''10.0.0.1'' 80)),
     re_resolve = (\<lambda>_. Some [(''10.0.0.1'', 80)]), re_b64_encode = example_enc, re_is_fresh = (\<lambda>_ _. True)\<rparr>"

definition example_cache :: RouteCache where
  "example_cache = \<lparr>rc_enabled = Some True, rc_cache_type = Disk, rc_expires_in_secs = 3600,
     rc_stale_if_error_secs = 60, rc_stale_while_revalidate_secs = 60, rc_path = ''/tmp/c''\<rparr>"

definition example_container :: "unit RouteStoreContainer" where
  "example_container = (container_new ())\<lparr>co_upstreams := [default_RouteUpstream\<lparr>ru_ip := ''10.0.0.1'', ru_port := 80\<rparr>],
     co_host_header_add := [(''x-a'', ''1'')], co_host_header_remove := [''server''], co_cache := Some example_cache\<rparr>"

definition example_state_for :: "string \<Rightarrow> (nat \<times> (string \<times> string) list, unit) rstate" where
  "example_state_for host = (example_session\<lparr>se_header := (\<lambda>_. Some host)\<rparr>, example_ctx\<lparr>rx_route_container := example_container\<rparr>)"

lemma example_host: "host_without_port (pe_hdr example_env) (fst (example_state_for ''a.io:443'')) = ''a.io''"
  by (simp add: host_without_port_def get_host_def example_state_for_def example_env_def example_hdr_def)

lemma example_enc_inj: "inj example_enc"
  by (rule injI) (metis example_codec res.inject(1))

section \<open>Properties\<close>

text \<open>
  C3. The router forwards a request exactly when its host (without the port) has a route, the
  route's patterns admit the path and no plugin handled it; the context then holds that route and host.
\<close>

theorem router_forwards_iff:
  "fst (router_request_filter E X routes st crt) = Ok False \<longleftrightarrow>
   (\<exists>rc. get_route_by_key routes (host_without_port (pe_hdr E) (fst st)) = Some rc \<and>
      \<not> path_rejected X rc (se_uri_path (fst st)) \<and>
      fst (execute_request_plugins E (co_plugins rc) (with_host (pe_hdr E) st)) = Ok False)" (is "?L \<longleftrightarrow> ?R")
proof
  assume ?L
  then obtain st' crt' where "router_request_filter E X routes st crt = (Ok False, st', crt')"
    by (metis prod.collapse)
  then show ?R by (rule router_forward_cases) auto
next
  assume ?R
  then obtain rc st1 where "get_route_by_key routes (host_without_port (pe_hdr E) (fst st)) = Some rc"
    "\<not> path_rejected X rc (se_uri_path (fst st))"
    "execute_request_plugins E (co_plugins rc) (with_host (pe_hdr E) st) = (Ok False, st1)"
    by (metis prod.collapse)
  from router_pass [OF this] show ?L by (metis fst_conv)
qed

text \<open>
  A request for a host without a route, or for a path its route's patterns do not admit, is
  answered with a 404 and nothing else happens.
\<close>

theorem router_answers_404:
  assumes "case get_route_by_key routes (host_without_port (pe_hdr E) (fst st)) of
      None \<Rightarrow> True | Some rc \<Rightarrow> path_rejected X rc (se_uri_path (fst st))"
    and "se_io (fst st) (length (se_sent (fst st))) = None"
  shows "router_request_filter E X routes st crt =
    (Ok True, ((fst st)\<lparr>se_sent := se_sent (fst st) @ [SentError 404]\<rparr>,
       (snd st)\<lparr>rx_host := host_without_port (pe_hdr E) (fst st)\<rparr>), crt)"
  using router_not_found [OF assms(1), of crt] respond_404_fine [of "with_host (pe_hdr E) st"] assms(2)
  by (simp add: with_host_def)

theorem router_answers_404_witness:
  "router_request_filter example_env example_router [] (example_state_for ''a.io:443'') [] =
   (Ok True, ((fst (example_state_for ''a.io:443''))\<lparr>se_sent := [SentError 404]\<rparr>,
      (snd (example_state_for ''a.io:443''))\<lparr>rx_host := ''a.io''\<rparr>), [])"
proof -
  have none: "case get_route_by_key ([] :: unit RouteStore) h of None \<Rightarrow> True
      | Some rc \<Rightarrow> path_rejected example_router rc p" for h p
    by (simp add: get_route_by_key_def)
  have io: "se_io (fst (example_state_for h)) n = None" "se_sent (fst (example_state_for h)) = []" for h n
    by (simp_all add: example_state_for_def example_session_def)
  show ?thesis
    using router_answers_404 [where routes = "[]" and E = example_env and X = example_router
        and st = "example_state_for ''a.io:443''" and crt = "[]", OF none]
    by (simp add: io example_host)
qed

text \<open>
  C29. A forwarded request carries its route and its host in the context. When the route has its
  cache enabled, the session's cache is of the route's type, and the host's cache path is from then
  on the one that was registered before, if one was, and the route's own otherwise: an earlier
  path is kept even when the route has another one by now. No other host's path changes.
\<close>

theorem forwarded_request_has_route:
  assumes "router_request_filter E X routes st crt = (Ok False, st', crt')"
  shows "\<exists>rc. get_route_by_key routes (host_without_port (pe_hdr E) (fst st)) = Some rc \<and>
    rx_host (snd st') = host_without_port (pe_hdr E) (fst st) \<and> rx_route_container (snd st') = rc \<and>
    (case co_cache rc of
       None \<Rightarrow> crt' = crt
     | Some cache \<Rightarrow>
         if rc_enabled cache = Some True
         then se_cache (fst st') = Some (rc_cache_type cache) \<and>
           get_cache_routing_by_key crt' (rx_host (snd st')) =
             Some (case get_cache_routing_by_key crt (rx_host (snd st')) of Some old \<Rightarrow> old | None \<Rightarrow> rc_path cache) \<and>
           (\<forall>h. h \<noteq> rx_host (snd st') \<longrightarrow> get_cache_routing_by_key crt' h = get_cache_routing_by_key crt h)
         else crt' = crt)"
proof -
  obtain rc st1 where rc: "get_route_by_key routes (host_without_port (pe_hdr E) (fst st)) = Some rc"
    "\<not> path_rejected X rc (se_uri_path (fst st))"
    and x: "execute_request_plugins E (co_plugins rc) (with_host (pe_hdr E) st) = (Ok False, st1)"
    and st': "snd st' = (snd st1)\<lparr>rx_route_container := rc\<rparr>"
    using assms by (rule router_forward_cases)
  have host: "rx_host (snd st1) = host_without_port (pe_hdr E) (fst st)"
    using act_keepsD [OF execute_keeps x] by (simp add: plugin_frame_def)
  obtain s crt1 where "enable_cache rc st1 crt = ((s, snd st1), crt1)"
    "router_request_filter E X routes st crt = (Ok False, (s, (snd st1)\<lparr>rx_route_container := rc\<rparr>), crt1)"
    using router_pass [OF rc x] by blast
  with assms have e: "enable_cache rc st1 crt = ((fst st', snd st1), crt')" by auto
  have off: "crt' = crt" if "case co_cache rc of None \<Rightarrow> True | Some cache \<Rightarrow> rc_enabled cache \<noteq> Some True"
    using e that by (auto simp: enable_cache_def unwrap_or_def split: option.splits if_splits)
  show ?thesis
    using rc(1) st' host off enable_cache_registers [OF e]
    by (auto simp: registered_def split: option.splits)
qed

theorem forwarded_request_has_route_witness:
  "\<exists>st' crt'. router_request_filter example_env example_router [(''a.io'', example_container)]
      (example_state_for ''a.io:443'') [] = (Ok False, st', crt') \<and>
    rx_host (snd st') = ''a.io'' \<and> get_cache_routing_by_key crt' ''a.io'' = Some (rc_path example_cache)"
proof -
  have "fst (router_request_filter example_env example_router [(''a.io'', example_container)]
      (example_state_for ''a.io:443'') []) = Ok False"
    by (simp add: router_request_filter_def Let_def example_host get_route_by_key_def hm_get_def
        path_rejected_def example_container_def container_new_def enable_cache_def example_cache_def)
  then obtain st' crt' where r: "router_request_filter example_env example_router [(''a.io'', example_container)]
      (example_state_for ''a.io:443'') [] = (Ok False, st', crt')"
    by (metis prod.collapse)
  have c: "co_cache example_container = Some example_cache" "rc_enabled example_cache = Some True"
    by (simp_all add: example_container_def example_cache_def)
  have "get_cache_routing_by_key [] ''a.io'' = None" by (simp add: get_cache_routing_by_key_def hm_get_def)
  with forwarded_request_has_route [OF r] r c show ?thesis
    by (auto simp: example_host get_route_by_key_def hm_get_def)
qed

text \<open>
  C4. A peer is only ever one of the route's upstreams: the address the balancer selected resolves
  from an upstream of the route, TLS is used exactly for port 443, with the upstream's SNI, and that
  upstream's headers are the ones added to the request.
\<close>

theorem peer_is_an_upstream_of_the_route:
  assumes "upstream_peer X st = (Ok peer, st')"
  shows "\<exists>ip port u addrs. re_select X (co_load_balancer (rx_route_container (snd st))) = Some (Inet ip port) \<and>
    u \<in> set (co_upstreams (rx_route_container (snd st))) \<and>
    re_resolve X (ru_ip u @ '':'' @ show_u16 (ru_port u)) = Some addrs \<and> (ip, port) \<in> set addrs \<and>
    hp_address peer = Inet ip port \<and> (hp_tls peer \<longleftrightarrow> port = 443) \<and> hp_sni peer = unwrap_or [] (ru_sni u) \<and>
    snd st' = (snd st)\<lparr>rx_upstream := u\<rparr>"
  using assms
  by (auto simp: upstream_peer_def Let_def split: option.splits socket_addr.splits res.splits
      dest!: find_upstream_Some)

theorem peer_is_an_upstream_of_the_route_witness:
  "\<exists>peer st'. upstream_peer example_router (example_state_for ''a.io'') = (Ok peer, st') \<and>
     hp_address peer = Inet ''10.0.0.1'' 80"
proof -
  obtain peer st' where p: "upstream_peer example_router (example_state_for ''a.io'') = (Ok peer, st')"
    by (simp add: upstream_peer_def Let_def example_router_def example_state_for_def example_container_def
        upstream_resolves_def)
  from peer_is_an_upstream_of_the_route [OF this] p show ?thesis by (auto simp: example_router_def)
qed

text \<open>
  With every upstream's name resolvable, choosing a peer never panics, and the only error is a
  503: no healthy backend, or one that is not an address of the route's upstreams.
\<close>

theorem peer_error_is_503:
  assumes "\<And>u. u \<in> set (co_upstreams (rx_route_container (snd st))) \<Longrightarrow>
      re_resolve X (ru_ip u @ '':'' @ show_u16 (ru_port u)) \<noteq> None"
  shows "is_ok (fst (upstream_peer X st)) \<or> fst (upstream_peer X st) = Err (HTTPStatus 503)"
proof -
  have "\<exists>r. find_upstream X ip port (co_upstreams (rx_route_container (snd st))) = Ok r" for ip port
    using assms by (rule find_upstream_total)
  then show ?thesis
    by (auto simp: upstream_peer_def Let_def split: option.splits socket_addr.splits res.splits)
      (metis res.distinct)+
qed

theorem peer_error_is_503_witness:
  "is_ok (fst (upstream_peer example_router (example_state_for ''a.io''))) \<or>
   fst (upstream_peer example_router (example_state_for ''a.io'')) = Err (HTTPStatus 503)"
  by (rule peer_error_is_503) (simp add: example_router_def)

text \<open>
  C30. The response filter, on the header it is given: what the upstream sent after the upstream
  response plugins ran on it, or what the cache returned. A header the route removes is gone, an
  added one that is not removed has exactly the last value the route gives it, and every other header
  is as it was given. Over all of that, on a response with a cache state and the cache enabled, the
  two headers \<open>cache-status\<close> and \<open>cache-duration\<close> are the cache state and the milliseconds spent,
  even when the route adds or removes headers of these names.
\<close>

theorem response_headers_edited:
  assumes "hdr_laws H" and "router_response_filter H s c elapsed h = (Ok (), h')"
  shows "ho_get H h' k =
    (let edited =
       (if to_lowercase k \<in> to_lowercase ` set (co_host_header_remove (rx_route_container c)) then []
        else case map_of (rev (map (\<lambda>(n, v). (to_lowercase n, v)) (co_host_header_add (rx_route_container c))))
               (to_lowercase k) of Some v \<Rightarrow> [v] | None \<Rightarrow> ho_get H h k)
     in case hm_get (rx_extensions c) ''cache_state'' of
          None \<Rightarrow> edited
        | Some cache_state \<Rightarrow>
            if se_cache s = None then edited
            else if to_lowercase k = ''cache-status'' then [cache_state]
            else if to_lowercase k = ''cache-duration'' then [show_nat elapsed]
            else edited)"
proof -
  let ?rc = "rx_route_container c"
  obtain h1 where h1: "insert_headers H (co_host_header_add ?rc) h = (Ok (), h1)"
    and h2: "cache_headers H s c elapsed (remove_headers H (co_host_header_remove ?rc) h1) = (Ok (), h')"
    using assms(2) unfolding router_response_filter_def Let_def by (auto simp: act_bind_Ok_iff)
  show ?thesis
    unfolding cache_headers_get [OF assms(1) h2] Let_def remove_headers_get [OF assms(1)]
      insert_headers_get [OF assms(1) h1] by (rule refl)
qed

theorem response_headers_edited_witness:
  "\<exists>h'. router_response_filter example_hdr example_session (snd (example_state_for ''a.io'')) 5
      (200, [(''server'', ''s''), (''date'', ''d'')]) = (Ok (), h') \<and>
    ho_get example_hdr h' ''Server'' = []"
proof -
  obtain h' where r: "router_response_filter example_hdr example_session (snd (example_state_for ''a.io'')) 5
      (200, [(''server'', ''s''), (''date'', ''d'')]) = (Ok (), h')"
    by (simp add: router_response_filter_def Let_def act_bind_def example_state_for_def example_container_def
        container_new_def cache_headers_def example_ctx_def new_ctx_def execute_response_plugins_def example_hdr_def)
  have low: "to_lowercase ''Server'' = ''server''" "to_lowercase ''server'' = ''server''" by (simp_all add: literal_simps)
  have "ho_get example_hdr h' ''Server'' = []"
    using response_headers_edited [OF example_hdr_laws r, of "''Server''"]
    by (simp add: low example_state_for_def example_container_def example_ctx_def new_ctx_def hm_get_def)
  with r show ?thesis by blast
qed

text \<open>
  Only GET and HEAD responses of a route with a cache section are admitted to the cache, with
  the configured periods; nothing looks at the response's status.
\<close>

theorem cacheable_iff_method_and_route:
  assumes "now1 < 2 ^ 62"
    and "\<And>cache. co_cache (rx_route_container c) = Some cache \<Longrightarrow> unat (rc_expires_in_secs cache) < 2 ^ 62"
  shows "(\<exists>meta. response_cache_filter s resp c now1 now2 = Ok (Cacheable meta)) \<longleftrightarrow>
    co_cache (rx_route_container c) \<noteq> None \<and> (se_method s = ''GET'' \<or> se_method s = ''HEAD'')"
proof (cases "co_cache (rx_route_container c)")
  case (Some cache)
  with assms have "now1 + unat (rc_expires_in_secs cache) < 2 ^ 62 + 2 ^ 62" by (intro add_strict_mono) auto
  with Some show ?thesis by (simp add: response_cache_filter_def CACHEABLE_METHODS_def)
qed (simp add: response_cache_filter_def)

theorem cacheable_iff_method_and_route_witness:
  "\<exists>meta. response_cache_filter example_session (500, []) (snd (example_state_for ''a.io'')) 1000 1000 =
     Ok (Cacheable (meta :: (nat \<times> (string \<times> string) list) CacheMeta))"
proof -
  have c: "co_cache (rx_route_container (snd (example_state_for ''a.io''))) = Some example_cache"
    by (simp add: example_state_for_def example_container_def)
  show ?thesis
    by (subst cacheable_iff_method_and_route) (simp_all add: c example_cache_def example_session_def)
qed

text \<open>
  With an injective encoder two requests share a cache entry exactly when they are for the same
  host and the same path and query.
\<close>

theorem cache_key_separates:
  assumes "inj (re_b64_encode X)"
  shows "cache_key_callback X s c = cache_key_callback X s' c' \<longleftrightarrow>
    rx_host c = rx_host c' \<and>
    unwrap_or ''/'' (se_path_and_query s) = unwrap_or ''/'' (se_path_and_query s')"
  using assms by (simp add: cache_key_callback_def inj_eq)

theorem cache_key_separates_witness:
  "cache_key_callback example_router (example_session\<lparr>se_path_and_query := Some ''/a''\<rparr>) example_ctx \<noteq>
   cache_key_callback example_router (example_session\<lparr>se_path_and_query := Some ''/b''\<rparr>) example_ctx"
  by (subst cache_key_separates) (simp_all add: example_router_def example_enc_inj)

end
