(* ===== verification/Access_Log.thy ===== *)
theory Access_Log
  imports Router Logger
begin

text \<open>
  The access log (\<open>logging\<close> of \<open>proxy_server/https_proxy.rs\<close>): the event written when a request is
  over. The protocol version, the client's address and the status written are what pingora's
  \<open>Session\<close> answers, given as a record; the event goes through the subscriber of \<open>Logger\<close>.
\<close>

record session_end =
  sx_is_http2 :: bool
  sx_client_addr :: "string option"
  sx_response_status :: "nat option"
  sx_elapsed_ms :: nat

record AccessEvent =
  al_method :: string
  al_path :: string
  al_query :: string
  al_host :: "string option"
  al_duration_ms :: nat
  al_user_agent :: string
  al_referer :: string
  al_client_ip :: string
  al_status_code :: nat
  al_http_version :: string
  al_reused_connection :: string
  al_peer_addr :: string
  al_request_id :: "string option"

definition header_or_empty :: "'h hdr_ops \<Rightarrow> 'h Session \<Rightarrow> string \<Rightarrow> string" where
  "header_or_empty H s name = unwrap_or [] (ho_to_str H (unwrap_or [] (se_header s name)))"

definition logging :: "'h hdr_ops \<Rightarrow> session_end \<Rightarrow> 'h Session \<Rightarrow> 'lb RouterContext \<Rightarrow> AccessEvent" where
  "logging H e s c =
     \<lparr>al_method = se_method s, al_path = se_uri_path s, al_query = unwrap_or [] (se_uri_query s),
      al_host = se_uri_host s, al_duration_ms = sx_elapsed_ms e,
      al_user_agent = header_or_empty H s ''user-agent'', al_referer = header_or_empty H s ''referer'',
      al_client_ip = unwrap_or [] (sx_client_addr e), al_status_code = unwrap_or 0 (sx_response_status e),
      al_http_version = (if sx_is_http2 e then ''http/2'' else ''http/1.1''),
      al_reused_connection = unwrap_or [] (hm_get (rx_extensions c) ''reused''),
      al_peer_addr = unwrap_or [] (hm_get (rx_extensions c) ''peer''),
      al_request_id = hm_get (rx_extensions c) ''request_id_header''\<rparr>"

text \<open>The event's metadata: its level and its fields.\<close>

definition access_event_meta :: event_meta where
  "access_event_meta = \<lparr>ev_level = LF_INFO, ev_fields = [''method'', ''path'', ''query'', ''host'', ''duration_ms'',
     ''user_agent'', ''referer'', ''client_ip'', ''status_code'', ''http_version'', ''reused_connection'',
     ''peer_addr'', ''request_id'', ''access_log'']\<rparr>"

section \<open>Properties\<close>

text \<open>
  An access log line reaches the logging channel exactly when logging and access logs are both
  switched on, whether error logs are or not.
\<close>

theorem access_line_is_written_iff:
  "fst (writer_write (make_writer_for (proxy_log_new enabled access errors) access_event_meta) line chan) =
   (if enabled \<and> access then chan @ [line] else chan)"
  by (simp add: writer_write_def make_writer_for_def proxy_log_new_def access_event_meta_def)

text \<open>The context a forwarded request has when its upstream is connected.\<close>

definition upstream_context :: "bool \<Rightarrow> bool \<Rightarrow> string \<Rightarrow> 'lb RouterContext \<Rightarrow> 'lb RouterContext" where
  "upstream_context missed reused peer c =
     connected_to_upstream reused peer (if missed then router_cache_miss c else c)"

lemma upstream_context_simps [simp]:
  "rx_route_container (upstream_context missed reused peer c) = rx_route_container c"
  "rx_upstream (upstream_context missed reused peer c) = rx_upstream c"
  "hm_get (rx_extensions (upstream_context missed reused peer c)) REQUEST_ID_KEY = hm_get (rx_extensions c) REQUEST_ID_KEY"
  "hm_get (rx_extensions (upstream_context missed reused peer c)) ''peer'' = Some peer"
  by (simp_all add: upstream_context_def connected_to_upstream_def router_cache_miss_def set_extension_def REQUEST_ID_KEY_def)

text \<open>
  C32. A request is forwarded, its upstream chosen and connected to, and its header edited for the
  upstream. With the request id plugin on its route, the upstream receives exactly one
  \<open>x-request-id\<close>, the id generated for the request, and the access log names that id. Without the
  plugin the access log names no id, and the upstream gets the header's own \<open>x-request-id\<close>, as the
  client sent it or the upstream's configuration sets it. The log names the peer connected to.
\<close>

theorem access_log_names_request_and_peer:
  assumes "hdr_laws (pe_hdr E)" and "\<And>h. \<exists>h'. ho_insert (pe_hdr E) h ''x-request-id'' (pe_uuid E) = Ok h'"
    and "rx_extensions (snd st) = []"
    and "router_request_filter E X routes st crt = (Ok False, st1, crt1)"
    and "upstream_peer X st1 = (Ok peer, st2)"
  shows "let c = upstream_context missed reused (show_addr (hp_address peer)) (snd st2);
      sent = ho_get (pe_hdr E) (router_upstream_request_filter (pe_hdr E) c upstream_request) ''x-request-id'';
      event = logging (pe_hdr E) e s c
    in al_peer_addr event = show_addr (hp_address peer) \<and>
      (if ''request_id'' \<in> fst ` set (co_plugins (rx_route_container c))
       then sent = [pe_uuid E] \<and> al_request_id event = Some (pe_uuid E)
       else al_request_id event = None \<and>
         sent = ho_get (pe_hdr E) (case Option.bind (ru_headers (rx_upstream c)) rh_add of
             Some add \<Rightarrow> add_upstream_headers (pe_hdr E) add upstream_request
           | None \<Rightarrow> upstream_request) ''x-request-id'')"
proof -
  obtain rc st0 where x: "execute_request_plugins E (co_plugins rc) (with_host (pe_hdr E) st) = (Ok False, st0)"
    and st1: "snd st1 = (snd st0)\<lparr>rx_route_container := rc\<rparr>"
    using assms(4) by (rule router_forward_cases)
  have st2: "rx_extensions (snd st2) = rx_extensions (snd st0)" "rx_route_container (snd st2) = rc"
    using assms(5) st1 by (auto simp: upstream_peer_def Let_def split: option.splits socket_addr.splits res.splits)
  let ?c = "upstream_context missed reused (show_addr (hp_address peer)) (snd st2)"
  have peer: "al_peer_addr (logging (pe_hdr E) e s ?c) = show_addr (hp_address peer)"
    by (simp add: logging_def)
  have log: "al_request_id (logging (pe_hdr E) e s ?c) = hm_get (rx_extensions (snd st0)) REQUEST_ID_KEY"
    using st2(1) upstream_context_simps(3) [of missed reused "show_addr (hp_address peer)" "snd st2"]
    by (simp add: logging_def REQUEST_ID_KEY_def)
  show ?thesis
  proof (cases "''request_id'' \<in> fst ` set (co_plugins rc)")
    case True
    then have id: "hm_get (rx_extensions (snd st0)) REQUEST_ID_KEY = Some (pe_uuid E)"
      using execute_request_id [OF x] by simp
    then have "hm_get (rx_extensions ?c) REQUEST_ID_KEY = Some (pe_uuid E)" by (simp add: st2)
    then have "ho_get (pe_hdr E) (router_upstream_request_filter (pe_hdr E) ?c upstream_request) ''x-request-id'' = [pe_uuid E]"
      unfolding router_upstream_request_filter_def execute_upstream_request_plugins_def
      using True by (intro upstream_request_loop_id [OF assms(1) _ assms(2)]) (auto simp: st2)
    with peer log id True show ?thesis by (simp add: Let_def st2)
  next
    case False
    then have "rx_extensions (snd st0) = []"
      using execute_without_request_id [OF x] assms(3) by (simp add: with_host_def case_prod_beta)
    moreover from False have "''request_id'' \<notin> set (map fst (co_plugins (rx_route_container ?c)))" by (simp add: st2)
    ultimately show ?thesis
      using peer log False
      by (simp add: Let_def st2 router_upstream_request_filter_def execute_upstream_request_plugins_def
          upstream_request_loop_without_id hm_get_def)
  qed
qed

theorem access_log_names_request_and_peer_witness:
  "\<exists>st1 crt1 peer st2. router_request_filter example_env example_router
       [(''a.io'', example_container\<lparr>co_plugins := [(''request_id'', example_basic_plugin)]\<rparr>)]
       (example_state_for ''a.io:443'') [] = (Ok False, st1, crt1) \<and>
     upstream_peer example_router st1 = (Ok peer, st2) \<and>
     al_request_id (logging example_hdr \<lparr>sx_is_http2 = True, sx_client_addr = None, sx_response_status = Some 200,
        sx_elapsed_ms = 5\<rparr> example_session (upstream_context True False ''10.0.0.1:80'' (snd st2))) = Some ''id''"
proof -
  let ?rc = "example_container\<lparr>co_plugins := [(''request_id'', example_basic_plugin)]\<rparr>"
  let ?e = "\<lparr>sx_is_http2 = True, sx_client_addr = None, sx_response_status = Some 200, sx_elapsed_ms = 5\<rparr>"
  have h: "pe_hdr example_env = example_hdr" "pe_uuid example_env = ''id''" by (simp_all add: example_env_def)
  obtain st1 crt1 where r: "router_request_filter example_env example_router [(''a.io'', ?rc)]
      (example_state_for ''a.io:443'') [] = (Ok False, st1, crt1)" and rc: "rx_route_container (snd st1) = ?rc"
    by (simp add: router_request_filter_def Let_def example_host get_route_by_key_def hm_get_def act_ignore_def
        act_bind_def request_id_result
        path_rejected_def example_container_def container_new_def enable_cache_def example_cache_def)
  obtain peer st2 where u: "upstream_peer example_router st1 = (Ok peer, st2)" "rx_route_container (snd st2) = ?rc"
    using rc by (simp add: upstream_peer_def Let_def example_router_def example_container_def upstream_resolves_def)
  have "rx_extensions (snd (example_state_for ''a.io:443'')) = []"
    by (simp add: example_state_for_def example_ctx_def new_ctx_def)
  from access_log_names_request_and_peer [OF _ _ this r u(1), unfolded h, OF example_hdr_laws example_insert,
      where missed = True and reused = False and show_addr = "\<lambda>_. ''10.0.0.1:80''" and e = ?e and s = example_session
        and upstream_request = "(0, [])"]
  have "al_request_id (logging example_hdr ?e example_session (upstream_context True False ''10.0.0.1:80'' (snd st2))) = Some ''id''"
    using u(2) by (simp add: Let_def)
  with r u(1) show ?thesis by blast
qed

end
