(* ===== verification/Disk_Cache.thy ===== *)
theory Disk_Cache
  imports Router "HOL-Library.List_Lexorder" "HOL-Library.Char_ord" "HOL-Library.Multiset"
begin

text \<open>
  The disk cache (\<open>cache/disk/storage.rs\<close>, \<open>handlers.rs\<close>, \<open>meta.rs\<close>): a body file and a metadata
  file per entry, and a copy in memory of every entry that was read to its end. The file system,
  pingora's hash of a cache key and \<open>serde_json\<close> are parameters. A hit handler is a value with its
  read position; how many bytes one \<open>read\<close> of a file returns is up to the operating system.
\<close>

section \<open>Data\<close>

text \<open>Times are in seconds; \<open>dm_headers\<close> is the \<open>BTreeMap\<close>, sorted by name.\<close>

record DiskCacheItemMetadata =
  dm_status :: nat
  dm_created_at :: nat
  dm_fresh_until :: nat
  dm_stale_while_revalidate_sec :: u32
  dm_stale_if_error_sec :: u32
  dm_headers :: "(string \<times> string) list"

record ('f, 'h) disk_ext =
  dc_primary :: "CacheKey \<Rightarrow> string"
  dc_header_pairs :: "'h \<Rightarrow> (string \<times> string) list"
  dc_to_json :: "DiskCacheItemMetadata \<Rightarrow> string option"
  dc_from_json :: "string \<Rightarrow> DiskCacheItemMetadata option"
  fs_read :: "'f \<Rightarrow> string \<Rightarrow> string option"
  fs_write :: "'f \<Rightarrow> string \<Rightarrow> string \<Rightarrow> 'f \<times> bool"
  fs_open_append :: "'f \<Rightarrow> string \<Rightarrow> 'f \<times> bool"
  fs_append :: "'f \<Rightarrow> string \<Rightarrow> string \<Rightarrow> 'f \<times> bool"
  fs_create_dir_all :: "'f \<Rightarrow> string \<Rightarrow> 'f \<times> bool"

text \<open>
  \<open>ds_writes\<close> are the writes that tokio performs in the background: \<open>write_all\<close> on a tokio file hands
  the data to a background task, and dropping the file without a \<open>flush\<close> does not wait for it.
\<close>

record 'f disk_state =
  ds_files :: 'f
  ds_writes :: "(string \<times> string) list"
  ds_memory :: "(string, DiskCacheItemMetadata \<times> string) hmap"

record DiskCacheHitHandler =
  hh_target :: string
  hh_path :: string
  hh_meta :: DiskCacheItemMetadata
  hh_finished_buffer :: string

record DiskCacheMissHandler =
  mh_main_path :: string
  mh_key :: CacheKey

datatype HitHandler = DiskHit DiskCacheHitHandler | MemoryHit string

section \<open>Metadata\<close>

fun btree_insert :: "string \<Rightarrow> 'v \<Rightarrow> (string \<times> 'v) list \<Rightarrow> (string \<times> 'v) list" where
  "btree_insert k v [] = [(k, v)]"
| "btree_insert k v ((k', v') # m) =
     (if k < k' then (k, v) # (k', v') # m
      else if k = k' then (k, v) # m
      else (k', v') # btree_insert k v m)"

fun collect_headers :: "'h hdr_ops \<Rightarrow> (string \<times> string) list \<Rightarrow> (string \<times> string) list \<Rightarrow> (string, (string \<times> string) list) res" where
  "collect_headers H [] m = Ok m"
| "collect_headers H ((k, v) # kvs) m =
     (case ho_to_str H v of
        None \<Rightarrow> Panic ''called `Result::unwrap()` on an `Err` value''
      | Some s \<Rightarrow> collect_headers H kvs (btree_insert k s m))"

definition metadata_from :: "'h hdr_ops \<Rightarrow> ('f, 'h) disk_ext \<Rightarrow> 'h CacheMeta \<Rightarrow> (string, DiskCacheItemMetadata) res" where
  "metadata_from H D meta =
     res_bind (collect_headers H (dc_header_pairs D (cm_header meta)) []) (\<lambda>headers.
     Ok \<lparr>dm_status = ho_status H (cm_header meta), dm_created_at = cm_created meta,
         dm_fresh_until = cm_fresh_until meta,
         dm_stale_while_revalidate_sec = cm_stale_while_revalidate meta,
         dm_stale_if_error_sec = cm_stale_if_error meta, dm_headers = headers\<rparr>)"

fun insert_ok_headers :: "'h hdr_ops \<Rightarrow> (string \<times> string) list \<Rightarrow> 'h \<Rightarrow> 'h" where
  "insert_ok_headers H [] h = h"
| "insert_ok_headers H ((k, v) # kvs) h = insert_ok_headers H kvs (unwrap_or h (res_ok (ho_insert H h k v)))"

text \<open>\<open>StatusCode::from_u16\<close> takes 100 to 999.\<close>

definition convert_headers :: "'h hdr_ops \<Rightarrow> DiskCacheItemMetadata \<Rightarrow> 'h" where
  "convert_headers H meta =
     insert_ok_headers H (dm_headers meta)
       (ho_build H (if 100 \<le> dm_status meta \<and> dm_status meta < 1000 then dm_status meta else 200))"

definition meta_of :: "'h hdr_ops \<Rightarrow> DiskCacheItemMetadata \<Rightarrow> 'h CacheMeta" where
  "meta_of H meta = \<lparr>cm_fresh_until = dm_fresh_until meta, cm_created = dm_created_at meta,
     cm_stale_while_revalidate = dm_stale_while_revalidate_sec meta,
     cm_stale_if_error = dm_stale_if_error_sec meta, cm_header = convert_headers H meta\<rparr>"

section \<open>Storage\<close>

definition DIRECTORY :: string where
  "DIRECTORY = ''/tmp''"

definition get_directory_for :: "cache_routing \<Rightarrow> string \<Rightarrow> string" where
  "get_directory_for crt namespace =
     (case get_cache_routing_by_key crt namespace of
        None \<Rightarrow> path_join DIRECTORY namespace
      | Some path \<Rightarrow> path_join path namespace)"

definition cache_file :: "('f, 'h) disk_ext \<Rightarrow> string \<Rightarrow> CacheKey \<Rightarrow> string" where
  "cache_file D main_path key = path_join main_path (dc_primary D key @ ''.cache'')"

definition metadata_file :: "('f, 'h) disk_ext \<Rightarrow> string \<Rightarrow> CacheKey \<Rightarrow> string" where
  "metadata_file D main_path key = path_join main_path (dc_primary D key @ ''.metadata'')"

definition get_cached_metadata ::
  "('f, 'h) disk_ext \<Rightarrow> cache_routing \<Rightarrow> CacheKey \<Rightarrow> 'f \<Rightarrow> DiskCacheItemMetadata option" where
  "get_cached_metadata D crt key f =
     Option.bind (fs_read D f (metadata_file D (get_directory_for crt (ky_namespace key)) key)) (dc_from_json D)"

definition get_memory_key :: "('f, 'h) disk_ext \<Rightarrow> CacheKey \<Rightarrow> string" where
  "get_memory_key D key = dc_primary D key"

definition lookup ::
  "'h hdr_ops \<Rightarrow> ('f, 'h) disk_ext \<Rightarrow> cache_routing \<Rightarrow> CacheKey \<Rightarrow> 'f disk_state \<Rightarrow> ('h CacheMeta \<times> HitHandler) option" where
  "lookup H D crt key st =
     (case hm_get (ds_memory st) (get_memory_key D key) of
        Some (meta, body) \<Rightarrow> Some (meta_of H meta, MemoryHit body)
      | None \<Rightarrow>
        (let file_path = cache_file D (get_directory_for crt (ky_namespace key)) key
         in case fs_read D (ds_files st) file_path of
              None \<Rightarrow> None
            | Some contents \<Rightarrow>
              (case get_cached_metadata D crt key (ds_files st) of
                 None \<Rightarrow> None
               | Some meta \<Rightarrow> Some (meta_of H meta, DiskHit \<lparr>hh_target = contents, hh_path = file_path,
                     hh_meta = meta, hh_finished_buffer = []\<rparr>))))"

definition get_miss_handler ::
  "'h hdr_ops \<Rightarrow> ('f, 'h) disk_ext \<Rightarrow> cache_routing \<Rightarrow> CacheKey \<Rightarrow> 'h CacheMeta \<Rightarrow>
   ('f disk_state, string, DiskCacheMissHandler) act" where
  "get_miss_handler H D crt key meta st =
     (let main_path = get_directory_for crt (ky_namespace key)
      in case fs_create_dir_all D (ds_files st) main_path of
           (f, False) \<Rightarrow> (Err ''failed to create directory'', st\<lparr>ds_files := f\<rparr>)
         | (f, True) \<Rightarrow>
           (case metadata_from H D meta of
              Panic m \<Rightarrow> (Panic m, st\<lparr>ds_files := f\<rparr>)
            | Err e \<Rightarrow> (Err e, st\<lparr>ds_files := f\<rparr>)
            | Ok item \<Rightarrow>
              (case dc_to_json D item of
                 None \<Rightarrow> (Err ''failed to serialize cache meta'', st\<lparr>ds_files := f\<rparr>)
               | Some serialized_metadata \<Rightarrow>
                   (Ok \<lparr>mh_main_path = main_path, mh_key = key\<rparr>,
                    st\<lparr>ds_files := fst (fs_write D f (metadata_file D main_path key) serialized_metadata)\<rparr>))))"

definition purge :: "'f disk_state \<Rightarrow> 'f disk_state \<times> bool" where
  "purge st = (st, True)"

definition update_meta ::
  "'h hdr_ops \<Rightarrow> ('f, 'h) disk_ext \<Rightarrow> cache_routing \<Rightarrow> CacheKey \<Rightarrow> 'h CacheMeta \<Rightarrow> ('f disk_state, string, bool) act" where
  "update_meta H D crt key meta st =
     (let main_path = get_directory_for crt (ky_namespace key)
      in case metadata_from H D meta of
           Panic m \<Rightarrow> (Panic m, st)
         | Err e \<Rightarrow> (Err e, st)
         | Ok item \<Rightarrow>
           (case dc_to_json D item of
              None \<Rightarrow> (Err ''failed to serialize cache meta'', st)
            | Some serialized_metadata \<Rightarrow>
                (Ok True, st\<lparr>ds_files := fst (fs_write D (ds_files st) (metadata_file D main_path key) serialized_metadata)\<rparr>)))"

section \<open>Handlers\<close>

text \<open>\<open>os\<close> is the answer of the \<open>read\<close> call: an error, or at most how many bytes it returns.\<close>

definition disk_read_body :: "nat option \<Rightarrow> DiskCacheHitHandler \<Rightarrow> string option \<times> DiskCacheHitHandler" where
  "disk_read_body os h =
     (case os of
        None \<Rightarrow> (None, h)
      | Some k \<Rightarrow>
        (let bytes_read = min k (min 32000 (length (hh_target h)));
             slice = take bytes_read (hh_target h);
             h' = h\<lparr>hh_target := drop bytes_read (hh_target h)\<rparr>
         in if bytes_read = 0 then (None, h')
            else (Some slice, h'\<lparr>hh_finished_buffer := hh_finished_buffer h @ slice\<rparr>)))"

definition disk_hit_finish :: "('f, 'h) disk_ext \<Rightarrow> CacheKey \<Rightarrow> DiskCacheHitHandler \<Rightarrow> 'f disk_state \<Rightarrow> 'f disk_state" where
  "disk_hit_finish D key h st =
     (if is_some_and (\<lambda>existing. length (snd existing) = length (hh_finished_buffer h))
           (hm_get (ds_memory st) (dc_primary D key))
      then st
      else st\<lparr>ds_memory := hm_insert (dc_primary D key) (hh_meta h, hh_finished_buffer h) (ds_memory st)\<rparr>)"

definition write_body ::
  "('f, 'h) disk_ext \<Rightarrow> DiskCacheMissHandler \<Rightarrow> string \<Rightarrow> bool \<Rightarrow> ('f disk_state, string, unit) act" where
  "write_body D mh data end1 st =
     (let path = cache_file D (mh_main_path mh) (mh_key mh)
      in case fs_open_append D (ds_files st) path of
           (f, False) \<Rightarrow> (Err ''failed to write to cache file'', st\<lparr>ds_files := f\<rparr>)
         | (f, True) \<Rightarrow> (Ok (), st\<lparr>ds_files := f, ds_writes := ds_writes st @ [(path, data)]\<rparr>))"

text \<open>
  The background tasks run on a pool, each write through a file handle of its own, so they complete in
  any \<open>order\<close>; whether one fails is never asked.
\<close>

definition complete_writes :: "('f, 'h) disk_ext \<Rightarrow> (string \<times> string) list \<Rightarrow> 'f disk_state \<Rightarrow> 'f disk_state" where
  "complete_writes D order st =
     st\<lparr>ds_files := fold (\<lambda>(path, data) f. fst (fs_append D f path data)) order (ds_files st), ds_writes := []\<rparr>"

definition miss_finish :: "DiskCacheMissHandler \<Rightarrow> nat" where
  "miss_finish mh = 0"

definition memory_read_body :: "string \<Rightarrow> string option \<times> string" where
  "memory_read_body target =
     (let bytes_read = min 128000 (length target)
      in if bytes_read = 0 then (None, target) else (Some (take bytes_read target), drop bytes_read target))"

section \<open>What the proxy does with them\<close>

text \<open>Writing the chunks of a body, and reading until there is no more body.\<close>

fun write_chunks :: "('f, 'h) disk_ext \<Rightarrow> DiskCacheMissHandler \<Rightarrow> string list \<Rightarrow> ('f disk_state, string, unit) act" where
  "write_chunks D mh [] = act_res (Ok ())"
| "write_chunks D mh (c # cs) = act_then (write_body D mh c (cs = [])) (write_chunks D mh cs)"

definition admit ::
  "'h hdr_ops \<Rightarrow> ('f, 'h) disk_ext \<Rightarrow> cache_routing \<Rightarrow> CacheKey \<Rightarrow> 'h CacheMeta \<Rightarrow> string list \<Rightarrow>
   ('f disk_state, string, nat) act" where
  "admit H D crt key meta chunks =
     act_bind (get_miss_handler H D crt key meta) (\<lambda>mh.
     act_then (write_chunks D mh chunks) (act_res (Ok (miss_finish mh))))"

fun drain_disk :: "nat option list \<Rightarrow> DiskCacheHitHandler \<Rightarrow> (string \<times> DiskCacheHitHandler) option" where
  "drain_disk [] h = None"
| "drain_disk (os # rest) h =
     (case disk_read_body os h of
        (None, h') \<Rightarrow> Some ([], h')
      | (Some b, h') \<Rightarrow> map_option (\<lambda>(bs, h''). (b @ bs, h'')) (drain_disk rest h'))"

function drain_memory :: "string \<Rightarrow> string" where
  "drain_memory target =
     (case memory_read_body target of
        (None, _) \<Rightarrow> []
      | (Some b, target') \<Rightarrow> b @ drain_memory target')"
  by auto
termination
  by (relation "measure length") (auto simp: memory_read_body_def Let_def split: if_splits)

declare drain_memory.simps [simp del]

section \<open>Lemmas\<close>

text \<open>The documented behaviour of the file system and of the serialisation.\<close>

definition disk_laws :: "('f, 'h) disk_ext \<Rightarrow> bool" where
  "disk_laws D \<longleftrightarrow>
     (\<forall>f p f'. fs_open_append D f p = (f', True) \<longrightarrow> fs_read D f' = (fs_read D f)(p \<mapsto> unwrap_or [] (fs_read D f p))) \<and>
     (\<forall>f p s f'. fs_append D f p s = (f', True) \<longrightarrow> fs_read D f' = (fs_read D f)(p \<mapsto> unwrap_or [] (fs_read D f p) @ s)) \<and>
     (\<forall>f p f' b. fs_create_dir_all D f p = (f', b) \<longrightarrow> fs_read D f' = fs_read D f) \<and>
     (\<forall>f p s f'. fs_write D f p s = (f', True) \<longrightarrow> fs_read D f' = (fs_read D f)(p \<mapsto> s)) \<and>
     (\<forall>m s. dc_to_json D m = Some s \<longrightarrow> dc_from_json D s = Some m) \<and>
     (\<forall>k. \<not> starts_with ''/'' (dc_primary D k))"

text \<open>
  The pairs of a header block are its values in order, under lower-case names; what a block holds can
  be inserted into another one.
\<close>

definition pairs_laws :: "'h hdr_ops \<Rightarrow> ('f, 'h) disk_ext \<Rightarrow> 'h \<Rightarrow> bool" where
  "pairs_laws H D h \<longleftrightarrow>
     (\<forall>n\<in>fst ` set (dc_header_pairs D h). to_lowercase n = n) \<and>
     (\<forall>k. ho_get H h k = map snd (filter (\<lambda>f. fst f = to_lowercase k) (dc_header_pairs D h))) \<and>
     (\<forall>(k, v)\<in>set (dc_header_pairs D h). \<forall>h2. \<exists>h'. ho_insert H h2 k v = Ok h')"

lemma disk_lawsD:
  assumes "disk_laws D"
  shows "fs_open_append D f p = (f', True) \<Longrightarrow> fs_read D f' = (fs_read D f)(p \<mapsto> unwrap_or [] (fs_read D f p))"
    and "fs_append D f p s = (f', True) \<Longrightarrow> fs_read D f' = (fs_read D f)(p \<mapsto> unwrap_or [] (fs_read D f p) @ s)"
    and "fs_create_dir_all D f p = (f', b) \<Longrightarrow> fs_read D f' = fs_read D f"
    and "fs_write D f p s = (f', True) \<Longrightarrow> fs_read D f' = (fs_read D f)(p \<mapsto> s)"
    and "dc_to_json D m = Some s \<Longrightarrow> dc_from_json D s = Some m"
    and "\<not> starts_with ''/'' (dc_primary D k)"
  using assms unfolding disk_laws_def by blast+

lemma files_differ: "\<not> starts_with ''/'' (dc_primary D key) \<Longrightarrow> cache_file D p key \<noteq> metadata_file D p key"
  by (cases "dc_primary D key") (auto simp: cache_file_def metadata_file_def path_join_def)

lemma btree_insert_get: "map_of (btree_insert k v m) = (map_of m)(k \<mapsto> v)"
  by (induction k v m rule: btree_insert.induct) (auto simp: fun_eq_iff)

lemma btree_insert_keys: "fst ` set (btree_insert k v m) = insert k (fst ` set m)"
  by (induction k v m rule: btree_insert.induct) (auto simp: image_iff)

lemma btree_insert_sorted:
  "sorted_wrt (<) (map fst m) \<Longrightarrow> sorted_wrt (<) (map fst (btree_insert k v m))"
proof (induction k v m rule: btree_insert.induct)
  case (2 k v k' v' m)
  have keys: "fst ` set (btree_insert k v m) = insert k (fst ` set m)" by (rule btree_insert_keys)
  show ?case
    using 2 keys by (auto simp: image_iff)
qed simp

text \<open>The collected map holds the last value of every name.\<close>

lemma collect_headers_result:
  assumes "collect_headers H kvs m = Ok m'" and "\<And>v x. ho_to_str H v = Some x \<Longrightarrow> x = v"
  shows "map_of m' n = (case map_of (rev kvs) n of Some v \<Rightarrow> Some v | None \<Rightarrow> map_of m n)"
    and "fst ` set m' = fst ` set m \<union> fst ` set kvs"
    and "sorted_wrt (<) (map fst m) \<Longrightarrow> sorted_wrt (<) (map fst m')"
  using assms
proof (induction H kvs m rule: collect_headers.induct)
  case (2 H k v kvs m)
  {
    case 1
    with "2.IH"(1) show ?case by (auto simp: btree_insert_get map_add_def split: option.splits)
  next
    case 2
    with "2.IH"(2) show ?case by (auto simp: btree_insert_keys split: option.splits)
  next
    case 3
    with "2.IH"(3) show ?case by (auto simp: btree_insert_sorted split: option.splits)
  }
qed auto

lemma insert_ok_headers_get:
  assumes "hdr_laws H" and "\<forall>(k, v)\<in>set kvs. \<forall>h. \<exists>h'. ho_insert H h k v = Ok h'"
    and "distinct (map fst kvs)" and "\<forall>n\<in>fst ` set kvs. to_lowercase n = n"
  shows "ho_get H (insert_ok_headers H kvs h) k =
      (case map_of kvs (to_lowercase k) of Some v \<Rightarrow> [v] | None \<Rightarrow> ho_get H h k) \<and>
    ho_status H (insert_ok_headers H kvs h) = ho_status H h"
  using assms(2-4)
proof (induction kvs arbitrary: h)
  case (Cons kv kvs)
  obtain n v where kv: "kv = (n, v)" by fastforce
  have "\<forall>h. \<exists>h'. ho_insert H h n v = Ok h'" using Cons.prems(1) kv by simp
  then obtain h1 where h1: "ho_insert H h n v = Ok h1" by blast
  have low: "to_lowercase n = n" and fresh: "n \<notin> fst ` set kvs" using Cons.prems kv by auto
  have none: "map_of kvs n = None" using fresh by (simp add: map_of_eq_None_iff)
  have "\<forall>(k, v)\<in>set kvs. \<forall>h. \<exists>h'. ho_insert H h k v = Ok h'" "distinct (map fst kvs)" "\<forall>n\<in>fst ` set kvs. to_lowercase n = n"
    using Cons.prems by auto
  from Cons.IH [OF this, of h1] show ?case
    using low none by (simp add: kv h1 hdr_insert [OF assms(1) h1] split: option.splits)
qed simp

text \<open>What one round trip through the metadata file keeps of a header block.\<close>

lemma metadata_roundtrip:
  assumes "hdr_laws H" and "pairs_laws H D (cm_header meta)" and "metadata_from H D meta = Ok item"
    and "100 \<le> ho_status H (cm_header meta)" and "ho_status H (cm_header meta) < 1000"
  shows "cm_fresh_until (meta_of H item) = cm_fresh_until meta \<and> cm_created (meta_of H item) = cm_created meta \<and>
    cm_stale_while_revalidate (meta_of H item) = cm_stale_while_revalidate meta \<and>
    cm_stale_if_error (meta_of H item) = cm_stale_if_error meta \<and>
    ho_status H (cm_header (meta_of H item)) = ho_status H (cm_header meta) \<and>
    (\<forall>k. ho_get H (cm_header (meta_of H item)) k =
      (case ho_get H (cm_header meta) k of [] \<Rightarrow> [] | v # vs \<Rightarrow> [last (v # vs)]))"
proof -
  let ?kvs = "dc_header_pairs D (cm_header meta)"
  obtain hs where hs: "collect_headers H ?kvs [] = Ok hs" and item: "item = \<lparr>dm_status = ho_status H (cm_header meta),
      dm_created_at = cm_created meta, dm_fresh_until = cm_fresh_until meta,
      dm_stale_while_revalidate_sec = cm_stale_while_revalidate meta,
      dm_stale_if_error_sec = cm_stale_if_error meta, dm_headers = hs\<rparr>"
    using assms(3) by (auto simp: metadata_from_def res_bind_Ok_iff)
  have str: "\<And>v x. ho_to_str H v = Some x \<Longrightarrow> x = v" using assms(1) unfolding hdr_laws_def by blast
  note col = collect_headers_result [OF hs str]
  have dist: "distinct (map fst hs)" using col(3) by (simp add: strict_sorted_iff)
  have low: "\<forall>n\<in>fst ` set hs. to_lowercase n = n"
    using assms(2) col(2) unfolding pairs_laws_def by simp
  have "set hs \<subseteq> set ?kvs"
  proof
    fix kv assume "kv \<in> set hs"
    then have "map_of hs (fst kv) = Some (snd kv)" using dist by simp
    then have "map_of (rev ?kvs) (fst kv) = Some (snd kv)" using col(1) [of "fst kv"] by (simp split: option.splits)
    then show "kv \<in> set ?kvs" using map_of_SomeD by fastforce
  qed
  then have ins: "\<forall>(k, v)\<in>set hs. \<forall>h. \<exists>h'. ho_insert H h k v = Ok h'"
    using assms(2) unfolding pairs_laws_def by fast
  have get: "ho_get H (cm_header meta) k = map snd (filter (\<lambda>f. fst f = to_lowercase k) ?kvs)" for k
    using assms(2) unfolding pairs_laws_def by blast
  have last: "map_of (rev kvs) n = (case map snd (filter (\<lambda>f. fst f = n) kvs) of [] \<Rightarrow> None | v # vs \<Rightarrow> Some (last (v # vs)))"
    for kvs :: "(string \<times> string) list" and n
    by (induction kvs rule: rev_induct) (auto split: list.splits)
  have "ho_get H (convert_headers H item) k =
      (case ho_get H (cm_header meta) k of [] \<Rightarrow> [] | v # vs \<Rightarrow> [last (v # vs)])" for k
    using insert_ok_headers_get [OF assms(1) ins dist low, of "ho_build H (ho_status H (cm_header meta))" k] assms(4,5)
    by (simp add: convert_headers_def item col(1) last get hdr_build [OF assms(1)] split: list.splits)
  moreover have "ho_status H (convert_headers H item) = ho_status H (cm_header meta)"
    using insert_ok_headers_get [OF assms(1) ins dist low, of "ho_build H (ho_status H (cm_header meta))"] assms(4,5)
    by (simp add: convert_headers_def item hdr_build [OF assms(1)])
  ultimately show ?thesis by (simp add: meta_of_def item)
qed

text \<open>Writing a body creates its file and leaves the data of the chunks to the background.\<close>

lemma write_chunks_result:
  assumes "disk_laws D" and "write_chunks D mh chunks st = (Ok (), st')" and "chunks \<noteq> []"
  shows "ds_memory st' = ds_memory st \<and>
    ds_writes st' = ds_writes st @ map (Pair (cache_file D (mh_main_path mh) (mh_key mh))) chunks \<and>
    fs_read D (ds_files st') = (fs_read D (ds_files st))(cache_file D (mh_main_path mh) (mh_key mh) \<mapsto>
      unwrap_or [] (fs_read D (ds_files st) (cache_file D (mh_main_path mh) (mh_key mh))))"
  using assms(2,3)
proof (induction chunks arbitrary: st)
  case (Cons c cs)
  let ?p = "cache_file D (mh_main_path mh) (mh_key mh)"
  from Cons.prems(1) obtain st1 where w: "write_body D mh c (cs = []) st = (Ok (), st1)"
    and rest: "write_chunks D mh cs st1 = (Ok (), st')"
    by (auto simp: act_bind_Ok_iff)
  obtain f where f: "fs_open_append D (ds_files st) ?p = (f, True)"
    and st1: "st1 = st\<lparr>ds_files := f, ds_writes := ds_writes st @ [(?p, c)]\<rparr>"
    using w by (auto simp: write_body_def Let_def split: prod.splits bool.splits)
  note read = disk_lawsD(1) [OF assms(1) f]
  show ?case
  proof (cases "cs = []")
    case True
    with rest have "st' = st1" by simp
    with True read st1 show ?thesis by simp
  next
    case False
    from Cons.IH [OF rest False] st1 read show ?thesis by (simp add: fun_eq_iff)
  qed
qed simp

lemma complete_appends:
  assumes "disk_laws D" and "\<And>f p s. snd (fs_append D f p s)" and "\<forall>w\<in>set order. fst w = p" and "fs_read D f p = Some old"
  shows "fs_read D (fold (\<lambda>(path, data) f. fst (fs_append D f path data)) order f) =
    (fs_read D f)(p \<mapsto> old @ concat (map snd order))"
  using assms(3,4)
proof (induction order arbitrary: f old)
  case (Cons w order)
  then obtain s where w: "w = (p, s)" by (cases w) auto
  have "fs_append D f p s = (fst (fs_append D f p s), True)" using assms(2) [of f p s] by (simp add: prod_eq_iff)
  note read = disk_lawsD(2) [OF assms(1) this]
  have "\<forall>w\<in>set order. fst w = p" using Cons.prems(1) by simp
  from Cons.IH [OF this, of "fst (fs_append D f p s)" "old @ s"] read Cons.prems(2) show ?case
    by (simp add: w fun_eq_iff)
qed auto

lemma admit_parts:
  assumes "disk_laws D" and "\<And>f p s. snd (fs_write D f p s)" and "chunks \<noteq> []"
    and "admit H D crt key meta chunks st = (Ok n, st')"
  shows "\<exists>item. metadata_from H D meta = Ok item \<and> ds_memory st' = ds_memory st \<and>
    get_cached_metadata D crt key (ds_files st') = Some item \<and>
    (let p = cache_file D (get_directory_for crt (ky_namespace key)) key in
     ds_writes st' = ds_writes st @ map (Pair p) chunks \<and>
     fs_read D (ds_files st') p = Some (unwrap_or [] (fs_read D (ds_files st) p)))"
proof -
  let ?d = "get_directory_for crt (ky_namespace key)"
  let ?mh = "\<lparr>mh_main_path = ?d, mh_key = key\<rparr>"
  obtain mh st1 where g: "get_miss_handler H D crt key meta st = (Ok mh, st1)"
    and w: "write_chunks D mh chunks st1 = (Ok (), st')"
    using assms(4) by (auto simp: admit_def act_bind_Ok_iff)
  obtain f item ser where f: "fs_create_dir_all D (ds_files st) ?d = (f, True)" and item: "metadata_from H D meta = Ok item"
    and ser: "dc_to_json D item = Some ser" and mh: "mh = ?mh"
    and st1: "st1 = st\<lparr>ds_files := fst (fs_write D f (metadata_file D ?d key) ser)\<rparr>"
    using g by (auto simp: get_miss_handler_def Let_def split: prod.splits bool.splits res.splits option.splits)
  have "fs_write D f (metadata_file D ?d key) ser = (ds_files st1, True)"
    using assms(2) [of f "metadata_file D ?d key" ser] by (simp add: st1 prod_eq_iff)
  note written = disk_lawsD(4) [OF assms(1) this] disk_lawsD(3) [OF assms(1) f]
  note chunks = write_chunks_result [OF assms(1) w assms(3)]
  note diff = files_differ [OF disk_lawsD(6) [OF assms(1)], of ?d key]
  show ?thesis
    using item chunks written diff disk_lawsD(5) [OF assms(1) ser]
    by (simp add: mh st1 get_cached_metadata_def)
qed

text \<open>The entry before and after its writes have completed.\<close>

lemma admitted_entry:
  assumes "disk_laws D" and "\<And>f p s. snd (fs_write D f p s)" and "\<And>f p s. snd (fs_append D f p s)" and "chunks \<noteq> []"
    and "hm_get (ds_memory st) (dc_primary D key) = None" and "ds_writes st = []"
    and "admit H D crt key meta chunks st = (Ok n, st')" and "mset order = mset (ds_writes st')"
  shows "\<exists>item h. metadata_from H D meta = Ok item \<and>
    lookup H D crt key (complete_writes D order st') = Some (meta_of H item, DiskHit h) \<and> hh_finished_buffer h = [] \<and>
    hh_target h = unwrap_or [] (fs_read D (ds_files st) (cache_file D (get_directory_for crt (ky_namespace key)) key)) @
      concat (map snd order)"
proof -
  let ?p = "cache_file D (get_directory_for crt (ky_namespace key)) key"
  obtain item where item: "metadata_from H D meta = Ok item" and mem: "ds_memory st' = ds_memory st"
    and md: "get_cached_metadata D crt key (ds_files st') = Some item"
    and writes: "ds_writes st' = map (Pair ?p) chunks"
    and body: "fs_read D (ds_files st') ?p = Some (unwrap_or [] (fs_read D (ds_files st) ?p))"
    using admit_parts [OF assms(1,2,4,7)] assms(6) by (auto simp: Let_def)
  have "set order = set (ds_writes st')" using assms(8) by (metis set_mset_mset)
  then have "\<forall>w\<in>set order. fst w = ?p" using writes by auto
  note appended = complete_appends [OF assms(1,3) this body]
  note diff = files_differ [OF disk_lawsD(6) [OF assms(1)], of "get_directory_for crt (ky_namespace key)" key]
  have "get_cached_metadata D crt key (ds_files (complete_writes D order st')) = Some item"
    using md appended diff by (simp add: get_cached_metadata_def complete_writes_def)
  with item mem appended assms(5) show ?thesis
    by (simp add: lookup_def get_memory_key_def Let_def complete_writes_def)
qed

lemma drain_disk_all:
  assumes "\<forall>os\<in>set answers. \<exists>k. os = Some (Suc k)" and "length (hh_target h) < length answers"
  shows "drain_disk answers h = Some (hh_target h, h\<lparr>hh_target := [], hh_finished_buffer := hh_finished_buffer h @ hh_target h\<rparr>)"
  using assms
proof (induction answers h rule: drain_disk.induct)
  case (2 os rest h)
  obtain k where k: "os = Some (Suc k)" using "2.prems"(1) by auto
  let ?n = "min (Suc k) (min 32000 (length (hh_target h)))"
  show ?case
  proof (cases "hh_target h = []")
    case True
    then show ?thesis by (simp add: k disk_read_body_def Let_def)
  next
    case False
    let ?h = "h\<lparr>hh_target := drop ?n (hh_target h), hh_finished_buffer := hh_finished_buffer h @ take ?n (hh_target h)\<rparr>"
    have pos: "?n \<noteq> 0" using False by (cases "hh_target h") auto
    then have r: "disk_read_body os h = (Some (take ?n (hh_target h)), ?h)"
      by (simp add: k disk_read_body_def Let_def)
    have "length (hh_target ?h) < length rest"
      using "2.prems"(2) pos False by (cases rest) (auto simp: min_def split: if_splits)
    moreover have "\<forall>os\<in>set rest. \<exists>k. os = Some (Suc k)" using "2.prems"(1) by simp
    ultimately have "drain_disk rest ?h = Some (hh_target ?h, ?h\<lparr>hh_target := [], hh_finished_buffer := hh_finished_buffer ?h @ hh_target ?h\<rparr>)"
      using "2.IH" [OF r [symmetric] refl] by blast
    then show ?thesis using r by simp
  qed
qed simp

lemma drain_memory_all: "drain_memory target = target"
proof (induction target rule: drain_memory.induct)
  case (1 target)
  show ?case
  proof (cases "target = []")
    case True
    then show ?thesis by (subst drain_memory.simps) (simp add: memory_read_body_def)
  next
    case False
    let ?n = "min 128000 (length target)"
    have r: "memory_read_body target = (Some (take ?n target), drop ?n target)"
      using False by (simp add: memory_read_body_def Let_def)
    have "drain_memory (drop ?n target) = drop ?n target"
      by (rule "1.IH" [OF r [symmetric] refl])
    with r show ?thesis by (subst drain_memory.simps) simp
  qed
qed

section \<open>A concrete disk\<close>

definition example_item :: DiskCacheItemMetadata where
  "example_item = \<lparr>dm_status = 200, dm_created_at = 10, dm_fresh_until = 20, dm_stale_while_revalidate_sec = 0,
     dm_stale_if_error_sec = 0, dm_headers = [(''x'', ''2'')]\<rparr>"

definition example_disk :: "(string \<Rightarrow> string option, nat \<times> (string \<times> string) list) disk_ext" where
  "example_disk = \<lparr>dc_primary = (\<lambda>_. ''k''), dc_header_pairs = snd,
     dc_to_json = (\<lambda>m. if m = example_item then Some ''{}'' else None), dc_from_json = (\<lambda>_. Some example_item),
     fs_read = (\<lambda>f. f), fs_write = (\<lambda>f p s. (f(p \<mapsto> s), True)),
     fs_open_append = (\<lambda>f p. (f(p \<mapsto> unwrap_or [] (f p)), True)),
     fs_append = (\<lambda>f p s. (f(p \<mapsto> unwrap_or [] (f p) @ s), True)), fs_create_dir_all = (\<lambda>f p. (f, True))\<rparr>"

definition example_meta :: "(nat \<times> (string \<times> string) list) CacheMeta" where
  "example_meta = \<lparr>cm_fresh_until = 20, cm_created = 10, cm_stale_while_revalidate = 0, cm_stale_if_error = 0,
     cm_header = (200, [(''x'', ''1''), (''x'', ''2'')])\<rparr>"

definition example_key :: CacheKey where
  "example_key = \<lparr>ky_namespace = ''a.io'', ky_primary = ''Lw=='', ky_user_tag = []\<rparr>"

definition example_disk_state :: "(string \<Rightarrow> string option) disk_state" where
  "example_disk_state = \<lparr>ds_files = (\<lambda>_. None), ds_writes = [], ds_memory = []\<rparr>"

lemma example_disk_simps [simp]:
  "fs_read example_disk f p = f p" "dc_from_json example_disk t = Some example_item" "dc_primary example_disk k = ''k''"
  by (simp_all add: example_disk_def)

lemma example_disk_laws: "disk_laws example_disk"
  by (auto simp: disk_laws_def example_disk_def split: if_splits)

lemma example_pairs_laws: "pairs_laws example_hdr example_disk (cm_header example_meta)"
  by (auto simp: pairs_laws_def example_hdr_def example_disk_def example_meta_def literal_simps)

lemma example_metadata: "metadata_from example_hdr example_disk example_meta = Ok example_item"
  by (simp add: metadata_from_def example_hdr_def example_disk_def example_meta_def example_item_def)

lemma example_write_body: "\<exists>st'. write_body example_disk mh c e st = (Ok (), st')"
  by (simp add: write_body_def example_disk_def Let_def)

lemma example_write_chunks: "\<exists>st'. write_chunks example_disk mh cs st = (Ok (), st')"
proof (induction cs arbitrary: st)
  case (Cons c cs)
  obtain st1 where "write_body example_disk mh c (cs = []) st = (Ok (), st1)" using example_write_body by blast
  with Cons.IH [of st1] show ?case by simp
qed simp

lemma example_admit:
  "\<exists>n st'. admit example_hdr example_disk [] example_key example_meta chunks st = (Ok n, st')"
proof -
  have "\<exists>mh st1. get_miss_handler example_hdr example_disk [] example_key example_meta st = (Ok mh, st1)"
    unfolding get_miss_handler_def Let_def example_metadata by (simp add: example_disk_def)
  then obtain mh st1 where "get_miss_handler example_hdr example_disk [] example_key example_meta st = (Ok mh, st1)" by blast
  moreover obtain st2 where "write_chunks example_disk mh chunks st1 = (Ok (), st2)" using example_write_chunks by blast
  ultimately show ?thesis by (simp add: admit_def)
qed

section \<open>Properties\<close>

text \<open>
  C21. A response admitted for a key that has no entry yet is found again once its background writes
  have completed: reading the entry to its end, however the reads are cut, gives the chunks in the order
  in which the writes completed, so the body itself when they complete in the order of the calls. The
  times and the status come back; of every header its last value does, and no other.
\<close>

theorem admitted_response_is_found:
  assumes "hdr_laws H" and "disk_laws D" and "pairs_laws H D (cm_header meta)"
    and "\<And>f p s. snd (fs_write D f p s)" and "\<And>f p s. snd (fs_append D f p s)" and "chunks \<noteq> []"
    and "100 \<le> ho_status H (cm_header meta)" and "ho_status H (cm_header meta) < 1000"
    and "hm_get (ds_memory st) (dc_primary D key) = None" and "ds_writes st = []"
    and "fs_read D (ds_files st) (cache_file D (get_directory_for crt (ky_namespace key)) key) = None"
    and "admit H D crt key meta chunks st = (Ok n, st')" and "mset order = mset (ds_writes st')"
    and "\<forall>os\<in>set answers. \<exists>k. os = Some (Suc k)" and "length (concat chunks) < length answers"
  shows "\<exists>meta' h h' body. lookup H D crt key (complete_writes D order st') = Some (meta', DiskHit h) \<and>
    drain_disk answers h = Some (body, h') \<and> hh_finished_buffer h' = body \<and>
    body = concat (map snd order) \<and> mset (map snd order) = mset chunks \<and> (order = ds_writes st' \<longrightarrow> body = concat chunks) \<and>
    cm_fresh_until meta' = cm_fresh_until meta \<and> cm_created meta' = cm_created meta \<and>
    ho_status H (cm_header meta') = ho_status H (cm_header meta) \<and>
    (\<forall>k. ho_get H (cm_header meta') k = (case ho_get H (cm_header meta) k of [] \<Rightarrow> [] | v # vs \<Rightarrow> [last (v # vs)]))"
proof -
  obtain item h where item: "metadata_from H D meta = Ok item"
    and look: "lookup H D crt key (complete_writes D order st') = Some (meta_of H item, DiskHit h)"
    and h: "hh_finished_buffer h = []" "hh_target h = concat (map snd order)"
    using admitted_entry [OF assms(2,4,5,6,9,10,12,13)] assms(11) by auto
  have "ds_writes st' = map (Pair (cache_file D (get_directory_for crt (ky_namespace key)) key)) chunks"
    using admit_parts [OF assms(2,4,6,12)] assms(10) by (auto simp: Let_def)
  then have writes: "map snd (ds_writes st') = chunks" by (simp add: comp_def)
  then have perm: "mset (map snd order) = mset chunks" using assms(13) by (metis mset_map)
  have "length (concat (map snd order)) = length (concat chunks)"
    using perm by (metis length_concat mset_map sum_mset_sum_list)
  with drain_disk_all [OF assms(14), of h] assms(15) h have
    "drain_disk answers h = Some (concat (map snd order), h\<lparr>hh_target := [], hh_finished_buffer := concat (map snd order)\<rparr>)"
    by simp
  with look metadata_roundtrip [OF assms(1,3) item assms(7,8)] perm writes show ?thesis
    by (intro exI [of _ "meta_of H item"] exI [of _ h]
        exI [of _ "h\<lparr>hh_target := [], hh_finished_buffer := concat (map snd order)\<rparr>"] exI [of _ "concat (map snd order)"]) auto
qed

theorem admitted_response_is_found_witness:
  "\<exists>meta' h n st'. admit example_hdr example_disk [] example_key example_meta [''ab'', ''c''] example_disk_state = (Ok n, st') \<and>
     lookup example_hdr example_disk [] example_key (complete_writes example_disk (ds_writes st') st') = Some (meta', DiskHit h) \<and>
     map_option fst (drain_disk (replicate 4 (Some 1)) h) = Some ''abc''"
proof -
  obtain n st' where a: "admit example_hdr example_disk [] example_key example_meta [''ab'', ''c''] example_disk_state = (Ok n, st')"
    using example_admit by blast
  from admitted_response_is_found [OF example_hdr_laws example_disk_laws example_pairs_laws _ _ _ _ _ _ _ _ a refl, of "replicate 4 (Some 1)"]
  have "\<exists>meta' h h'. lookup example_hdr example_disk [] example_key (complete_writes example_disk (ds_writes st') st') = Some (meta', DiskHit h) \<and>
      drain_disk (replicate 4 (Some 1)) h = Some (concat [''ab'', ''c''], h')"
    by (fastforce simp: example_disk_def example_disk_state_def example_meta_def example_hdr_def)
  with a show ?thesis by fastforce
qed

text \<open>
  The write of the last chunk is not flushed: a lookup that comes before the background writes have
  completed finds the entry with an empty body, and takes it for the response.
\<close>

theorem unflushed_entry_is_a_hit:
  assumes "disk_laws D" and "\<And>f p s. snd (fs_write D f p s)" and "chunks \<noteq> []"
    and "hm_get (ds_memory st) (dc_primary D key) = None"
    and "fs_read D (ds_files st) (cache_file D (get_directory_for crt (ky_namespace key)) key) = None"
    and "admit H D crt key meta chunks st = (Ok n, st')"
  shows "\<exists>meta' h. lookup H D crt key st' = Some (meta', DiskHit h) \<and> hh_target h = []"
  using admit_parts [OF assms(1-3,6)] assms(4,5)
  by (auto simp: Let_def lookup_def get_memory_key_def)

theorem unflushed_entry_is_a_hit_witness:
  "\<exists>n st' meta' h. admit example_hdr example_disk [] example_key example_meta [''ab''] example_disk_state = (Ok n, st') \<and>
     lookup example_hdr example_disk [] example_key st' = Some (meta', DiskHit h) \<and> hh_target h = []"
proof -
  obtain n st' where a: "admit example_hdr example_disk [] example_key example_meta [''ab''] example_disk_state = (Ok n, st')"
    using example_admit by blast
  have "\<exists>meta' h. lookup example_hdr example_disk [] example_key st' = Some (meta', DiskHit h) \<and> hh_target h = []"
    by (rule unflushed_entry_is_a_hit [OF example_disk_laws _ _ _ _ a]) (simp_all add: example_disk_def example_disk_state_def)
  with a show ?thesis by blast
qed

text \<open>
  An entry that was read to its end and finished is served from memory afterwards, with the body
  that was read.
\<close>

theorem finished_entry_is_served_from_memory:
  assumes "lookup H D crt key st = Some (meta, DiskHit h)" and "drain_disk answers h = Some (body, h')"
    and "\<forall>os\<in>set answers. \<exists>k. os = Some (Suc k)" and "length (hh_target h) < length answers"
  shows "lookup H D crt key (disk_hit_finish D key h' st) = Some (meta, MemoryHit body) \<and> drain_memory body = body"
proof -
  have none: "hm_get (ds_memory st) (dc_primary D key) = None" and meta: "meta = meta_of H (hh_meta h)"
    and buf: "hh_finished_buffer h = []"
    using assms(1) by (auto simp: lookup_def get_memory_key_def Let_def split: option.splits)
  have "body = hh_target h" "hh_meta h' = hh_meta h" "hh_finished_buffer h' = body"
    using assms(2) drain_disk_all [OF assms(3,4)] buf by auto
  with none meta show ?thesis
    by (simp add: lookup_def disk_hit_finish_def get_memory_key_def drain_memory_all)
qed

theorem finished_entry_is_served_from_memory_witness:
  "\<exists>st h h'. lookup example_hdr example_disk [] example_key st = Some (meta_of example_hdr example_item, DiskHit h) \<and>
     drain_disk [Some 1, Some 1] h = Some (''a'', h') \<and>
     lookup example_hdr example_disk [] example_key (disk_hit_finish example_disk example_key h' st) =
       Some (meta_of example_hdr example_item, MemoryHit ''a'')"
proof -
  let ?st = "\<lparr>ds_files = (\<lambda>_. Some ''a''), ds_writes = [], ds_memory = []\<rparr>"
  let ?h = "\<lparr>hh_target = ''a'', hh_path = cache_file example_disk (get_directory_for [] (ky_namespace example_key)) example_key,
      hh_meta = example_item, hh_finished_buffer = []\<rparr>"
  have l: "lookup example_hdr example_disk [] example_key ?st = Some (meta_of example_hdr example_item, DiskHit ?h)"
    by (simp add: lookup_def get_cached_metadata_def Let_def)
  have d: "drain_disk [Some 1, Some 1] ?h = Some (''a'', ?h\<lparr>hh_target := [], hh_finished_buffer := ''a''\<rparr>)"
    by (simp add: disk_read_body_def Let_def)
  from finished_entry_is_served_from_memory [OF l d] l d show ?thesis by fastforce
qed

text \<open>
  Admitting a response again for a key that still has a file does not replace the body: the new
  chunks are appended to the old ones.
\<close>

theorem readmission_appends_body:
  assumes "disk_laws D" and "\<And>f p s. snd (fs_write D f p s)" and "\<And>f p s. snd (fs_append D f p s)" and "chunks \<noteq> []"
    and "hm_get (ds_memory st) (dc_primary D key) = None" and "ds_writes st = []"
    and "fs_read D (ds_files st) (cache_file D (get_directory_for crt (ky_namespace key)) key) = Some old"
    and "admit H D crt key meta chunks st = (Ok n, st')"
  shows "\<exists>meta' h. lookup H D crt key (complete_writes D (ds_writes st') st') = Some (meta', DiskHit h) \<and>
    hh_target h = old @ concat chunks"
proof -
  have "map snd (ds_writes st') = chunks"
    using admit_parts [OF assms(1,2,4,8)] assms(6) by (auto simp: Let_def comp_def)
  with admitted_entry [OF assms(1-6,8) refl] assms(7) show ?thesis by auto
qed

theorem readmission_appends_body_witness:
  "\<exists>n st' meta' h. admit example_hdr example_disk [] example_key example_meta [''new''] \<lparr>ds_files = (\<lambda>_. Some ''old''), ds_writes = [], ds_memory = []\<rparr> = (Ok n, st') \<and>
     lookup example_hdr example_disk [] example_key (complete_writes example_disk (ds_writes st') st') = Some (meta', DiskHit h) \<and>
     hh_target h = ''oldnew''"
proof -
  let ?st = "\<lparr>ds_files = (\<lambda>_. Some ''old''), ds_writes = [], ds_memory = []\<rparr>"
  obtain n st' where a: "admit example_hdr example_disk [] example_key example_meta [''new''] ?st = (Ok n, st')"
    using example_admit by blast
  have "\<exists>meta' h. lookup example_hdr example_disk [] example_key (complete_writes example_disk (ds_writes st') st') = Some (meta', DiskHit h) \<and>
      hh_target h = ''old'' @ concat [''new'']"
    by (rule readmission_appends_body [OF example_disk_laws _ _ _ _ _ _ a]) (simp_all add: example_disk_def)
  with a show ?thesis by simp
qed

text \<open>
  C40. Once an entry is in memory it stays what it is: admitting a new response, updating its metadata
  or purging it changes nothing that a lookup sees, so an entry that has expired is expired for good.
\<close>

theorem memory_entry_never_changes:
  assumes "hm_get (ds_memory st) (dc_primary D key) = Some (item, body)"
    and "admit H D crt key meta chunks st = (r, st1)" and "update_meta H D crt key meta st = (r', st2)"
  shows "lookup H D crt key st = Some (meta_of H item, MemoryHit body) \<and>
    lookup H D crt key st1 = lookup H D crt key st \<and> lookup H D crt key st2 = lookup H D crt key st \<and>
    lookup H D crt key (fst (purge st)) = lookup H D crt key st \<and>
    (\<not> re_is_fresh X (meta_of H item) now \<longrightarrow>
       fst (cache_hit_filter X now (meta_of H item) c) = Some ForceExpired)"
proof -
  have wc: "ds_memory (snd (write_chunks D mh cs s)) = ds_memory s" for mh cs s
  proof (induction cs arbitrary: s)
    case (Cons a cs)
    have "ds_memory (snd (write_body D mh a (cs = []) s)) = ds_memory s"
      by (auto simp: write_body_def Let_def split: prod.splits bool.splits)
    with Cons show ?case by (auto simp: act_bind_def split: prod.splits res.splits)
  qed simp
  have gm: "ds_memory (snd (get_miss_handler H D crt key meta st)) = ds_memory st"
    by (auto simp: get_miss_handler_def Let_def split: prod.splits bool.splits res.splits option.splits)
  have "ds_memory st1 = ds_memory st"
    using assms(2) gm wc by (auto simp: admit_def act_bind_def split: prod.splits res.splits) (metis snd_conv)+
  moreover have "ds_memory st2 = ds_memory st"
    using assms(3) by (auto simp: update_meta_def Let_def split: res.splits option.splits)
  ultimately show ?thesis
    using assms(1) by (simp add: lookup_def get_memory_key_def purge_def cache_hit_filter_def)
qed

theorem memory_entry_never_changes_witness:
  "\<exists>r st1. admit example_hdr example_disk [] example_key example_meta [''new''] \<lparr>ds_files = (\<lambda>_. None), ds_writes = [], ds_memory = [(''k'', example_item, ''old'')]\<rparr> = (r, st1) \<and>
     lookup example_hdr example_disk [] example_key st1 = Some (meta_of example_hdr example_item, MemoryHit ''old'')"
proof -
  let ?st = "\<lparr>ds_files = (\<lambda>_. None), ds_writes = [], ds_memory = [(''k'', example_item, ''old'')]\<rparr>"
  obtain r st1 where a: "admit example_hdr example_disk [] example_key example_meta [''new''] ?st = (r, st1)" by fastforce
  obtain r2 st2 where u: "update_meta example_hdr example_disk [] example_key example_meta ?st = (r2, st2)" by fastforce
  have "hm_get (ds_memory ?st) (dc_primary example_disk example_key) = Some (example_item, ''old'')"
    by (simp add: hm_get_def example_disk_def)
  note m = memory_entry_never_changes [OF this a u]
  show ?thesis using conjunct1 [OF m] conjunct1 [OF conjunct2 [OF m]] a by auto
qed

end
