(* ===== verification/Http_Proxy.thy ===== *)
theory Http_Proxy
  imports Session Cert_Store
begin

text \<open>
  The proxy on port 80 (\<open>proxy_server/http_proxy.rs\<close>): a liveness answer, the ACME challenges
  and the redirect to HTTPS. It reads challenges through the store trait, so the operation
  \<open>get_challenge\<close> and the store's state are arguments. Building a URI is the parameter
  \<open>uri\<close>: from the scheme, the authority and the path with query to the text, if they are valid.
\<close>

section \<open>Operations\<close>

fun append_headers :: "'h hdr_ops \<Rightarrow> (string \<times> string) list \<Rightarrow> 'h \<Rightarrow> (string, 'h) res" where
  "append_headers H [] h = Ok h"
| "append_headers H ((k, v) # kvs) h = res_bind (ho_append H h k v) (append_headers H kvs)"

definition lift_err :: "('s, string, 'a) act \<Rightarrow> ('s, perr, 'a) act" where
  "lift_err m s = (case m s of (r, s') \<Rightarrow> (map_err PErr r, s'))"

definition respond_text ::
  "'h hdr_ops \<Rightarrow> nat \<Rightarrow> (string \<times> string) list \<Rightarrow> string \<Rightarrow> ('h Session \<times> 'c, perr, bool) act" where
  "respond_text H status extra body =
     lift_err (act_bind (act_res (append_headers H
         (extra @ [(''content-type'', ''text/plain''), (''content-length'', show_nat (length body))])
         (ho_build H status)))
       (\<lambda>h. act_then (write_response_header h False)
             (act_then (write_response_body body True) (act_res (Ok True)))))"

definition ACME_PATH :: string where
  "ACME_PATH = ''/.well-known/acme-challenge''"

definition serve_challenge ::
  "'h hdr_ops \<Rightarrow> string \<Rightarrow> (string \<times> string) option \<Rightarrow> ('h Session \<times> 'c, perr, bool) act" where
  "serve_challenge H path challenge_from_host =
     (case challenge_from_host of
        None \<Rightarrow> act_res (Err (HTTPStatus 404))
      | Some (token, prf) \<Rightarrow>
        (let token_from_url = last (split_on (CHR ''/'') path) in
         if token \<noteq> token_from_url then act_res (Err (HTTPStatus 404))
         else respond_text H 200 [] prf))"

datatype Scheme = HTTP | HTTPS

definition redirect_to_https ::
  "'h hdr_ops \<Rightarrow> (Scheme \<Rightarrow> string \<Rightarrow> string \<Rightarrow> string option) \<Rightarrow> string \<Rightarrow> string option \<Rightarrow>
   ('h Session \<times> 'c, perr, bool) act" where
  "redirect_to_https H uri host path_and_query =
     (case path_and_query of
        None \<Rightarrow> act_res (Panic ''called `Option::unwrap()` on a `None` value'')
      | Some pq \<Rightarrow>
        (case uri HTTPS host pq of
           None \<Rightarrow> act_res (Panic ''called `Result::unwrap()` on an `Err` value'')
         | Some new_uri \<Rightarrow> respond_text H 308 [(''location'', new_uri)] []))"

definition http_request_filter ::
  "'h hdr_ops \<Rightarrow> (Scheme \<Rightarrow> string \<Rightarrow> string \<Rightarrow> string option) \<Rightarrow>
   ('s \<Rightarrow> string \<Rightarrow> 's \<times> (string, (string \<times> string) option) res) \<Rightarrow>
   's \<Rightarrow> 'h Session \<times> unit \<Rightarrow> ((perr, bool) res \<times> 'h Session \<times> unit) \<times> 's" where
  "http_request_filter H uri get_challenge store st =
     (let s = fst st; host = get_host H s in
      if host = [] then ((Err (HTTPStatus 400), st), store)
      else if se_uri_path s = ''/ping'' then (respond_text H 200 [] ''pong'' st, store)
      else if starts_with ACME_PATH (se_uri_path s)
      then (case get_challenge store host of
              (store', Ok challenge) \<Rightarrow> (serve_challenge H (se_uri_path s) challenge st, store')
            | (store', Err e) \<Rightarrow> ((Err (PErr e), st), store')
            | (store', Panic m) \<Rightarrow> ((Panic m, st), store'))
      else (redirect_to_https H uri host (se_path_and_query s) st, store))"

definition http_upstream_peer :: "(perr, 'peer) res" where
  "http_upstream_peer = Err (HTTPStatus 404)"

section \<open>Lemmas\<close>

text \<open>How the \<open>http\<close> crate prints what it has built from a path that is not empty.\<close>

fun scheme_text :: "Scheme \<Rightarrow> string" where
  "scheme_text HTTP = ''http''"
| "scheme_text HTTPS = ''https''"

definition uri_laws :: "(Scheme \<Rightarrow> string \<Rightarrow> string \<Rightarrow> string option) \<Rightarrow> bool" where
  "uri_laws uri \<longleftrightarrow> (\<forall>scheme host pq u. uri scheme host (CHR ''/'' # pq) = Some u \<longrightarrow>
     u = scheme_text scheme @ ''://'' @ host @ CHR ''/'' # pq)"

definition example_uri :: "Scheme \<Rightarrow> string \<Rightarrow> string \<Rightarrow> string option" where
  "example_uri scheme host pq = Some (scheme_text scheme @ ''://'' @ host @ pq)"

lemma example_uri_laws: "uri_laws example_uri"
  by (simp add: uri_laws_def example_uri_def)

definition fine :: "'h Session \<times> 'c \<Rightarrow> bool" where
  "fine st \<longleftrightarrow> se_io (fst st) = (\<lambda>_. None)"

lemma respond_text_fine:
  assumes "fine st"
    and "append_headers H (extra @ [(''content-type'', ''text/plain''), (''content-length'', show_nat (length body))])
      (ho_build H status) = Ok h"
  shows "respond_text H status extra body st =
    (Ok True, ((fst st)\<lparr>se_sent := se_sent (fst st) @ [SentHeader h False, SentBody body True]\<rparr>, snd st))"
  using assms by (cases st) (simp add: fine_def respond_text_def lift_err_def session_writes send_down_def act_bind_def)

lemma respond_text_never_passes: "fst (respond_text H status extra body st) \<noteq> Ok False"
  by (simp add: respond_text_def lift_err_def act_bind_def split: prod.splits res.splits)

lemma append_headers_get:
  assumes "hdr_laws H" and "append_headers H kvs h = Ok h'"
  shows "ho_get H h' k = ho_get H h k @ map snd (filter (\<lambda>kv. to_lowercase (fst kv) = to_lowercase k) kvs)
    \<and> ho_status H h' = ho_status H h"
  using assms(2)
proof (induction kvs arbitrary: h)
  case (Cons kv kvs)
  obtain n v where kv: "kv = (n, v)" by fastforce
  with Cons.prems obtain h1 where h1: "ho_append H h n v = Ok h1" and r: "append_headers H kvs h1 = Ok h'"
    by (auto simp: res_bind_Ok_iff)
  show ?case
    unfolding kv using Cons.IH [OF r] hdr_append [OF assms(1) h1] by auto
qed simp

lemma acme_branch:
  assumes "get_host H (fst st) = host" and "host \<noteq> []" and "starts_with ACME_PATH (se_uri_path (fst st))"
    and "get_challenge store host = (store', Ok challenge)"
  shows "http_request_filter H uri get_challenge store st =
    (serve_challenge H (se_uri_path (fst st)) challenge st, store')"
proof -
  have "se_uri_path (fst st) \<noteq> ''/ping''" using assms(3) by (auto simp: ACME_PATH_def)
  with assms show ?thesis by (simp add: http_request_filter_def Let_def)
qed

lemma token_of_path:
  "CHR ''/'' \<notin> set token \<Longrightarrow> last (split_on (CHR ''/'') (p @ CHR ''/'' # token)) = token"
  by (simp add: split_on_append_general)

text \<open>Whatever the store: a challenge set for a host is served to requests for it.\<close>

context cert_store
begin

lemma serves_challenge_after_set:
  assumes "inv s" and "set_challenge s d t p = (s', Ok ())"
    and "get_host H (fst st) = d" and "d \<noteq> []" and "CHR ''/'' \<notin> set t"
    and "se_uri_path (fst st) = ACME_PATH @ CHR ''/'' # t" and "fine st"
    and "append_headers H [(''content-type'', ''text/plain''), (''content-length'', show_nat (length p))]
      (ho_build H 200) = Ok h"
  shows "fst (http_request_filter H uri get_challenge s' st) =
    (Ok True, ((fst st)\<lparr>se_sent := se_sent (fst st) @ [SentHeader h False, SentBody p True]\<rparr>, snd st))"
proof -
  obtain s'' where "get_challenge s' d = (s'', Ok (Some (t, p)))"
    using challenge_after_set(1) [OF assms(1,2)] by (metis prod.collapse)
  from acme_branch [where get_challenge = get_challenge, OF assms(3,4) _ this] have
    "http_request_filter H uri get_challenge s' st = (serve_challenge H (se_uri_path (fst st)) (Some (t, p)) st, s'')"
    using assms(6) by simp
  then show ?thesis
    using assms(5-8) respond_text_fine [OF assms(7), of H "[]" p 200 h]
    by (simp add: serve_challenge_def token_of_path)
qed

lemma other_host_gets_404:
  assumes "inv s" and "challenges_of s (get_host H (fst st)) = None" and "get_host H (fst st) \<noteq> []"
    and "starts_with ACME_PATH (se_uri_path (fst st))"
  shows "fst (http_request_filter H uri get_challenge s st) = (Err (HTTPStatus 404), st)"
proof -
  obtain s' where "get_challenge s (get_host H (fst st)) = (s', Ok None)"
    using get_challenge_spec [OF assms(1)] assms(2) by metis
  from acme_branch [where get_challenge = get_challenge, OF HOL.refl assms(3,4) this] show ?thesis by (simp add: serve_challenge_def)
qed

end

section \<open>Properties\<close>

text \<open>
  With the Redis store: once a challenge is stored for a domain, a request for that host and
  token is answered with 200 and exactly the proof as its body.
\<close>

theorem redis_challenge_is_served:
  assumes "redis_inv P s" and "redis_set_challenge P s d t p = (s', Ok ())"
    and "get_host H (fst st) = d" and "d \<noteq> []" and "CHR ''/'' \<notin> set t"
    and "se_uri_path (fst st) = ACME_PATH @ CHR ''/'' # t" and "fine st"
    and "append_headers H [(''content-type'', ''text/plain''), (''content-length'', show_nat (length p))]
      (ho_build H 200) = Ok h"
  shows "fst (http_request_filter H uri (redis_get_challenge P) s' st) =
    (Ok True, ((fst st)\<lparr>se_sent := se_sent (fst st) @ [SentHeader h False, SentBody p True]\<rparr>, snd st))"
  by (rule redis.serves_challenge_after_set [OF assms])

text \<open>
  The proxy on port 80 never forwards a request: every request is answered here or ends with an
  error, and there is no upstream to choose.
\<close>

theorem http_proxy_never_forwards:
  "fst (fst (http_request_filter H uri get_challenge store st)) \<noteq> Ok False \<and>
   http_upstream_peer = Err (HTTPStatus 404)"
  by (simp add: http_request_filter_def http_upstream_peer_def Let_def serve_challenge_def redirect_to_https_def
      respond_text_never_passes split: prod.splits res.splits option.splits)

text \<open>
  C31. A request that is neither a liveness nor a challenge request is answered with a permanent
  redirect whose only location is the HTTPS address of the same host, path and query.
\<close>

theorem http_redirects_to_https:
  assumes "hdr_laws H" and "fine st" and "get_host H (fst st) = host" and "host \<noteq> []"
    and "se_uri_path (fst st) \<noteq> ''/ping''" and "\<not> starts_with ACME_PATH (se_uri_path (fst st))"
    and "se_path_and_query (fst st) = Some (CHR ''/'' # pq)" and "uri_laws uri" and "uri HTTPS host (CHR ''/'' # pq) = Some target"
    and "append_headers H [(''location'', target), (''content-type'', ''text/plain''), (''content-length'', ''0'')]
      (ho_build H 308) = Ok h"
  shows "http_request_filter H uri get_challenge store st =
      ((Ok True, ((fst st)\<lparr>se_sent := se_sent (fst st) @ [SentHeader h False, SentBody [] True]\<rparr>, snd st)), store) \<and>
    ho_status H h = 308 \<and> ho_get H h ''Location'' = [''https://'' @ host @ CHR ''/'' # pq]"
proof -
  have target: "target = ''https://'' @ host @ CHR ''/'' # pq" using assms(8,9) unfolding uri_laws_def by fastforce
  have "show_nat 0 = ''0''" by (simp add: show_nat.simps char_of_eq_iff)
  then have "respond_text H 308 [(''location'', target)] [] st =
      (Ok True, ((fst st)\<lparr>se_sent := se_sent (fst st) @ [SentHeader h False, SentBody [] True]\<rparr>, snd st))"
    using assms(10) by (intro respond_text_fine [OF assms(2)]) simp
  moreover have "ho_status H h = 308 \<and> ho_get H h ''Location'' = [target]"
    using append_headers_get [OF assms(1,10), of "''Location''"] hdr_build [OF assms(1)]
    by (simp add: literal_simps)
  ultimately show ?thesis
    using assms(3-7,9) by (simp add: target http_request_filter_def Let_def redirect_to_https_def)
qed

text \<open>
  The challenge is looked up under the host with its port: after storing one for a domain, a
  request that names a port as well gets a 404.
\<close>

theorem challenge_with_port_is_404:
  assumes "get_host H (fst st) = d @ CHR '':'' # port" and "starts_with ACME_PATH (se_uri_path (fst st))"
  shows "fst (http_request_filter H uri memory_get_challenge (fst (memory_set_challenge memory_new d t p)) st) =
    (Err (HTTPStatus 404), st)"
  using assms by (intro memory.other_host_gets_404) (auto simp: memory_set_challenge_def memory_new_def)

text \<open>Concrete instances.\<close>

definition example_request :: "string \<Rightarrow> string \<Rightarrow> (nat \<times> (string \<times> string) list) Session \<times> unit" where
  "example_request host path = (\<lparr>se_method = ''GET'', se_uri_path = path, se_uri_query = None, se_uri_host = Some host,
     se_path_and_query = Some path, se_uri_string = path, se_header = (\<lambda>_. None), se_headers_all = (\<lambda>_. []),
     se_io = (\<lambda>_. None), se_cache = None, se_cache_max = None, se_sent = []\<rparr>, ())"

lemma example_request_simps [simp]:
  "get_host H (fst (example_request host path)) = host"
  "se_uri_path (fst (example_request host path)) = path"
  "se_path_and_query (fst (example_request host path)) = Some path"
  "fine (example_request host path)" "se_sent (fst (example_request host path)) = []"
  by (simp_all add: example_request_def get_host_def fine_def)

lemma example_append: "\<exists>h. append_headers example_hdr kvs (n, fs) = Ok h"
  by (induction kvs arbitrary: fs) (auto simp: example_hdr_def)

theorem redis_challenge_is_served_witness:
  "\<exists>s' h. redis_set_challenge example_pki example_replica ''a.io'' ''tok'' ''prf'' = (s', Ok ()) \<and>
    fst (http_request_filter example_hdr (\<lambda>_ _ _. None) (redis_get_challenge example_pki) s'
      (example_request ''a.io'' (ACME_PATH @ ''/tok''))) =
    (Ok True, ((fst (example_request ''a.io'' (ACME_PATH @ ''/tok'')))\<lparr>se_sent := [SentHeader h False, SentBody ''prf'' True]\<rparr>, ()))"
proof -
  obtain s' where s': "redis_set_challenge example_pki example_replica ''a.io'' ''tok'' ''prf'' = (s', Ok ())"
    by (simp add: redis_set_challenge_def example_replica_def example_redis_def example_pki_def)
  obtain h where h: "append_headers example_hdr
      [(''content-type'', ''text/plain''), (''content-length'', show_nat (length ''prf''))] (ho_build example_hdr 200) = Ok h"
    using example_append by (fastforce simp: example_hdr_def)
  let ?r = "example_request ''a.io'' (ACME_PATH @ ''/tok'')"
  have "fst (http_request_filter example_hdr (\<lambda>_ _ _. None) (redis_get_challenge example_pki) s' ?r) =
    (Ok True, ((fst ?r)\<lparr>se_sent := se_sent (fst ?r) @ [SentHeader h False, SentBody ''prf'' True]\<rparr>, snd ?r))"
    by (rule redis_challenge_is_served [OF example_replica_inv s' _ _ _ _ _ h]) simp_all
  then show ?thesis
    using s' by (intro exI [of _ s'] exI [of _ h]) simp
qed

theorem http_redirects_to_https_witness:
  "\<exists>h. http_request_filter example_hdr example_uri memory_get_challenge (memory_new :: unit MemoryStore)
      (example_request ''a.io'' ''/x'') =
     ((Ok True, ((fst (example_request ''a.io'' ''/x''))\<lparr>se_sent := [SentHeader h False, SentBody [] True]\<rparr>, ())), memory_new) \<and>
    ho_get example_hdr h ''Location'' = [''https://a.io/x'']"
proof -
  obtain h where h: "append_headers example_hdr
      [(''location'', ''https://a.io/x''), (''content-type'', ''text/plain''), (''content-length'', ''0'')]
      (ho_build example_hdr 308) = Ok h"
    using example_append by (fastforce simp: example_hdr_def)
  let ?r = "example_request ''a.io'' ''/x''"
  have "http_request_filter example_hdr example_uri memory_get_challenge (memory_new :: unit MemoryStore) ?r =
      ((Ok True, ((fst ?r)\<lparr>se_sent := se_sent (fst ?r) @ [SentHeader h False, SentBody [] True]\<rparr>, snd ?r)), memory_new) \<and>
    ho_status example_hdr h = 308 \<and> ho_get example_hdr h ''Location'' = [''https://a.io/x'']"
    using http_redirects_to_https [OF example_hdr_laws _ _ _ _ _ _ example_uri_laws _ h, of ?r "''a.io''" "''x''"]
    by (simp add: ACME_PATH_def example_uri_def)
  then show ?thesis
    by (intro exI [of _ h]) simp
qed

theorem challenge_with_port_is_404_witness:
  "fst (http_request_filter example_hdr (\<lambda>_ _ _. None) memory_get_challenge
     (fst (memory_set_challenge memory_new ''a.io'' ''t'' ''p'')) (example_request ''a.io:80'' (ACME_PATH @ ''/t''))) =
   (Err (HTTPStatus 404), example_request ''a.io:80'' (ACME_PATH @ ''/t''))"
  by (rule challenge_with_port_is_404 [where port = "''80''"]) simp_all

end
