(* ===== verification/Tls_Callback.thy ===== *)
theory Tls_Callback
  imports Cert_Store
begin

text \<open>
  Choosing the certificate of a TLS handshake (\<open>proxy_server/cert_store.rs\<close>). The handshake is
  an openssl value \<open>'ssl\<close>; what the callback calls on it is the parameter \<open>ssl_ops\<close>. The
  certificate is read through the store trait.
\<close>

record ('ssl, 'k, 'x) ssl_ops =
  sl_servername :: "'ssl \<Rightarrow> string option"
  sl_use_private_key :: "'ssl \<Rightarrow> 'k \<Rightarrow> 'ssl option"
  sl_use_certificate :: "'ssl \<Rightarrow> 'x \<Rightarrow> 'ssl option"
  sl_add_chain_cert :: "'ssl \<Rightarrow> 'x \<Rightarrow> 'ssl option"

definition sni_callback :: "('ssl, 'k, 'x) ssl_ops \<Rightarrow> 'ssl \<Rightarrow> (string, unit) res" where
  "sni_callback L ssl = (let servername = unwrap_or [] (sl_servername L ssl) in Ok ())"

definition unwrap_ssl :: "'ssl option \<Rightarrow> (string, 'ssl) res" where
  "unwrap_ssl r = (case r of Some s \<Rightarrow> Ok s | None \<Rightarrow> Panic ''called `Result::unwrap()` on an `Err` value'')"

definition certificate_callback ::
  "('ssl, 'k, 'x) ssl_ops \<Rightarrow> ('s \<Rightarrow> string \<Rightarrow> 's \<times> (string, ('k, 'x) Certificate option) res) \<Rightarrow>
   's \<Rightarrow> 'ssl \<Rightarrow> 's \<times> (string, 'ssl) res" where
  "certificate_callback L get_certificate store ssl =
     (let host_name = unwrap_or [] (sl_servername L ssl) in
      case get_certificate store host_name of
        (store', Ok None) \<Rightarrow> (store', Ok ssl)
      | (store', Err e) \<Rightarrow> (store', Err e)
      | (store', Panic m) \<Rightarrow> (store', Panic m)
      | (store', Ok (Some cert)) \<Rightarrow>
          (store',
           res_bind (unwrap_ssl (sl_use_private_key L ssl (ce_key cert))) (\<lambda>ssl.
           res_bind (unwrap_ssl (sl_use_certificate L ssl (ce_leaf cert))) (\<lambda>ssl.
           (case ce_chain cert of
              Some chain \<Rightarrow> unwrap_ssl (sl_add_chain_cert L ssl chain)
            | None \<Rightarrow> Ok ssl)))))"

text \<open>A handshake as the server name and what has been set.\<close>

record ('k, 'x) handshake =
  hk_name :: "string option"
  hk_key :: "'k option"
  hk_leaf :: "'x option"
  hk_chain :: "'x list"

definition example_ssl :: "(('k, 'x) handshake, 'k, 'x) ssl_ops" where
  "example_ssl = \<lparr>sl_servername = hk_name, sl_use_private_key = (\<lambda>s k. Some (s\<lparr>hk_key := Some k\<rparr>)),
     sl_use_certificate = (\<lambda>s x. Some (s\<lparr>hk_leaf := Some x\<rparr>)),
     sl_add_chain_cert = (\<lambda>s x. Some (s\<lparr>hk_chain := hk_chain s @ [x]\<rparr>))\<rparr>"

text \<open>
  What openssl documents: the two setters and the chain leave the rest of the handshake alone, as
  read through the observers \<open>key\<close>, \<open>leaf\<close> and \<open>chain\<close>.
\<close>

definition ssl_laws ::
  "('ssl, 'k, 'x) ssl_ops \<Rightarrow> ('ssl \<Rightarrow> 'k option) \<Rightarrow> ('ssl \<Rightarrow> 'x option) \<Rightarrow> ('ssl \<Rightarrow> 'x list) \<Rightarrow> bool" where
  "ssl_laws L key leaf chain \<longleftrightarrow>
     (\<forall>s k s'. sl_use_private_key L s k = Some s' \<longrightarrow> key s' = Some k \<and> leaf s' = leaf s \<and> chain s' = chain s) \<and>
     (\<forall>s x s'. sl_use_certificate L s x = Some s' \<longrightarrow> key s' = key s \<and> leaf s' = Some x \<and> chain s' = chain s) \<and>
     (\<forall>s x s'. sl_add_chain_cert L s x = Some s' \<longrightarrow> key s' = key s \<and> leaf s' = leaf s \<and> chain s' = chain s @ [x])"

lemma example_ssl_laws: "ssl_laws example_ssl hk_key hk_leaf hk_chain"
  by (auto simp: ssl_laws_def example_ssl_def)

lemma callback_with_certificate:
  assumes "ssl_laws L key leaf chain" and "get_certificate store (unwrap_or [] (sl_servername L ssl)) = (store', Ok (Some c))"
    and "certificate_callback L get_certificate store ssl = (store'', Ok ssl')"
  shows "key ssl' = Some (ce_key c) \<and> leaf ssl' = Some (ce_leaf c) \<and>
    chain ssl' = chain ssl @ (case ce_chain c of Some x \<Rightarrow> [x] | None \<Rightarrow> [])"
proof -
  obtain s1 s2 where s1: "sl_use_private_key L ssl (ce_key c) = Some s1"
    and s2: "sl_use_certificate L s1 (ce_leaf c) = Some s2"
    and s3: "(case ce_chain c of Some chain \<Rightarrow> unwrap_ssl (sl_add_chain_cert L s2 chain) | None \<Rightarrow> Ok s2) = Ok ssl'"
    using assms(2,3)
    by (auto simp: certificate_callback_def res_bind_Ok_iff unwrap_ssl_def split: option.splits)
  show ?thesis
    using assms(1) s1 s2 s3
    by (cases "ce_chain c") (auto simp: ssl_laws_def unwrap_ssl_def split: option.splits)
qed

text \<open>
  What openssl accepts: a private key, then the certificate it belongs to, then the certificate of its
  issuer. Which certificates of the store are of this kind is the parameter \<open>fits\<close>.
\<close>

definition ssl_accepts :: "('ssl, 'k, 'x) ssl_ops \<Rightarrow> (('k, 'x) Certificate \<Rightarrow> bool) \<Rightarrow> bool" where
  "ssl_accepts L fits \<longleftrightarrow> (\<forall>ssl c. fits c \<longrightarrow> (\<exists>s1 s2. sl_use_private_key L ssl (ce_key c) = Some s1 \<and>
     sl_use_certificate L s1 (ce_leaf c) = Some s2 \<and> (\<forall>x. ce_chain c = Some x \<longrightarrow> sl_add_chain_cert L s2 x \<noteq> None)))"

lemma example_ssl_accepts: "ssl_accepts example_ssl fits"
  by (simp add: ssl_accepts_def example_ssl_def)

lemma callback_works:
  assumes "ssl_laws L key leaf chain" and "ssl_accepts L fits" and "fits c" and "sl_servername L ssl = Some host"
    and "get_certificate s host = (s', Ok (Some c))"
  shows "\<exists>ssl'. certificate_callback L get_certificate s ssl = (s', Ok ssl') \<and>
    key ssl' = Some (ce_key c) \<and> leaf ssl' = Some (ce_leaf c)"
proof -
  obtain s1 s2 where s1: "sl_use_private_key L ssl (ce_key c) = Some s1" and s2: "sl_use_certificate L s1 (ce_leaf c) = Some s2"
    and chain: "\<forall>x. ce_chain c = Some x \<longrightarrow> sl_add_chain_cert L s2 x \<noteq> None"
    using assms(2,3) unfolding ssl_accepts_def by blast
  have "\<exists>ssl'. (case ce_chain c of Some x \<Rightarrow> unwrap_ssl (sl_add_chain_cert L s2 x) | None \<Rightarrow> Ok s2) = Ok ssl'"
    using chain by (cases "ce_chain c") (auto simp: unwrap_ssl_def)
  then obtain ssl' where "certificate_callback L get_certificate s ssl = (s', Ok ssl')"
    using assms(4,5) s1 s2 by (auto simp: certificate_callback_def unwrap_ssl_def)
  with callback_with_certificate [OF assms(1) _ this, of s' c] assms(4,5) show ?thesis by auto
qed

text \<open>The store trait at the certificates a handshake can use.\<close>

locale tls_store =
  cert_store get_certificate set_certificate get_certificates get_challenge set_challenge certs_of challenges_of inv
  for get_certificate :: "'s \<Rightarrow> string \<Rightarrow> 's \<times> (string, ('k, 'x) Certificate option) res"
    and set_certificate get_certificates get_challenge set_challenge certs_of challenges_of inv
begin

lemma handshake_after_set:
  assumes "inv s" and "set_certificate s d c = (s', Ok ())" and "ssl_laws L key leaf chain"
    and "sl_servername L ssl = Some d" and "certificate_callback L get_certificate s' ssl = (s'', Ok ssl')"
  shows "key ssl' = Some (ce_key c) \<and> leaf ssl' = Some (ce_leaf c) \<and>
    chain ssl' = chain ssl @ (case ce_chain c of Some x \<Rightarrow> [x] | None \<Rightarrow> [])"
proof -
  obtain s1 where "get_certificate s' d = (s1, Ok (Some c))"
    using get_after_set(1) [OF assms(1,2)] by (metis prod.collapse)
  then show ?thesis
    using assms(4) by (intro callback_with_certificate [OF assms(3) _ assms(5)]) simp
qed

end

interpretation memory_tls: tls_store
  memory_get_certificate memory_set_certificate memory_get_certificates
  memory_get_challenge memory_set_challenge
  "\<lambda>s. hm_get (ms_certs s)" "\<lambda>s. hm_get (ms_challenges s)" "\<lambda>_. True"
  by unfold_locales

interpretation redis_tls: tls_store
  "redis_get_certificate P" "redis_set_certificate P" "redis_get_certificates P"
  "redis_get_challenge P" "redis_set_challenge P"
  "redis_certs_of P" "redis_challenges_of P" "redis_inv P" for P
  by unfold_locales

text \<open>
  After a certificate is stored for a domain in the Redis store, a handshake that names the
  domain presents exactly that key, leaf and chain.
\<close>

theorem redis_handshake_presents_stored:
  assumes "redis_inv P s" and "redis_set_certificate P s d c = (s', Ok ())" and "ssl_laws L key leaf chain"
    and "sl_servername L ssl = Some d"
    and "certificate_callback L (redis_get_certificate P) s' ssl = (s'', Ok ssl')"
  shows "key ssl' = Some (ce_key c) \<and> leaf ssl' = Some (ce_leaf c) \<and>
    chain ssl' = chain ssl @ (case ce_chain c of Some x \<Rightarrow> [x] | None \<Rightarrow> [])"
  by (rule redis_tls.handshake_after_set [OF assms])

theorem redis_handshake_presents_stored_witness:
  "\<exists>s' s'' ssl'. redis_set_certificate example_pki example_replica ''a.com'' example_cert = (s', Ok ()) \<and>
     certificate_callback example_ssl (redis_get_certificate example_pki) s'
       \<lparr>hk_name = Some ''a.com'', hk_key = None, hk_leaf = None, hk_chain = []\<rparr> = (s'', Ok ssl') \<and>
     hk_leaf ssl' = Some (ce_leaf example_cert)"
proof -
  let ?hs = "\<lparr>hk_name = Some ''a.com'', hk_key = None, hk_leaf = None, hk_chain = []\<rparr>"
  obtain s' where s': "redis_set_certificate example_pki example_replica ''a.com'' example_cert = (s', Ok ())"
    using example_set_certificate by blast
  obtain s1 where "redis_get_certificate example_pki s' ''a.com'' = (s1, Ok (Some example_cert))"
    using redis.get_after_set(1) [OF example_replica_inv s'] by (metis prod.collapse)
  then obtain ssl' where c: "certificate_callback example_ssl (redis_get_certificate example_pki) s' ?hs = (s1, Ok ssl')"
    by (simp add: certificate_callback_def example_ssl_def unwrap_ssl_def example_cert_def)
  from redis_handshake_presents_stored [OF example_replica_inv s' example_ssl_laws _ this]
  have "hk_leaf ssl' = Some (ce_leaf example_cert)" by (simp add: example_ssl_def)
  with s' c show ?thesis by blast
qed

end
