(* ===== verification/System.thy ===== *)
theory System
  imports Docker_Labels Lets_Encrypt Tls_Callback Router
begin

text \<open>
  The running process: the background services of \<open>services/mod.rs\<close> (\<open>BackgroundFunctionService\<close>)
  and the router, over the tables they share. The services are polled as one task, so what a
  service does between two suspensions is one step: a Docker round sends all its messages, the
  routing service handles one message, the health check reads a container and later puts it back,
  the two loops of the Let's Encrypt service handle one host. Requests are handled on other
  threads; they read the tables and register cache paths. The message channel is tokio's: a receiver
  that is behind by more than the channel's capacity \<open>cap\<close> is told that it lagged.
\<close>

section \<open>State and steps\<close>

record ('lb, 's, 'w) system =
  sy_routes :: "'lb RouteStore"
  sy_checking :: "(string \<times> 'lb RouteStoreContainer) option"
  sy_channel :: "MsgProxy list"
  sy_listening :: bool
  sy_store :: 's
  sy_world :: 'w
  sy_cache_paths :: cache_routing

text \<open>The state after the configured routes have been added, before the first message.\<close>

definition system_start ::
  "('lb, 'b) disc_ext \<Rightarrow> ('k, 'x) pki \<Rightarrow> ('s, ('k, 'x) Certificate) store_ops \<Rightarrow> (string \<Rightarrow> string option) \<Rightarrow>
   ConfigT \<Rightarrow> 's \<Rightarrow> 'w \<Rightarrow> (string, ('lb, 's, 'w) system) res" where
  "system_start X P S read_file config store w =
     (case add_routes_from_config X (add_route_ssl_to_store P read_file (so_set_certificate S)) (cf_routes config) store [] of
        (store', r) \<Rightarrow> res_bind r (\<lambda>routes. Ok
          \<lparr>sy_routes = routes, sy_checking = None, sy_channel = [], sy_listening = True, sy_store = store',
           sy_world = w, sy_cache_paths = []\<rparr>))"

inductive system_step ::
  "('lb, 'b) disc_ext \<Rightarrow> docker_ext \<Rightarrow> ConfigT \<Rightarrow> nat \<Rightarrow> ('w, 'o, 'csr, 'oc, 'k, 'x) acme \<Rightarrow> ('k, 'x) pki \<Rightarrow>
   ('s, ('k, 'x) Certificate) store_ops \<Rightarrow> 'h plugin_env \<Rightarrow> ('lb, 'm) router_ext \<Rightarrow>
   ('lb, 's, 'w) system \<Rightarrow> ('lb, 's, 'w) system \<Rightarrow> bool"
  for X D config cap A P S E R where
  docker_round: "get_routes_from_docker D config answers = Ok hosts \<Longrightarrow>
    system_step X D config cap A P S E R s (s\<lparr>sy_channel := sy_channel s @ send_route_message hosts\<rparr>)"
| receive: "sy_listening s \<Longrightarrow> sy_channel s = NewRoute msg # rest \<Longrightarrow> length (sy_channel s) \<le> cap \<Longrightarrow>
    watch_for_route_changes X msg (sy_routes s) = Ok routes' \<Longrightarrow>
    system_step X D config cap A P S E R s (s\<lparr>sy_routes := routes', sy_channel := rest\<rparr>)"
| lagged: "sy_listening s \<Longrightarrow> cap < length (sy_channel s) \<Longrightarrow>
    system_step X D config cap A P S E R s (s\<lparr>sy_listening := False\<rparr>)"
| check_start: "sy_checking s = None \<Longrightarrow> (host, rc) \<in> set (get_routes (sy_routes s)) \<Longrightarrow>
    system_step X D config cap A P S E R s (s\<lparr>sy_checking := Some (host, rc)\<rparr>)"
| check_done: "sy_checking s = Some (host, rc) \<Longrightarrow>
    system_step X D config cap A P S E R s (s\<lparr>sy_routes := insert_route host rc (sy_routes s), sy_checking := None\<rparr>)"
| certify: "(host, rc) \<in> set (get_routes (sy_routes s)) \<Longrightarrow>
    watch_round A P S [(host, rc)] (sy_store s, sy_world s) = Some (r, (store', w')) \<Longrightarrow>
    system_step X D config cap A P S E R s (s\<lparr>sy_store := store', sy_world := w'\<rparr>)"
| renew: "(host, rc) \<in> set (get_routes (sy_routes s)) \<Longrightarrow>
    renew_round A P S [(host, rc)] (sy_store s, sy_world s) = Some (r, (store', w')) \<Longrightarrow>
    system_step X D config cap A P S E R s (s\<lparr>sy_store := store', sy_world := w'\<rparr>)"
| request: "router_request_filter E R (sy_routes s) st (sy_cache_paths s) = (r, st', paths') \<Longrightarrow>
    system_step X D config cap A P S E R s (s\<lparr>sy_cache_paths := paths'\<rparr>)"

abbreviation routed :: "('lb, 's, 'w) system \<Rightarrow> string \<Rightarrow> bool" where
  "routed s host \<equiv> get_route_by_key (sy_routes s) host \<noteq> None"

section \<open>Lemmas\<close>

text \<open>What a request does to the cache paths: at most it registers the path of its own, routed host.\<close>

lemma request_registers_routed_host:
  assumes "router_request_filter E R routes st crt = (r, st', crt')" and "get_cache_routing_by_key crt' h \<noteq> None"
  shows "get_cache_routing_by_key crt h \<noteq> None \<or> get_route_by_key routes h \<noteq> None"
proof (cases "crt' = crt")
  case False
  let ?host = "host_without_port (pe_hdr E) (fst st)"
  have "\<not> (case get_route_by_key routes ?host of None \<Rightarrow> True | Some rc \<Rightarrow> path_rejected R rc (se_uri_path (fst st)))"
    using router_not_found [where routes = routes and E = E and st = st and X = R and crt = crt] assms(1) False by (auto split: prod.splits)
  then obtain rc where rc: "get_route_by_key routes ?host = Some rc" "\<not> path_rejected R rc (se_uri_path (fst st))"
    by (auto split: option.splits)
  obtain r1 st1 where x: "execute_request_plugins E (co_plugins rc) (with_host (pe_hdr E) st) = (r1, st1)"
    by (rule prod.exhaust)
  have host: "rx_host (snd st1) = ?host"
    using act_keepsD [OF execute_keeps x] by (simp add: plugin_frame_def)
  obtain s c crt1 where e: "enable_cache rc st1 crt = ((s, c), crt1)" by (metis prod.exhaust)
  have "crt' = crt1"
    using router_found [OF rc x, of crt] assms(1) False e by (auto split: res.splits if_splits)
  with e assms(2) host rc(1) show ?thesis
    by (auto simp: enable_cache_def insert_cache_routing_def get_cache_routing_by_key_def split: option.splits if_splits)
qed (use assms(2) in simp)

lemma docker_sends_routes: "m \<in> set (send_route_message hosts) \<Longrightarrow> \<exists>r. m = NewRoute r"
  by (auto simp: send_route_message_map)

lemma routed_entry: "(host, rc) \<in> set (get_routes (sy_routes s)) \<Longrightarrow> routed s host"
  by (auto simp: get_routes_def get_route_by_key_def hm_get_def dest: weak_map_of_SomeI)

text \<open>Every step keeps the hosts that have a route.\<close>

lemma system_step_keeps_hosts:
  "system_step X D config cap A P S E R s s' \<Longrightarrow> routed s h \<Longrightarrow> routed s' h"
  by (induction rule: system_step.induct) (auto simp: watch_is_add dest: add_route_keeps_hosts)

lemma system_keeps_hosts:
  "(system_step X D config cap A P S E R)\<^sup>*\<^sup>* s s' \<Longrightarrow> routed s h \<Longrightarrow> routed s' h"
  by (induction rule: rtranclp_induct) (auto dest: system_step_keeps_hosts)

text \<open>The configured routes add certificates only for hosts whose route names a certificate of its own.\<close>

definition own_certificate :: "ConfigT \<Rightarrow> string \<Rightarrow> bool" where
  "own_certificate config host \<longleftrightarrow>
     (\<exists>route\<in>set (cf_routes config). ro_host route = host \<and> Option.bind (ro_ssl route) rs_path \<noteq> None)"

section \<open>The invariant\<close>

text \<open>
  Table and health check are consistent, the channel carries routes only, and certificates and cache
  paths belong to routed hosts or, for certificates, to hosts of \<open>own\<close>. \<open>store_inv\<close> and \<open>certs_of\<close> are
  the store's.
\<close>

definition system_ok ::
  "('s \<Rightarrow> bool) \<Rightarrow> ('s \<Rightarrow> string \<Rightarrow> 'c option) \<Rightarrow> ('lb, 'b) disc_ext \<Rightarrow> (string \<Rightarrow> bool) \<Rightarrow> ('lb, 's, 'w) system \<Rightarrow> bool" where
  "system_ok store_inv certs_of X own s \<longleftrightarrow>
     state_ok X \<lparr>ts_routes = sy_routes s, ts_checking = sy_checking s\<rparr> \<and>
     (\<forall>m\<in>set (sy_channel s). \<exists>r. m = NewRoute r) \<and> store_inv (sy_store s) \<and>
     (\<forall>d. certs_of (sy_store s) d \<noteq> None \<longrightarrow> routed s d \<or> own d) \<and>
     (\<forall>h. get_cache_routing_by_key (sy_cache_paths s) h \<noteq> None \<longrightarrow> routed s h)"

context acme_store
begin

lemma table_step_ok:
  assumes "system_ok inv certs_of X own s" and "table_step X \<lparr>ts_routes = sy_routes s, ts_checking = sy_checking s\<rparr>
      \<lparr>ts_routes = routes', ts_checking = checking'\<rparr>"
  shows "state_ok X \<lparr>ts_routes = routes', ts_checking = checking'\<rparr>"
    and "routed s h \<Longrightarrow> get_route_by_key routes' h \<noteq> None"
  using step_preserves [OF assms(2)] step_keeps_hosts [OF assms(2), of h] assms(1) by (auto simp: system_ok_def)

lemma store_update_ok:
  assumes "system_ok inv certs_of X own s" and "inv store'"
    and "\<forall>d. certs_of store' d \<noteq> certs_of (sy_store s) d \<longrightarrow> routed s d"
  shows "system_ok inv certs_of X own (s\<lparr>sy_store := store', sy_world := w'\<rparr>)"
  using assms by (auto simp: system_ok_def) metis+

lemma table_update_ok:
  assumes "system_ok inv certs_of X own s" and "table_step X \<lparr>ts_routes = sy_routes s, ts_checking = sy_checking s\<rparr>
      \<lparr>ts_routes = routes', ts_checking = checking'\<rparr>" and "set channel' \<subseteq> set (sy_channel s)"
  shows "system_ok inv certs_of X own (s\<lparr>sy_routes := routes', sy_checking := checking', sy_channel := channel'\<rparr>)"
  using assms(1,3) table_step_ok [OF assms(1,2)] by (auto simp: system_ok_def)

lemma system_step_ok:
  assumes "system_step X D config cap A P S E R s s'" and "system_ok inv certs_of X own s"
  shows "system_ok inv certs_of X own s'"
  using assms
proof (induction rule: system_step.induct)
  case (docker_round answers hosts s)
  then show ?case by (auto simp: system_ok_def dest: docker_sends_routes)
next
  case (receive s msg rest routes')
  have "table_step X \<lparr>ts_routes = sy_routes s, ts_checking = sy_checking s\<rparr> \<lparr>ts_routes = routes', ts_checking = sy_checking s\<rparr>"
    using table_step.message [of X msg "\<lparr>ts_routes = sy_routes s, ts_checking = sy_checking s\<rparr>" routes'] receive(4) by simp
  from table_update_ok [OF receive.prems this, of rest] receive(2) show ?case by auto
next
  case (check_start s host rc)
  have "table_step X \<lparr>ts_routes = sy_routes s, ts_checking = sy_checking s\<rparr> \<lparr>ts_routes = sy_routes s, ts_checking = Some (host, rc)\<rparr>"
    using table_step.check_start [of host rc "\<lparr>ts_routes = sy_routes s, ts_checking = sy_checking s\<rparr>" X] check_start(2) by simp
  from table_update_ok [OF check_start.prems this, of "sy_channel s"] show ?case by simp
next
  case (check_done s host rc)
  have "table_step X \<lparr>ts_routes = sy_routes s, ts_checking = sy_checking s\<rparr>
      \<lparr>ts_routes = insert_route host rc (sy_routes s), ts_checking = None\<rparr>"
    using table_step.check_done [of "\<lparr>ts_routes = sy_routes s, ts_checking = sy_checking s\<rparr>" host rc X] check_done(1) by simp
  from table_update_ok [OF check_done.prems this, of "sy_channel s"] show ?case by simp
next
  case (certify host rc s r store' w')
  have "inv (sy_store s)" using certify.prems by (simp add: system_ok_def)
  from watch_round_result [OF this certify(2)] routed_entry [OF certify(1)] show ?case
    by (intro store_update_ok [OF certify.prems]) auto
next
  case (renew host rc s r store' w')
  have "inv (sy_store s)" using renew.prems by (simp add: system_ok_def)
  from renew_round_result [OF this renew(2)] routed_entry [OF renew(1)] show ?case
    by (intro store_update_ok [OF renew.prems]) auto
next
  case (request s st r st' paths')
  have "routed s h" if "get_cache_routing_by_key paths' h \<noteq> None" for h
    using request_registers_routed_host [OF request(1) that] request.prems by (auto simp: system_ok_def)
  with request.prems show ?case by (simp add: system_ok_def)
qed (auto simp: system_ok_def)

lemma system_steps_ok:
  "(system_step X D config cap A P S E R)\<^sup>*\<^sup>* s s' \<Longrightarrow> system_ok inv certs_of X own s \<Longrightarrow> system_ok inv certs_of X own s'"
  by (induction rule: rtranclp_induct) (auto intro: system_step_ok)

lemma add_ssl_result:
  assumes "inv s" and "add_route_ssl_to_store P read_file (so_set_certificate S) route s = (s', r)"
  shows "inv s' \<and> (\<forall>d. certs_of s' d \<noteq> certs_of s d \<longrightarrow> d = ro_host route \<and> Option.bind (ro_ssl route) rs_path \<noteq> None)"
proof (cases "s' = s")
  case False
  then obtain c where some: "Option.bind (ro_ssl route) rs_path \<noteq> None"
    and "fst (so_set_certificate S s (ro_host route) c) = s'"
    using assms(2) by (auto simp: add_route_ssl_to_store_def split: option.splits res.splits prod.splits) (metis fst_conv)+
  then obtain r1 where set: "so_set_certificate S s (ro_host route) c = (s', r1)" by (metis prod.collapse)
  with set_certificate_fails [OF set] False have "r1 = Ok ()" by blast
  with set_certificate_spec [OF assms(1)] set some show ?thesis by auto
qed (use assms(1) in simp)

lemma add_routes_result:
  "inv s \<Longrightarrow> table_ok X routes \<Longrightarrow>
   add_routes_from_config X (add_route_ssl_to_store P read_file (so_set_certificate S)) rs s routes = (s', Ok routes') \<Longrightarrow>
   inv s' \<and> table_ok X routes' \<and> (\<forall>d. certs_of s' d \<noteq> certs_of s d \<longrightarrow>
     (\<exists>route\<in>set rs. ro_host route = d \<and> Option.bind (ro_ssl route) rs_path \<noteq> None))"
proof (induction rs arbitrary: s routes)
  case (Cons route rs)
  obtain s1 r1 where ssl: "add_route_ssl_to_store P read_file (so_set_certificate S) route s = (s1, r1)" by fastforce
  note s1 = add_ssl_result [OF Cons.prems(1) ssl]
  obtain routes1 where add: "add_route_to_router X (ro_host route) (ro_upstreams route) (ro_match_with route) (ro_headers route)
      (ro_plugins route) (ro_cache route) (self_signed_of route) routes = Ok routes1"
    and rest: "add_routes_from_config X (add_route_ssl_to_store P read_file (so_set_certificate S)) rs s1 routes1 = (s', Ok routes')"
    using Cons.prems(3) ssl by (auto split: res.splits)
  have "table_ok X routes1" by (rule add_route_preserves [OF add Cons.prems(2)])
  from Cons.IH [OF _ this rest] s1 show ?case by (simp, metis)
qed auto

lemma system_start_ok:
  assumes "inv store" and "system_start X P S read_file config store w = Ok s"
  shows "system_ok inv certs_of X (\<lambda>d. certs_of store d \<noteq> None \<or> own_certificate config d) s"
proof -
  obtain store' routes where add: "add_routes_from_config X (add_route_ssl_to_store P read_file (so_set_certificate S))
      (cf_routes config) store [] = (store', Ok routes)"
    and s: "s = \<lparr>sy_routes = routes, sy_checking = None, sy_channel = [], sy_listening = True, sy_store = store',
      sy_world = w, sy_cache_paths = []\<rparr>"
    using assms(2) by (auto simp: system_start_def res_bind_Ok_iff split: prod.splits)
  have "table_ok X []" by (simp add: table_ok_def get_route_by_key_def)
  note added = add_routes_result [OF assms(1) this add]
  then have "\<forall>d. certs_of store' d \<noteq> None \<longrightarrow> certs_of store d \<noteq> None \<or> own_certificate config d"
    unfolding own_certificate_def by metis
  with added show ?thesis
    by (simp add: s system_ok_def state_ok_def get_cache_routing_by_key_def)
qed

lemma reachable_system_ok:
  assumes "inv store" and "system_start X P S read_file config store w = Ok s0"
    and "(system_step X D config cap A P S E R)\<^sup>*\<^sup>* s0 s"
  shows "system_ok inv certs_of X (\<lambda>d. certs_of store d \<noteq> None \<or> own_certificate config d) s"
  by (rule system_steps_ok [OF assms(3) system_start_ok [OF assms(1,2)]])

end

section \<open>A full channel\<close>

text \<open>Once the receiver is behind by more than the capacity, no message is handled any more.\<close>

definition deaf :: "nat \<Rightarrow> ('lb, 's, 'w) system \<Rightarrow> bool" where
  "deaf cap s \<longleftrightarrow> \<not> sy_listening s \<or> cap < length (sy_channel s)"

definition checked_ok :: "('lb, 's, 'w) system \<Rightarrow> bool" where
  "checked_ok s \<longleftrightarrow> (\<forall>h rc. sy_checking s = Some (h, rc) \<longrightarrow> routed s h)"

lemma checked_step:
  assumes "system_step X D config cap A P S E R s s'" and "checked_ok s"
  shows "checked_ok s'"
  using assms(1)
proof cases
  case (check_start host rc)
  with routed_entry [OF check_start(3)] show ?thesis by (simp add: checked_ok_def)
qed (use assms system_step_keeps_hosts [OF assms(1)] in \<open>auto simp: checked_ok_def\<close>)

lemma reachable_checked:
  assumes "system_start X P S read_file config store w = Ok s0" and "(system_step X D config cap A P S E R)\<^sup>*\<^sup>* s0 s"
  shows "checked_ok s"
  using assms(2)
proof (induction rule: rtranclp_induct)
  case base
  from assms(1) show ?case by (auto simp: system_start_def res_bind_Ok_iff checked_ok_def split: prod.splits)
qed (auto intro: checked_step)

lemma deaf_step:
  assumes "system_step X D config cap A P S E R s s'" and "deaf cap s" and "checked_ok s"
  shows "deaf cap s'" and "routed s' h \<longleftrightarrow> routed s h"
  using assms by (auto simp: deaf_def checked_ok_def elim!: system_step.cases split: if_splits)

lemma deaf_steps:
  "(system_step X D config cap A P S E R)\<^sup>*\<^sup>* s s' \<Longrightarrow> deaf cap s \<Longrightarrow> checked_ok s \<Longrightarrow>
   deaf cap s' \<and> checked_ok s' \<and> (routed s' h \<longleftrightarrow> routed s h)"
proof (induction rule: rtranclp_induct)
  case (step t u)
  then have t: "deaf cap t" "checked_ok t" "routed t h \<longleftrightarrow> routed s h" by simp_all
  show ?case using deaf_step [OF step.hyps(2) t(1,2)] checked_step [OF step.hyps(2) t(2)] t(3) by simp
qed simp

section \<open>Delivery\<close>

lemma deliver_messages:
  assumes "route_loop X (map (\<lambda>m. Received (NewRoute m)) ms) (sy_routes s) = Ok routes'"
    and "sy_channel s = map NewRoute ms" and "sy_listening s" and "length ms \<le> cap"
  shows "(system_step X D config cap A P S E R)\<^sup>*\<^sup>* s (s\<lparr>sy_routes := routes', sy_channel := []\<rparr>)"
  using assms
proof (induction ms arbitrary: s)
  case Nil
  then have "s\<lparr>sy_routes := routes', sy_channel := []\<rparr> = s" by simp
  then show ?case by simp
next
  case (Cons m ms)
  obtain t where t: "watch_for_route_changes X m (sy_routes s) = Ok t"
    "route_loop X (map (\<lambda>m. Received (NewRoute m)) ms) t = Ok routes'"
    using Cons.prems(1) by (auto simp: res_bind_Ok_iff)
  let ?s1 = "s\<lparr>sy_routes := t, sy_channel := map NewRoute ms\<rparr>"
  have "system_step X D config cap A P S E R s ?s1"
    using Cons.prems t(1) by (intro system_step.receive) auto
  moreover have "(system_step X D config cap A P S E R)\<^sup>*\<^sup>* ?s1 (?s1\<lparr>sy_routes := routes', sy_channel := []\<rparr>)"
    using Cons.prems t(2) by (intro Cons.IH) auto
  ultimately show ?case by (simp add: converse_rtranclp_into_rtranclp)
qed

section \<open>A concrete process\<close>

definition disc_router :: "(string list, unit) router_ext" where
  "disc_router = \<lparr>re_path_find = (\<lambda>_ _. True), re_select = (\<lambda>lb. Some (Inet ''10.0.0.1'' 80)),
     re_resolve = (\<lambda>_. Some [(''10.0.0.1'', 80)]), re_b64_encode = example_enc, re_is_fresh = (\<lambda>_ _. True)\<rparr>"

text \<open>The process with the default configuration, which has no routes, and a Docker round with one container.\<close>

definition example_started :: "'s \<Rightarrow> 'w \<Rightarrow> (string list, 's, 'w) system" where
  "example_started store w = \<lparr>sy_routes = [], sy_checking = None, sy_channel = [], sy_listening = True,
     sy_store = store, sy_world = w, sy_cache_paths = []\<rparr>"

definition example_answers :: docker_answers where
  "example_answers = \<lparr>da_services = (\<lambda>_. None), da_containers = (\<lambda>_. Some [example_ct 1])\<rparr>"

lemma example_start: "system_start example_disc P S read_file default_Config store w = Ok (example_started store w)"
  by (simp add: system_start_def example_started_def default_Config_def)

lemma example_mode: "dk_mode (cf_docker default_Config) = Container"
  by (simp add: default_Config_def default_Docker_def)

lemma example_host_route:
  "\<exists>r. host_route example_docker [example_ct 1] ''a.io'' = Some r \<and> pd_upstreams r = [show_ipv4 10 0 0 1 @ '':80'']"
  by (simp add: host_route_def example_ct_serves example_ct_addresses container_route_def docker_route_new_def)

lemma example_round:
  "\<exists>hosts. get_routes_from_docker example_docker default_Config example_answers = Ok hosts \<and> send_route_message hosts \<noteq> []"
proof -
  have c: "\<forall>ct\<in>set [example_ct 1]. container_complete ct" using example_ct_complete by simp
  obtain hosts where "get_routes_from_docker example_docker default_Config example_answers = Ok hosts"
    "hm_get hosts = host_route example_docker [example_ct 1]"
    using add_containers_result [OF c, of "[]" example_docker]
    by (auto simp: get_routes_from_docker_def example_mode example_answers_def list_containers_def)
  with example_host_route announcement_of [of hosts "''a.io''"] show ?thesis
    by (fastforce simp: send_route_message_announcements)
qed

lemma example_headers: "headers_valid example_disc add"
  by (simp add: headers_valid_def example_disc_def)

section \<open>Properties\<close>

text \<open>
  C10. However the background services and the requests interleave, over a working Redis store: every
  container in the table satisfies the table's invariant, so does the one the health check holds,
  whose host still has a route; the channel carries only routes; a certificate can be read only for a
  host that has a route, names a certificate in the configuration, or had one before the start; cache
  paths are registered for routed hosts only.
\<close>

theorem reachable_system_is_consistent:
  assumes "redis_inv P store" and "system_start X P (redis_ops P) read_file config store w = Ok s0"
    and "(system_step X D config cap A P (redis_ops P) E R)\<^sup>*\<^sup>* s0 s"
  shows "table_ok X (sy_routes s) \<and>
    (\<forall>h rc. sy_checking s = Some (h, rc) \<longrightarrow> route_ok X rc \<and> routed s h) \<and>
    (\<forall>m\<in>set (sy_channel s). \<exists>r. m = NewRoute r) \<and>
    (\<forall>d c. snd (redis_get_certificate P (sy_store s) d) = Ok (Some c) \<longrightarrow>
       routed s d \<or> own_certificate config d \<or> snd (redis_get_certificate P store d) \<noteq> Ok None) \<and>
    (\<forall>h. get_cache_routing_by_key (sy_cache_paths s) h \<noteq> None \<longrightarrow> routed s h)"
proof -
  note ok = redis_acme.reachable_system_ok [OF assms]
  have read: "snd (redis_get_certificate P t d) = Ok (redis_certs_of P t d)" if "redis_inv P t" for t d
    using redis_get_certificate_spec [OF that, of d] by auto
  have "redis_inv P (sy_store s)" using ok by (simp add: system_ok_def)
  note read = read [OF this] read [OF assms(1)]
  show ?thesis using ok unfolding system_ok_def state_ok_def read by (simp, metis option.distinct(1))
qed

theorem reachable_system_is_consistent_witness:
  "\<exists>s. (system_step example_disc example_docker default_Config 16 example_acme example_pki (redis_ops example_pki)
       example_env disc_router)\<^sup>*\<^sup>* (example_started example_replica example_world) s \<and> sy_channel s \<noteq> [] \<and>
     table_ok example_disc (sy_routes s) \<and> (\<forall>m\<in>set (sy_channel s). \<exists>r. m = NewRoute r)"
proof -
  obtain hosts where "get_routes_from_docker example_docker default_Config example_answers = Ok hosts" "send_route_message hosts \<noteq> []"
    using example_round by blast
  from system_step.docker_round [OF this(1)] this(2) obtain s where
    s: "(system_step example_disc example_docker default_Config 16 example_acme example_pki (redis_ops example_pki)
      example_env disc_router)\<^sup>*\<^sup>* (example_started example_replica example_world) s" "sy_channel s \<noteq> []"
    by (metis append_is_Nil_conv r_into_rtranclp system.select_convs(3) system.surjective system.update_convs(3))
  from reachable_system_is_consistent [OF example_replica_inv example_start this(1)] s show ?thesis by blast
qed

text \<open>
  C6. A client that asks for a host which has no route, names no certificate in the configuration
  and had none before the start is given no certificate: the callback leaves its handshake alone.
\<close>

theorem unknown_host_gets_no_certificate:
  assumes "redis_inv P store" and "system_start X P (redis_ops P) read_file config store w = Ok s0"
    and "(system_step X D config cap A P (redis_ops P) E R)\<^sup>*\<^sup>* s0 s"
    and "sl_servername L ssl = Some host" and "\<not> routed s host" and "\<not> own_certificate config host"
    and "snd (redis_get_certificate P store host) = Ok None"
  shows "snd (certificate_callback L (redis_get_certificate P) (sy_store s) ssl) = Ok ssl"
proof -
  note ok = redis_acme.reachable_system_ok [OF assms(1-3)]
  then have inv: "redis_inv P (sy_store s)" by (simp add: system_ok_def)
  have "redis_certs_of P store host = None"
    using redis_get_certificate_spec [OF assms(1), of host] assms(7) by auto
  with ok assms(5,6) have "redis_certs_of P (sy_store s) host = None" by (auto simp: system_ok_def)
  with redis_get_certificate_spec [OF inv, of host] assms(4) show ?thesis
    by (auto simp: certificate_callback_def)
qed

theorem unknown_host_gets_no_certificate_witness:
  "snd (certificate_callback example_ssl (redis_get_certificate example_pki) (sy_store (example_started example_replica example_world))
     \<lparr>hk_name = Some ''b.io'', hk_key = None, hk_leaf = None, hk_chain = []\<rparr>) =
   Ok \<lparr>hk_name = Some ''b.io'', hk_key = None, hk_leaf = None, hk_chain = []\<rparr>"
  by (rule unknown_host_gets_no_certificate [where s = "example_started example_replica example_world" and host = "''b.io''",
        OF example_replica_inv example_start rtranclp.rtrancl_refl])
    (simp_all add: example_ssl_def example_started_def get_route_by_key_def hm_get_def own_certificate_def default_Config_def
      redis_get_certificate_def load_from_redis_def example_replica_def example_redis_def)

text \<open>
  C9. From a state in which the routing service waits on an empty channel, a Docker round with no
  more messages than the channel holds, their delivery and one step of the Let's Encrypt service lead
  to a state where a newly labelled host is routed to the labelled upstreams and handshakes for it
  complete with the certificate stored for it.
\<close>

theorem labelled_container_gets_route_and_certificate:
  assumes "sy_listening s" and "sy_channel s = []" and "dk_mode (cf_docker config) = Container"
    and "da_containers answers FILTERS = Some cts" and "\<forall>ct\<in>set cts. container_complete ct"
    and "get_routes_from_docker D config answers = Ok hosts"
    and "host_route D cts host = Some r" and "pd_upstreams r \<noteq> []"
    and "length (send_route_message hosts) \<le> cap"
    and "\<forall>msg\<in>set (announcements hosts). headers_valid X (mr_host_headers_add msg)"
    and "get_route_by_key (sy_routes s) host = None"
    and "dx_try_from X (map upstream_addr (message_upstreams X (pd_upstreams r))) = Some lb"
    and "ca_laws A P fits V" and "ssl_laws L key leaf chain" and "ssl_accepts L fits"
    and "\<And>c. hm_get (ms_certs (sy_store s)) host = Some c \<Longrightarrow> fits c"
  shows "\<exists>s'. (system_step X D config cap A P memory_ops E R)\<^sup>*\<^sup>* s s' \<and>
    (\<exists>rc. get_route_by_key (sy_routes s') host = Some rc \<and> co_upstreams rc = message_upstreams X (pd_upstreams r)) \<and>
    (\<forall>ssl. sl_servername L ssl = Some host \<longrightarrow> (\<exists>c ssl'. hm_get (ms_certs (sy_store s')) host = Some c \<and>
       certificate_callback L memory_get_certificate (sy_store s') ssl = (sy_store s', Ok ssl') \<and>
       key ssl' = Some (ce_key c) \<and> leaf ssl' = Some (ce_leaf c)))"
proof -
  let ?step = "system_step X D config cap A P memory_ops E R"
  have hosts: "hm_wf hosts" "hm_get hosts host = Some r"
    using add_containers_result [OF assms(5), of "[]" D] assms(3,4,6,7) by (auto simp: get_routes_from_docker_def list_containers_def)
  obtain routes' where loop: "route_loop X (map (\<lambda>m. Received (NewRoute m)) (announcements hosts)) (sy_routes s) = Ok routes'"
    using route_loop_total [OF assms(10)] by blast
  have "route_loop X (map Received (send_route_message hosts)) (sy_routes s) = Ok routes'"
    using loop by (simp add: send_route_message_announcements comp_def)
  from announced_host_is_routed [OF hosts assms(8) this assms(11,12)]
  obtain rc where rc: "get_route_by_key routes' host = Some rc" "co_upstreams rc = message_upstreams X (pd_upstreams r)" by blast
  let ?s1 = "s\<lparr>sy_channel := send_route_message hosts\<rparr>"
  let ?s2 = "?s1\<lparr>sy_routes := routes', sy_channel := []\<rparr>"
  have "?step s ?s1" using system_step.docker_round [OF assms(6), of X cap A P memory_ops E R s] assms(2) by simp
  moreover have "?step\<^sup>*\<^sup>* ?s1 ?s2"
    using assms(1,9) loop
    by (intro deliver_messages [where ms = "announcements hosts"]) (simp_all add: send_route_message_announcements)
  moreover obtain store' w' where run: "watch_round A P memory_ops [(host, rc)] (sy_store s, sy_world s) = Some (Ok (), (store', w'))"
    and certs: "\<And>d. if d \<in> fst ` set [(host, rc)] \<and> hm_get (ms_certs (sy_store s)) d = None
      then \<exists>c. hm_get (ms_certs store') d = Some c \<and> delivered P V w' d c \<and> fits c
      else hm_get (ms_certs store') d = hm_get (ms_certs (sy_store s)) d \<and> cv_saved V w' d = cv_saved V (sy_world s) d"
    using memory_acme.watch_round_covers [OF assms(13), where routes = "[(host, rc)]" and s = "sy_store s" and w = "sy_world s"] by blast
  have "?step ?s2 (?s2\<lparr>sy_store := store', sy_world := w'\<rparr>)"
    using rc(1) run by (intro system_step.certify [of host rc]) (auto simp: get_routes_def get_route_by_key_def dest: hm_get_SomeD)
  ultimately have steps: "?step\<^sup>*\<^sup>* s (?s2\<lparr>sy_store := store', sy_world := w'\<rparr>)" by simp
  obtain c where c: "hm_get (ms_certs store') host = Some c" "fits c"
    using certs [of host] assms(16) by (cases "hm_get (ms_certs (sy_store s)) host") auto
  then have "memory_get_certificate store' host = (store', Ok (Some c))" by (simp add: memory_get_certificate_def)
  from callback_works [OF assms(14,15) c(2), of _ host memory_get_certificate, OF _ this] c(1) rc
  show ?thesis by (intro exI [of _ "?s2\<lparr>sy_store := store', sy_world := w'\<rparr>"] conjI steps) auto
qed

theorem labelled_container_gets_route_and_certificate_witness:
  "\<exists>cap s' ssl'. (system_step example_disc example_docker default_Config cap example_acme example_pki memory_ops
       example_env disc_router)\<^sup>*\<^sup>* (example_started memory_new example_world) s' \<and> routed s' ''a.io'' \<and>
     certificate_callback example_ssl memory_get_certificate (sy_store s')
       \<lparr>hk_name = Some ''a.io'', hk_key = None, hk_leaf = None, hk_chain = []\<rparr> = (sy_store s', Ok ssl') \<and> hk_key ssl' \<noteq> None"
proof -
  let ?ssl = "\<lparr>hk_name = Some ''a.io'', hk_key = None, hk_leaf = None, hk_chain = []\<rparr>"
  have name: "sl_servername example_ssl ?ssl = Some ''a.io''" by (simp add: example_ssl_def)
  obtain hosts where hosts: "get_routes_from_docker example_docker default_Config example_answers = Ok hosts" using example_round by blast
  obtain r where r: "host_route example_docker [example_ct 1] ''a.io'' = Some r" "pd_upstreams r \<noteq> []" using example_host_route by auto
  have lb: "dx_try_from example_disc us = Some us" for us by (simp add: example_disc_def)
  have start: "sy_listening (example_started memory_new example_world)" "sy_channel (example_started memory_new example_world) = []"
    "get_route_by_key (sy_routes (example_started memory_new example_world)) ''a.io'' = None"
    "da_containers example_answers FILTERS = Some [example_ct 1]"
    by (simp_all add: example_started_def get_route_by_key_def example_answers_def)
  have new: "hm_get (ms_certs (sy_store (example_started memory_new example_world))) ''a.io'' = Some c \<Longrightarrow> ce_key c = ''key''"
    for c :: "(string, string) Certificate"
    by (simp add: example_started_def memory_new_def)
  have c: "\<forall>ct\<in>set [example_ct 1]. container_complete ct" using example_ct_complete by simp
  have h: "\<forall>msg\<in>set (announcements hosts). headers_valid example_disc (mr_host_headers_add msg)" using example_headers by blast
  from labelled_container_gets_route_and_certificate [OF start(1,2) example_mode start(4) c hosts r order_refl h start(3) lb
      example_acme_laws example_ssl_laws example_ssl_accepts new, of example_env disc_router] name
  show ?thesis by fastforce
qed

text \<open>
  C36. A Docker round whose messages make the routing service fall behind by more than the channel's
  capacity ends discovery: no host that has no route then ever gets one.
\<close>

theorem large_docker_round_ends_discovery:
  assumes "system_start X P S read_file config store w = Ok s0"
    and "(system_step X D config cap A P S E R)\<^sup>*\<^sup>* s0 s"
    and "get_routes_from_docker D config answers = Ok hosts"
    and "cap < length (sy_channel s) + length (send_route_message hosts)"
    and "(system_step X D config cap A P S E R)\<^sup>*\<^sup>* (s\<lparr>sy_channel := sy_channel s @ send_route_message hosts\<rparr>) s'"
  shows "routed s' host \<longleftrightarrow> routed s host"
proof -
  let ?s1 = "s\<lparr>sy_channel := sy_channel s @ send_route_message hosts\<rparr>"
  have "checked_ok ?s1" by (rule checked_step [OF system_step.docker_round [OF assms(3)] reachable_checked [OF assms(1,2)]])
  moreover have "deaf cap ?s1" using assms(4) by (simp add: deaf_def)
  ultimately show ?thesis using deaf_steps [OF assms(5), of host] by simp
qed

theorem large_docker_round_ends_discovery_witness:
  "\<exists>s s'. (system_step example_disc example_docker default_Config 1 example_acme example_pki memory_ops
       example_env disc_router)\<^sup>*\<^sup>* (example_started memory_new example_world) s \<and> sy_channel s \<noteq> [] \<and>
     (system_step example_disc example_docker default_Config 1 example_acme example_pki memory_ops
       example_env disc_router)\<^sup>*\<^sup>* s s' \<and> \<not> sy_listening s' \<and> \<not> routed s' ''a.io''"
proof -
  let ?step = "system_step example_disc example_docker default_Config 1 example_acme example_pki memory_ops example_env disc_router"
  obtain hosts where hosts: "get_routes_from_docker example_docker default_Config example_answers = Ok hosts" "send_route_message hosts \<noteq> []"
    using example_round by blast
  let ?s0 = "example_started (memory_new :: (string, string) Certificate MemoryStore) example_world"
  let ?s1 = "?s0\<lparr>sy_channel := sy_channel ?s0 @ send_route_message hosts\<rparr>"
  let ?s2 = "?s1\<lparr>sy_channel := sy_channel ?s1 @ send_route_message hosts\<rparr>"
  have s1: "?step\<^sup>*\<^sup>* ?s0 ?s1" by (rule r_into_rtranclp, rule system_step.docker_round [OF hosts(1)])
  have s2: "?step ?s1 ?s2" by (rule system_step.docker_round [OF hosts(1)])
  have full: "1 < length (sy_channel ?s1) + length (send_route_message hosts)"
    using hosts(2) by (cases "send_route_message hosts") (auto simp: example_started_def)
  then have lag: "?step\<^sup>*\<^sup>* ?s2 (?s2\<lparr>sy_listening := False\<rparr>)"
    by (intro r_into_rtranclp [where r = ?step] system_step.lagged) (simp_all add: example_started_def)
  have "\<not> routed ?s1 ''a.io''" by (simp add: example_started_def get_route_by_key_def)
  then have "\<not> routed (?s2\<lparr>sy_listening := False\<rparr>) ''a.io''"
    using large_docker_round_ends_discovery [OF example_start s1 hosts(1) full lag, of "''a.io''"] by simp
  moreover have "?step\<^sup>*\<^sup>* ?s1 (?s2\<lparr>sy_listening := False\<rparr>)" by (rule converse_rtranclp_into_rtranclp [OF s2 lag])
  ultimately show ?thesis
    using s1 hosts(2) by (intro exI [of _ ?s1] exI [of _ "?s2\<lparr>sy_listening := False\<rparr>"]) simp
qed

end
