(* ===== verification/Spec2Isabelle.thy ===== *)
theory Spec2Isabelle
  imports Startup Store_Refinement Access_Log Disk_Cache Http_Proxy System
begin

text \<open>
  A model of proksi, a reverse proxy that discovers its routes from a configuration and from Docker
  labels, obtains certificates from Let's Encrypt and runs plugins on requests. All sources are under
  \<open>src/crates/proksi/src\<close>.

  \<^bold>\<open>The program and its parts.\<close> \<open>main.rs\<close> loads and validates a configuration, chooses the certificate
  store and hands four services to pingora's server: a group of background services, the logger,
  a proxy on port 80 and the router on port 443. The background services write two shared tables,
  the routes and the certificates; the two proxies read them. A request on port 443 goes through
  the TLS callback (certificates), the router's request filter (routes, path patterns, plugins,
  cache switch), the choice of a peer, the header filters and the access log.

  \<^bold>\<open>Theories, in the order of their imports.\<close>
  \<^item> \<open>Prelude\<close>: results with errors and panics (\<open>res\<close>), state-passing actions (\<open>act\<close>), hash maps as
    association lists with distinct keys (\<open>hmap\<close>), collections of simplification rules.
  \<^item> \<open>Rust_Std\<close>: what the sources use of Rust's strings, numbers, UTF-8 and paths, on strings as lists
    of bytes. \<open>Net_Addr\<close>: the standard parser of socket addresses.
  \<^item> \<open>Config\<close>, \<open>Config_Load\<close>: \<open>config/mod.rs\<close>, \<open>config/validate.rs\<close>. Every structure with its defaults
    and custom decoders, validation, the order of the sources.
  \<^item> \<open>Certificates\<close>, \<open>Cert_Store\<close>: \<open>stores/certificates.rs\<close>, \<open>memory_store.rs\<close>, \<open>redis_store.rs\<close>,
    \<open>store_trait.rs\<close>, \<open>global.rs\<close>. The trait is the locale \<open>cert_store\<close>, interpreted for both stores.
  \<^item> \<open>Route_Store\<close>: \<open>stores/mod.rs\<close>, \<open>routes.rs\<close>, \<open>cache.rs\<close>.
  \<^item> \<open>Session\<close>: pingora's request session and the plugin trait (\<open>plugins/mod.rs\<close>) as the locales
    \<open>middleware_plugin\<close>, \<open>strict_plugin\<close> and \<open>write_frame\<close>, interpreted by the plugins.
  \<^item> \<open>Basic_Auth\<close>, \<open>Request_Id\<close>, \<open>Oauth2_Users\<close>, \<open>Oauth2\<close>: \<open>plugins/\<close>. \<open>Middleware\<close>:
    \<open>proxy_server/middleware.rs\<close>, the loops over the plugins of a route.
  \<^item> \<open>Router\<close>: \<open>proxy_server/https_proxy.rs\<close>; \<open>Access_Log\<close>: its access log. \<open>Http_Proxy\<close>:
    \<open>proxy_server/http_proxy.rs\<close>. \<open>Tls_Callback\<close>: \<open>proxy_server/cert_store.rs\<close>, with the locale \<open>tls_store\<close>.
  \<^item> \<open>Disk_Cache\<close>: \<open>cache/disk\<close>.
  \<^item> \<open>Discovery\<close>: \<open>services/discovery/mod.rs\<close>, \<open>services/health_check/mod.rs\<close> and the messages of
    \<open>main.rs\<close>. \<open>Docker_Labels\<close>: \<open>services/docker/mod.rs\<close>.
  \<^item> \<open>Acme_Storage\<close>, \<open>Lets_Encrypt\<close>: \<open>services/letsencrypt\<close>, with the locales \<open>acme_store\<close> (the store
    trait and failed writes) and \<open>reliable_store\<close>. \<open>Store_Refinement\<close>: the specification of the store
    trait as two maps and the simulation of both stores, proved once in these locales.
  \<^item> \<open>Logger\<close>: \<open>services/logger\<close>. \<open>Startup\<close>: \<open>main.rs\<close>, \<open>services/mod.rs\<close>, \<open>services/config/mod.rs\<close>,
    \<open>config/hcl.rs\<close>.
  \<^item> \<open>System\<close>: the running process. A state of the shared tables, the message channel and the store, and
    one step relation for the services of \<open>services/mod.rs\<close> and the requests, made of the operations
    of the theories above.
  \<^item> This theory: properties that span components.

  \<^bold>\<open>How code is modelled.\<close> Structures are records, enums are datatypes, \<open>u16\<close> and \<open>u32\<close> are words. A
  fallible function returns \<open>Ok\<close>, \<open>Err\<close> or, for \<open>unwrap\<close>, \<open>expect\<close> and out of range accesses,
  \<open>Panic\<close>. What changes state takes and returns the state. Third-party code and the outside world
  (pingora, openssl, redis, figment, hcl, serde, the ACME client, Docker, the file system, clocks,
  resolvers) are parameters: records of functions with an opaque state; what is relied on is stated
  as a predicate on the record (\<open>redis_laws\<close>, \<open>hdr_laws\<close>, \<open>disk_laws\<close>, \<open>pairs_laws\<close>, \<open>uri_laws\<close>,
  \<open>ssl_laws\<close>, \<open>ssl_accepts\<close>, \<open>ca_laws\<close>, \<open>buffered_laws\<close>), and every such predicate is shown to hold
  of a concrete instance used in the witnesses. The ones that carry a liveness property:
  \<^item> \<open>ca_laws\<close>: the authority counts a domain as validated only after a validation during which the
    domain's challenge was served, a refresh brings an order closer to confirmation only when all its
    domains are validated, and the certificate delivered is a leaf and a chain in PEM that fit the key.
    So the order ends because the code stores the challenge and validates it, not by assumption.
  \<^item> \<open>served\<close> is what the authority sees of the store: an argument of the model for the fetch from
    port 80, proved equal to the answer of \<open>http_request_filter\<close>.
  \<^item> \<open>ssl_accepts\<close>: openssl takes a key and the certificates that fit it, not any.
  \<^item> \<open>disk_laws\<close>: \<open>tokio::fs\<close> completes the writes of a file in the background. A body write is queued and
    lands in \<open>complete_writes\<close>, in any order; only opened files and metadata are there at once.
  \<^item> \<open>buffered_laws\<close>: tokio's \<open>BufWriter\<close> holds what it took until it is flushed, and what it holds when
    it is replaced is lost.
  \<^item> \<open>redis_laws\<close> describe a server that keeps its keys: see below.

  \<^bold>\<open>What is shown.\<close>
  \<^item> Requests: which requests the router forwards, to which peers, with which headers; what each
    plugin lets pass and what it answers; that the order of plugins is irrelevant; that OAuth2
    cookies are set for authorized users only.
  \<^item> Routes: every configured route is installed; in every reachable interleaving of the routing
    service with the health check the table is consistent and no host disappears; the loops over
    Docker labels and listings implement abstract descriptions without loops.
  \<^item> Certificates: every run of either store is a run of the specification, replicas share certificates, an order ends
    and stores the downloaded certificate, the watch loop replaces no certificate and the renewal loop
    exactly those that are about to expire.
  \<^item> Cache, logs, configuration: round trip of the disk cache once its writes are complete, rotations
    that lose no log message, rotation dates, exact conditions of validation.
  \<^item> The whole process: in every reachable state tables, channel, store and cache paths agree, and a
    host that is not routed gets no certificate; a labelled container gets its route and certificate;
    a Docker round that exceeds the channel's capacity ends discovery.
  \<^item> Across components (below): labels to credentials and to peers, challenges to the answers on port
    80, routes to completed handshakes.
  Where the code behaves differently from its comments or documentation the behaviour is stated as a
  theorem too.

  \<^bold>\<open>Loops and bounds.\<close> Loops over data are structural recursions. The polling loop of an order may not
  end and is a \<open>partial_function\<close>; \<open>order_completes\<close> shows that it ends when a refresh brings a
  validated order closer to confirmation. Endless service loops are given by one round and by runs over finite
  lists of inputs of any length; in \<open>System\<close> they are steps that may be taken in any order, and
  what a service does between two suspensions is one step. The channel's capacity is a parameter
  (\<open>main.rs\<close> asks for 10, which tokio rounds up to 16). Nested HCL imports carry the depth still allowed; depth 0 is the
  stack overflow of a file that imports itself.

  \<^bold>\<open>Not modelled.\<close> The internals of the parameters above; the exact text of logs other than the access
  log; the expiry of a challenge in redis (\<open>redis_store.rs\<close> asks for 300 seconds), a redis write that fails but
  takes effect, and reads that fail while the pool is up; the \<open>flush\<close> of standard output; command-line parsing (clap); trait
  methods that return constants (service names, thread counts, \<open>can_seek\<close>); the unused
  placeholder of a plugin session (\<open>wasm/\<close>), empty modules, the bindings generated for WebAssembly plugins, and benchmarks.
\<close>

section \<open>From labels to credentials\<close>

text \<open>The plugin that the credentials labels of a swarm service configure.\<close>

lemma labelled_basic_auth:
  assumes "lv_basic_user vars = Some user" and "lv_basic_password vars = Some pass"
  shows "\<exists>p config. (''basic_auth'', p) \<in> set (insert_plugins (service_plugins vars) []) \<and>
    rp_config p = Some config \<and> get_auth_config config = Some (user, pass)"
proof -
  let ?config = "hm_insert ''pass'' (JString pass) (hm_insert ''user'' (JString user) [])"
  let ?p = "\<lparr>rp_name = ''basic_auth'', rp_config = Some ?config\<rparr>"
  have "find (\<lambda>q. rp_name q = ''basic_auth'') (rev (service_plugins vars)) = Some ?p"
    using assms by (simp add: service_plugins_def)
  then have "hm_get (insert_plugins (service_plugins vars) []) ''basic_auth'' = Some ?p"
    by (simp add: insert_plugins_get KNOWN_PLUGINS_def)
  then have "(''basic_auth'', ?p) \<in> set (insert_plugins (service_plugins vars) [])"
    by (rule hm_get_SomeD)
  moreover have "get_auth_config ?config = Some (user, pass)"
    by (simp add: get_auth_config_def)
  ultimately show ?thesis by (intro exI [of _ ?p] exI [of _ ?config]) simp
qed

text \<open>The route of a labelled swarm service, once a round of the Docker service has been received.\<close>

lemma labelled_service_is_routed:
  assumes "\<forall>sv\<in>set svs. service_complete sv" and "find (service_serves D host) svs = Some sv"
    and "list_services D (Some svs) = Ok hosts"
    and "route_loop X (map Received (send_route_message hosts)) routes = Ok routes'"
    and "get_route_by_key routes host = None"
    and "dx_try_from X (map upstream_addr (message_upstreams X
      [''tasks.'' @ service_name sv @ '':'' @ lv_port (service_vars_of D sv)])) = Some lb"
  shows "\<exists>rc. get_route_by_key routes' host = Some rc \<and>
    co_plugins rc = insert_plugins (service_plugins (service_vars_of D sv)) []"
proof -
  let ?r = "service_route (service_name sv) (service_vars_of D sv)"
  have hosts: "hm_wf hosts" "hm_get hosts host = Some ?r"
    using add_services_result [OF assms(1), of "[]" D] assms(2,3) by (auto simp: list_services_def swarm_route_def)
  have r: "pd_upstreams ?r = [''tasks.'' @ service_name sv @ '':'' @ lv_port (service_vars_of D sv)]"
    "pd_plugins ?r = Some (service_plugins (service_vars_of D sv))"
    by (simp_all add: service_route_def)
  from announced_host_is_routed [OF hosts _ assms(4,5)] assms(6) show ?thesis by (auto simp: r)
qed

text \<open>
  C1. A swarm service labelled with a user and a password is protected by them: once the routing
  service has received a round of the Docker service, a request for the service's host with a
  readable \<open>Authorization\<close> header is forwarded only if the header carries these credentials.
\<close>

theorem labelled_service_requires_credentials:
  assumes "\<forall>sv\<in>set svs. service_complete sv" and "find (service_serves D host) svs = Some sv"
    and "dsv_spec sv = Some (Some name, Some labels)"
    and "hm_get labels ''proksi.plugins.basic_auth.user'' = Some user"
    and "hm_get labels ''proksi.plugins.basic_auth.password'' = Some pass"
    and "list_services D (Some svs) = Ok hosts"
    and "route_loop X (map Received (send_route_message hosts)) routes = Ok routes'"
    and "get_route_by_key routes host = None"
    and "dx_try_from X (map upstream_addr (message_upstreams X
      [''tasks.'' @ name @ '':'' @ lv_port (service_vars D labels)])) = Some lb"
    and "host_without_port (pe_hdr E) (fst st) = host" and "se_io (fst st) = (\<lambda>_. None)"
    and "\<And>rc p m. get_route_by_key routes' host = Some rc \<Longrightarrow> p \<in> set (co_plugins rc) \<Longrightarrow>
      plugin_verdict E (with_host (pe_hdr E) st) p \<noteq> Panic m"
    and "se_header (fst st) ''authorization'' = Some v" and "ho_to_str (pe_hdr E) v = Some h"
    and "validate_auth_header (pe_b64 E) h user pass = Ok b"
    and "\<exists>a. respond_with_authenticate (pe_hdr E) host = Ok a"
    and "router_request_filter E R routes' st crt = (Ok False, st', crt')"
  shows "authorized (pe_b64 E) h user pass"
proof -
  have vars: "service_vars_of D sv = service_vars D labels" "service_name sv = name"
    using assms(3) by (simp_all add: service_vars_of_def service_name_def)
  have creds: "lv_basic_user (service_vars D labels) = Some user" "lv_basic_password (service_vars D labels) = Some pass"
    using assms(4,5) by (simp_all add: service_vars_def)
  obtain rc where rc: "get_route_by_key routes' host = Some rc"
    "co_plugins rc = insert_plugins (service_plugins (service_vars D labels)) []"
    using labelled_service_is_routed [OF assms(1,2,6,7,8)] assms(9) by (auto simp: vars)
  obtain p config where p: "(''basic_auth'', p) \<in> set (co_plugins rc)" "rp_config p = Some config"
    "get_auth_config config = Some (user, pass)"
    using labelled_basic_auth [OF creds] rc(2) by auto
  have st: "fst (with_host (pe_hdr E) st) = fst st" "rx_host (snd (with_host (pe_hdr E) st)) = host"
    using assms(10) by (simp_all add: with_host_def)
  have "fst (execute_request_plugins E (co_plugins rc) (with_host (pe_hdr E) st)) = Ok False"
    using assms(17)
  proof (cases rule: router_forward_cases)
    case (1 rc' st1)
    with rc(1) assms(10) show ?thesis by simp
  qed
  then show ?thesis
    using assms(11-16) st rc(1)
    by (intro basic_auth_blocks [where st = "with_host (pe_hdr E) st" and v = v, OF _ _ _ p]) auto
qed

text \<open>A concrete service and a request for it.\<close>

definition secured_labels :: "(string, string) hmap" where
  "secured_labels = [(''proksi.port'', ''80''), (''proksi.enabled'', ''true''), (''proksi.host'', ''a.io''),
     (''proksi.plugins.basic_auth.user'', ''u''), (''proksi.plugins.basic_auth.password'', ''p'')]"

definition secured_service :: service where
  "secured_service = \<lparr>dsv_id = Some ''1'', dsv_spec = Some (Some ''web'', Some secured_labels)\<rparr>"

definition secured_header :: string where
  "secured_header = ''Basic '' @ example_enc ''u:p''"

definition secured_request :: "(nat \<times> (string \<times> string) list, string list) rstate" where
  "secured_request = (example_session\<lparr>se_header := (\<lambda>n. Some (if n = ''authorization'' then secured_header else ''a.io''))\<rparr>, new_ctx [] 0)"

lemma secured_request_simps [simp]:
  "host_without_port (pe_hdr example_env) (fst secured_request) = ''a.io''"
  "se_io (fst secured_request) = (\<lambda>_. None)"
  "se_header (fst secured_request) ''authorization'' = Some secured_header"
  by (simp_all add: secured_request_def host_without_port_def get_host_def example_session_def example_env_def example_hdr_def)

lemma secured_header_valid:
  "ho_to_str (pe_hdr example_env) secured_header = Some secured_header"
  "validate_auth_header (pe_b64 example_env) secured_header ''u'' ''p'' = Ok True"
  by (simp_all add: secured_header_def example_env_def example_hdr_def validate_auth_header_True
      trim_start_matches.simps example_enc_def from_utf8_ascii decodes_to_def)

lemma secured_plugin_passes:
  assumes "rp_config p = Some config" and "get_auth_config config = Some (''u'', ''p'')"
    and "se_header (fst st) ''authorization'' = Some secured_header"
  shows "run_request_plugin example_env (''basic_auth'', p) st = (Ok False, st)"
proof -
  have "starts_with ''Basic '' secured_header" by (simp add: secured_header_def)
  then have "basic_request_filter (pe_hdr example_env) (pe_b64 example_env) p st = (Ok False, st)"
    using assms secured_header_valid by (simp add: basic_request_filter_def)
  then show ?thesis by (simp add: act_is_ok_and_def)
qed

lemma secured_service_vars:
  "service_vars_of D secured_service = label_vars_init\<lparr>lv_enabled := True, lv_host := ''a.io'', lv_port := ''80'',
     lv_basic_user := Some ''u'', lv_basic_password := Some ''p''\<rparr>"
  by (simp add: service_vars_of_def secured_service_def service_vars_def container_vars_def secured_labels_def
      label_true_def label_or_empty_def label_patterns_def PATTERN_PREFIX_def hm_get_def label_vars_init_def)

lemma secured_plugins:
  "insert_plugins (service_plugins (service_vars_of D secured_service)) [] =
   [(''basic_auth'', example_basic_plugin)]"
  by (simp add: secured_service_vars service_plugins_def get_oauth2_plugin_def label_vars_init_def KNOWN_PLUGINS_def
      hm_insert_def example_basic_plugin_def)

theorem labelled_service_requires_credentials_witness:
  "\<exists>hosts routes' st' crt'. list_services example_docker (Some [secured_service]) = Ok hosts \<and>
     route_loop example_disc (map Received (send_route_message hosts)) [] = Ok routes' \<and>
     router_request_filter example_env disc_router routes' secured_request [] = (Ok False, st', crt') \<and>
     authorized (pe_b64 example_env) secured_header ''u'' ''p''"
proof -
  have complete: "\<forall>sv\<in>set [secured_service]. service_complete sv"
    by (simp add: service_complete_def secured_service_def hm_wf_def secured_labels_def)
  have found: "find (service_serves example_docker ''a.io'') [secured_service] = Some secured_service"
    by (simp add: service_serves_def secured_service_vars vars_usable_def label_vars_init_def)
  have spec: "dsv_spec secured_service = Some (Some ''web'', Some secured_labels)"
    by (simp add: secured_service_def)
  obtain hosts where hosts: "list_services example_docker (Some [secured_service]) = Ok hosts"
    using add_services_result [OF complete, of "[]" example_docker] by (auto simp: list_services_def)
  obtain routes' where loop: "route_loop example_disc (map Received (send_route_message hosts)) [] = Ok routes'"
    using route_loop_total [of "announcements hosts" example_disc "[]"]
    by (auto simp: send_route_message_announcements comp_def headers_valid_def example_disc_def)
  have lb: "dx_try_from example_disc us = Some us" for us by (simp add: example_disc_def)
  obtain rc where rc: "get_route_by_key routes' ''a.io'' = Some rc" "co_plugins rc = [(''basic_auth'', example_basic_plugin)]"
    using labelled_service_is_routed [OF complete found hosts loop _ lb] by (auto simp: secured_plugins get_route_by_key_def)
  have run: "run_request_plugin example_env (''basic_auth'', example_basic_plugin) (with_host (pe_hdr example_env) secured_request) =
      (Ok False, with_host (pe_hdr example_env) secured_request)"
    by (rule secured_plugin_passes [OF _ example_auth_config]) (simp_all add: example_basic_plugin_def)
  then have exec: "execute_request_plugins example_env (co_plugins rc) (with_host (pe_hdr example_env) secured_request) =
      (Ok False, with_host (pe_hdr example_env) secured_request)"
    by (simp add: rc(2) act_bind_def del: run_request_plugin.simps)
  have "\<not> path_rejected disc_router rc (se_uri_path (fst secured_request))"
    by (simp add: path_rejected_def disc_router_def split: option.splits)
  from router_pass [OF _ this exec, of routes' "[]"] rc(1) obtain st' crt' where
    pass: "router_request_filter example_env disc_router routes' secured_request [] = (Ok False, st', crt')" by auto
  have "authorized (pe_b64 example_env) secured_header ''u'' ''p''"
  proof (rule labelled_service_requires_credentials [where v = secured_header and b = True,
        OF complete found spec _ _ hosts loop _ lb _ _ _ _ _ _ _ pass])
    show "plugin_verdict example_env (with_host (pe_hdr example_env) secured_request) q \<noteq> Panic m"
      if "get_route_by_key routes' ''a.io'' = Some rc'" "q \<in> set (co_plugins rc')" for rc' q m
      using that rc run by (simp add: plugin_verdict_def del: run_request_plugin.simps)
    show "\<exists>a. respond_with_authenticate (pe_hdr example_env) ''a.io'' = Ok a"
      by (simp only: respond_with_authenticate_def example_env_def plugin_env.select_convs example_insert)
  qed (simp_all add: secured_header_valid get_route_by_key_def secured_labels_def hm_get_def)
  with hosts loop pass show ?thesis by blast
qed

section \<open>From labels to the peer\<close>

lemma message_upstream_resolved:
  assumes "u \<in> set (message_upstreams X us)"
  shows "\<exists>a answers. a \<in> set us \<and> dx_resolve X a = Some answers \<and> (ru_ip u, ru_port u) \<in> set answers"
proof -
  let ?of = "\<lambda>(ip, port). \<lparr>ru_ip = ip, ru_port = port, ru_network = None, ru_weight = Some 1, ru_sni = None, ru_headers = None\<rparr>"
  have "u \<in> (\<Union>a\<in>set us. set (case dx_resolve X a of Some scr \<Rightarrow> map ?of scr | None \<Rightarrow> []))"
    using assms unfolding message_upstreams_def set_concat set_map UN_simps by blast
  then obtain a where "a \<in> set us" "u \<in> set (case dx_resolve X a of Some scr \<Rightarrow> map ?of scr | None \<Rightarrow> [])" by (rule UN_E)
  then show ?thesis by (cases "dx_resolve X a") auto
qed

lemma host_route_addresses:
  assumes "host_route D cts host = Some r"
  shows "set (pd_upstreams r) = (\<Union>ct\<in>{ct \<in> set cts. serves_host D host ct}. set (addresses D ct))"
proof -
  obtain ct others where f: "filter (serves_host D host) cts = ct # others"
    and "pd_upstreams r = concat (map (addresses D) (ct # others))"
    using assms by (auto simp: host_route_def split: list.splits)
  then have "set (pd_upstreams r) = (\<Union>ct\<in>set (filter (serves_host D host) cts). set (addresses D ct))"
    by simp
  then show ?thesis by simp
qed

text \<open>
  C7. Requests for a host that containers are labelled with go to those containers only: the peer
  of a forwarded request is an address that the routing service or the router resolved an address
  of one of them to.
\<close>

theorem requests_go_to_labelled_containers:
  assumes "\<forall>ct\<in>set cts. container_complete ct"
    and "host_route D cts host = Some r" and "pd_upstreams r \<noteq> []"
    and "list_containers D (Some cts) = Ok hosts"
    and "route_loop X (map Received (send_route_message hosts)) routes = Ok routes'"
    and "get_route_by_key routes host = None"
    and "dx_try_from X (map upstream_addr (message_upstreams X (pd_upstreams r))) = Some lb"
    and "host_without_port (pe_hdr E) (fst st) = host"
    and "router_request_filter E R routes' st crt = (Ok False, st1, crt')"
    and "upstream_peer R st1 = (Ok peer, st2)"
  shows "\<exists>ct a answers ip port addrs ip' port'. ct \<in> set cts \<and> serves_host D host ct \<and> a \<in> set (addresses D ct) \<and>
    dx_resolve X a = Some answers \<and> (ip, port) \<in> set answers \<and>
    re_resolve R (ip @ '':'' @ show_u16 port) = Some addrs \<and> (ip', port') \<in> set addrs \<and>
    hp_address peer = Inet ip' port'"
proof -
  have hosts: "hm_wf hosts" "hm_get hosts host = Some r"
    using add_containers_result [OF assms(1), of "[]" D] assms(2,4) by (auto simp: list_containers_def)
  obtain rc where rc: "get_route_by_key routes' host = Some rc" "co_upstreams rc = message_upstreams X (pd_upstreams r)"
    using announced_host_is_routed [OF hosts assms(3,5,6,7)] by blast
  have "rx_route_container (snd st1) = rc"
    using assms(9)
  proof (cases rule: router_forward_cases)
    case (1 rc' st')
    with rc(1) assms(8) show ?thesis by simp
  qed
  then obtain ip' port' u where sel: "hp_address peer = Inet ip' port'" and "find_upstream R ip' port' (co_upstreams rc) = Ok (Some u)"
    using assms(10) by (auto simp: upstream_peer_def Let_def split: option.splits socket_addr.splits res.splits)
  then obtain addrs where u: "u \<in> set (co_upstreams rc)" "re_resolve R (ru_ip u @ '':'' @ show_u16 (ru_port u)) = Some addrs"
    "(ip', port') \<in> set addrs"
    by (auto dest!: find_upstream_Some)
  obtain a answers where a: "a \<in> set (pd_upstreams r)" "dx_resolve X a = Some answers" "(ru_ip u, ru_port u) \<in> set answers"
    using u(1) message_upstream_resolved [of u X "pd_upstreams r"] by (auto simp: rc(2))
  obtain ct where "ct \<in> set cts" "serves_host D host ct" "a \<in> set (addresses D ct)"
    using a(1) host_route_addresses [OF assms(2)] by auto
  with a(2,3) u(2,3) sel show ?thesis by blast
qed

theorem requests_go_to_labelled_containers_witness:
  "\<exists>hosts routes' st1 crt' peer st2. list_containers example_docker (Some [example_ct 1]) = Ok hosts \<and>
     route_loop example_disc (map Received (send_route_message hosts)) [] = Ok routes' \<and>
     router_request_filter example_env disc_router routes' secured_request [] = (Ok False, st1, crt') \<and>
     upstream_peer disc_router st1 = (Ok peer, st2) \<and> hp_address peer = Inet ''10.0.0.1'' 80"
proof -
  have c: "\<forall>ct\<in>set [example_ct 1]. container_complete ct" using example_ct_complete by simp
  obtain hosts where h: "list_containers example_docker (Some [example_ct 1]) = Ok hosts" "hm_wf hosts"
    "hm_get hosts = host_route example_docker [example_ct 1]"
    using add_containers_result [OF c, of "[]" example_docker] by (auto simp: list_containers_def)
  obtain routes' where loop: "route_loop example_disc (map Received (send_route_message hosts)) [] = Ok routes'"
    using route_loop_total [of "announcements hosts" example_disc "[]"]
    by (auto simp: send_route_message_announcements comp_def headers_valid_def example_disc_def)
  have lb: "dx_try_from example_disc us = Some us" for us by (simp add: example_disc_def)
  let ?u = "show_ipv4 10 0 0 1 @ '':80''"
  obtain r where r: "host_route example_docker [example_ct 1] ''a.io'' = Some r" "pd_upstreams r = [?u]" "pd_plugins r = None"
    by (simp add: host_route_def example_ct_serves example_ct_addresses container_route_def docker_route_new_def)
  obtain rc where rc: "get_route_by_key routes' ''a.io'' = Some rc" "co_plugins rc = []"
    "co_upstreams rc = message_upstreams example_disc [?u]"
    using announced_host_is_routed [OF h(2) _ _ loop _ lb, of "''a.io''" r] r h(3) by (auto simp: get_route_by_key_def)
  have "\<not> path_rejected disc_router rc (se_uri_path (fst secured_request))"
    by (simp add: path_rejected_def disc_router_def split: option.splits)
  moreover have "execute_request_plugins example_env (co_plugins rc) (with_host (pe_hdr example_env) secured_request) =
      (Ok False, with_host (pe_hdr example_env) secured_request)" by (simp add: rc(2))
  ultimately obtain s crt' where
    pass: "router_request_filter example_env disc_router routes' secured_request [] =
      (Ok False, (s, (snd (with_host (pe_hdr example_env) secured_request))\<lparr>rx_route_container := rc\<rparr>), crt')"
    using router_pass [of routes' example_env secured_request rc disc_router _ "[]"] rc(1) by auto
  obtain peer st2 where peer: "upstream_peer disc_router
      (s, (snd (with_host (pe_hdr example_env) secured_request))\<lparr>rx_route_container := rc\<rparr>) = (Ok peer, st2)"
    by (simp add: upstream_peer_def Let_def disc_router_def rc(3) message_upstreams_def example_disc_def upstream_resolves_def)
  have "\<exists>ip port. hp_address peer = Inet ip port \<and> (ip, port) \<in> set [(''10.0.0.1'', 80)]"
    using requests_go_to_labelled_containers [OF c r(1) _ h(1) loop _ lb _ pass peer]
    by (auto simp: r(2) get_route_by_key_def disc_router_def)
  with h(1) loop pass peer show ?thesis by auto
qed

section \<open>Challenges on port 80\<close>

lemma respond_text_body:
  assumes "fine st" and "respond_text H status extra body st = (Ok True, st')"
  shows "\<exists>h. se_sent (fst st') = se_sent (fst st) @ [SentHeader h False, SentBody body True]"
proof -
  obtain h where "append_headers H (extra @ [(''content-type'', ''text/plain''), (''content-length'', show_nat (length body))])
      (ho_build H status) = Ok h"
    using assms(2) by (auto simp: respond_text_def lift_err_def act_bind_def split: res.splits)
  from respond_text_fine [OF assms(1) this] assms(2) show ?thesis by auto
qed

context acme_store
begin

lemma answered_iff_served:
  assumes "inv s" and "get_host H (fst st) = d" and "d \<noteq> []" and "CHR ''/'' \<notin> set t"
    and "se_uri_path (fst st) = ACME_PATH @ CHR ''/'' # t" and "fine st"
    and "append_headers H [(''content-type'', ''text/plain''), (''content-length'', show_nat (length p))] (ho_build H 200) = Ok h"
  shows "fst (http_request_filter H uri (so_get_challenge S) s st) =
      (Ok True, ((fst st)\<lparr>se_sent := se_sent (fst st) @ [SentHeader h False, SentBody p True]\<rparr>, snd st)) \<longleftrightarrow>
    served S s d = Some (t, p)" (is "?answered \<longleftrightarrow> _")
proof -
  obtain s' where "so_get_challenge S s d = (s', Ok (challenges_of s d))"
    using get_challenge_spec [OF assms(1)] by metis
  from acme_branch [where get_challenge = "so_get_challenge S", OF assms(2,3) _ this]
  have run: "fst (http_request_filter H uri (so_get_challenge S) s st) =
      serve_challenge H (ACME_PATH @ CHR ''/'' # t) (challenges_of s d) st"
    using assms(5) by simp
  have good: "respond_text H 200 [] p st =
      (Ok True, ((fst st)\<lparr>se_sent := se_sent (fst st) @ [SentHeader h False, SentBody p True]\<rparr>, snd st))"
    using assms(7) by (intro respond_text_fine [OF assms(6)]) simp
  show ?thesis
  proof
    assume ?answered
    then obtain p' where "challenges_of s d = Some (t, p')" and p': "respond_text H 200 [] p' st =
        (Ok True, ((fst st)\<lparr>se_sent := se_sent (fst st) @ [SentHeader h False, SentBody p True]\<rparr>, snd st))"
      unfolding run using token_of_path [OF assms(4)] by (auto simp: serve_challenge_def split: option.splits if_splits)
    with respond_text_body [OF assms(6) p'] show "served S s d = Some (t, p)" by (simp add: served_eq [OF assms(1)])
  next
    assume "served S s d = Some (t, p)"
    then show ?answered
      unfolding run using good token_of_path [OF assms(4)] by (simp add: served_eq [OF assms(1)] serve_challenge_def)
  qed
qed

end

text \<open>
  C20. The challenge the certificate authority validates against is what the proxy on port 80
  answers: with the Redis store, a request for a domain and token is answered with a proof exactly
  when the Let's Encrypt service offers this token and proof for the domain.
\<close>

theorem authority_sees_what_port_80_answers:
  assumes "redis_inv P s" and "get_host H (fst st) = d" and "d \<noteq> []" and "CHR ''/'' \<notin> set t"
    and "se_uri_path (fst st) = ACME_PATH @ CHR ''/'' # t" and "fine st"
    and "append_headers H [(''content-type'', ''text/plain''), (''content-length'', show_nat (length p))] (ho_build H 200) = Ok h"
  shows "fst (http_request_filter H uri (redis_get_challenge P) s st) =
      (Ok True, ((fst st)\<lparr>se_sent := se_sent (fst st) @ [SentHeader h False, SentBody p True]\<rparr>, snd st)) \<longleftrightarrow>
    served (redis_ops P) s d = Some (t, p)"
  using redis_acme.answered_iff_served [OF assms] by (simp add: redis_ops_def)

theorem authority_sees_what_port_80_answers_witness:
  "\<exists>s' h. redis_set_challenge example_pki example_replica ''a.io'' ''tok'' ''prf'' = (s', Ok ()) \<and>
    fst (http_request_filter example_hdr (\<lambda>_ _ _. None) (redis_get_challenge example_pki) s'
      (example_request ''a.io'' (ACME_PATH @ CHR ''/'' # ''tok''))) =
    (Ok True, ((fst (example_request ''a.io'' (ACME_PATH @ CHR ''/'' # ''tok'')))\<lparr>se_sent := [SentHeader h False, SentBody ''prf'' True]\<rparr>, ()))"
proof -
  let ?r = "example_request ''a.io'' (ACME_PATH @ CHR ''/'' # ''tok'')"
  obtain s' where s': "redis_set_challenge example_pki example_replica ''a.io'' ''tok'' ''prf'' = (s', Ok ())"
    by (simp add: redis_set_challenge_def example_replica_def example_redis_def example_pki_def)
  have inv: "redis_inv example_pki s'" and "redis_challenges_of example_pki s' ''a.io'' = Some (''tok'', ''prf'')"
    using redis_set_challenge_spec [OF example_replica_inv s'] by auto
  then have served: "served (redis_ops example_pki) s' ''a.io'' = Some (''tok'', ''prf'')"
    by (simp add: redis_acme.served_eq)
  obtain h where h: "append_headers example_hdr
      [(''content-type'', ''text/plain''), (''content-length'', show_nat (length ''prf''))] (ho_build example_hdr 200) = Ok h"
    using example_append by (fastforce simp: example_hdr_def)
  have "fst (http_request_filter example_hdr (\<lambda>_ _ _. None) (redis_get_challenge example_pki) s' ?r) =
    (Ok True, ((fst ?r)\<lparr>se_sent := se_sent (fst ?r) @ [SentHeader h False, SentBody ''prf'' True]\<rparr>, snd ?r))"
    using authority_sees_what_port_80_answers [where t = "''tok''" and d = "''a.io''" and st = ?r, OF inv _ _ _ _ _ h] served by simp
  with s' show ?thesis by (intro exI [of _ s'] exI [of _ h]) simp
qed

section \<open>From routes to handshakes\<close>

text \<open>
  C8. With an authority that validates what is served and makes an order ready once it is validated,
  one round of the Let's Encrypt service ends, and afterwards every handshake that names a routed
  host is completed with the certificate stored for it: the one the host had before, or else the one
  that was delivered for it.
\<close>

theorem routed_hosts_complete_handshakes:
  assumes "ca_laws A P fits V" and "ssl_laws L key leaf chain" and "ssl_accepts L fits"
    and "\<And>d c. hm_get (ms_certs s) d = Some c \<Longrightarrow> fits c"
  shows "\<exists>s' w'. watch_round A P memory_ops routes (s, w) = Some (Ok (), (s', w')) \<and>
    (\<forall>host rc ssl. (host, rc) \<in> set routes \<longrightarrow> sl_servername L ssl = Some host \<longrightarrow>
      (\<exists>c ssl'. hm_get (ms_certs s') host = Some c \<and>
         (case hm_get (ms_certs s) host of Some c0 \<Rightarrow> c = c0
          | None \<Rightarrow> \<exists>cert. am_certificate A w' host = Ok (Some cert) \<and>
              bundle_certificate P (ac_certificate cert) (ac_private_key cert) = Ok c) \<and>
         certificate_callback L memory_get_certificate s' ssl = (s', Ok ssl') \<and>
         key ssl' = Some (ce_key c) \<and> leaf ssl' = Some (ce_leaf c)))"
proof -
  obtain s' w' where run: "watch_round A P memory_ops routes (s, w) = Some (Ok (), (s', w'))"
    and certs: "\<And>d. if d \<in> fst ` set routes \<and> hm_get (ms_certs s) d = None
      then \<exists>c. hm_get (ms_certs s') d = Some c \<and> delivered P V w' d c \<and> fits c
      else hm_get (ms_certs s') d = hm_get (ms_certs s) d \<and> cv_saved V w' d = cv_saved V w d"
    using memory_acme.watch_round_covers [OF assms(1), where s = s and routes = routes and w = w] by blast
  have "\<exists>c ssl'. hm_get (ms_certs s') host = Some c \<and>
      (case hm_get (ms_certs s) host of Some c0 \<Rightarrow> c = c0
       | None \<Rightarrow> \<exists>cert. am_certificate A w' host = Ok (Some cert) \<and>
           bundle_certificate P (ac_certificate cert) (ac_private_key cert) = Ok c) \<and>
      certificate_callback L memory_get_certificate s' ssl = (s', Ok ssl') \<and>
      key ssl' = Some (ce_key c) \<and> leaf ssl' = Some (ce_leaf c)"
    if "(host, rc) \<in> set routes" "sl_servername L ssl = Some host" for host rc ssl
  proof -
    have "host \<in> fst ` set routes" using that(1) by force
    then obtain c where c: "hm_get (ms_certs s') host = Some c" "fits c"
      and origin: "case hm_get (ms_certs s) host of Some c0 \<Rightarrow> c = c0
        | None \<Rightarrow> \<exists>cert. am_certificate A w' host = Ok (Some cert) \<and>
            bundle_certificate P (ac_certificate cert) (ac_private_key cert) = Ok c"
      using certs [of host] assms(4) [of host]
      by (cases "hm_get (ms_certs s) host") (auto simp: delivered_def ca_laws_rules(1) [OF assms(1)])
    have "memory_get_certificate s' host = (s', Ok (Some c))" using c(1) by (simp add: memory_get_certificate_def)
    from callback_works [OF assms(2,3) c(2) that(2), of memory_get_certificate, OF this] c(1) origin show ?thesis by blast
  qed
  with run show ?thesis by blast
qed

theorem routed_hosts_complete_handshakes_witness:
  "\<exists>s' w' ssl'. watch_round example_acme example_pki memory_ops [(''a.io'', container_new ())] (memory_new, example_world) = Some (Ok (), (s', w')) \<and>
     certificate_callback example_ssl memory_get_certificate s'
       \<lparr>hk_name = Some ''a.io'', hk_key = None, hk_leaf = None, hk_chain = []\<rparr> = (s', Ok ssl') \<and> hk_key ssl' \<noteq> None"
proof -
  let ?ssl = "\<lparr>hk_name = Some ''a.io'', hk_key = None, hk_leaf = None, hk_chain = []\<rparr>"
  have name: "sl_servername example_ssl ?ssl = Some ''a.io''" by (simp add: example_ssl_def)
  have new: "hm_get (ms_certs memory_new) d = Some c \<Longrightarrow> ce_key c = ''key''" for d and c :: "(string, string) Certificate"
    by (simp add: memory_new_def)
  show ?thesis
    using routed_hosts_complete_handshakes [OF example_acme_laws example_ssl_laws example_ssl_accepts new,
        where s = memory_new and routes = "[(''a.io'', container_new ())]" and w = example_world] name
    by fastforce
qed

end
